(* ===== verification/Prelude.thy ===== *)
theory Prelude
  imports Main "HOL-Library.Word"
begin

text \<open>
  Shared vocabulary of the development: names for the machine integers of the sources, the
  sum type for failures, and the generic facts about lists and words that the components use.

  \<^item> \<open>u64\<close> is \<open>size_t\<close>, \<open>ulong\<close>, \<open>UINT64\<close>, \<open>ADDRINT\<close> and, read with \<open>sint\<close>,
    \<open>long long\<close> / \<open>ktime_t\<close>; \<open>u32\<close> is \<open>UINT32\<close> / \<open>unsigned int\<close> and, read with \<open>sint\<close>,
    \<open>int\<close>. Addition and subtraction of words wrap, as they do in the code.
  \<^item> \<open>fault\<close> names the behaviours that the language leaves undefined or that end the process.
\<close>

type_synonym u64 = "64 word"
type_synonym u32 = "32 word"
type_synonym byte = "8 word"

datatype fault =
    UB_index        \<comment> \<open>a vector is indexed out of range\<close>
  | UB_overrun      \<comment> \<open>a copy runs past the memory it goes to\<close>
  | UB_cast         \<comment> \<open>a \<open>double\<close> outside the range of the integer it is converted to\<close>
  | Assert_failed   \<comment> \<open>an \<open>ASSERTX\<close> of the tool fails\<close>
  | Exit_called     \<comment> \<open>the code calls \<open>exit(-1)\<close>\<close>

subsection \<open>Lists indexed by a thread number\<close>

definition vec_at :: "'a list \<Rightarrow> nat \<Rightarrow> fault + 'a" where
  "vec_at xs i = (if i < length xs then Inr (xs ! i) else Inl UB_index)"

definition vec_upd :: "nat \<Rightarrow> ('a \<Rightarrow> 'a) \<Rightarrow> 'a list \<Rightarrow> 'a list" where
  "vec_upd i f xs = xs[i := f (xs ! i)]"

lemma vec_at_Inr [simp]: "i < length xs \<Longrightarrow> vec_at xs i = Inr (xs ! i)"
  by (simp add: vec_at_def)

lemma vec_at_eq_Inr_iff: "vec_at xs i = Inr x \<longleftrightarrow> i < length xs \<and> x = xs ! i"
  by (auto simp: vec_at_def)

lemma length_vec_upd [simp]: "length (vec_upd i f xs) = length xs"
  by (simp add: vec_upd_def)

lemma nth_vec_upd [simp]:
  "j < length xs \<Longrightarrow> vec_upd i f xs ! j = (if i = j then f (xs ! j) else xs ! j)"
  by (simp add: vec_upd_def nth_list_update)

lemma vec_upd_commute: "i \<noteq> j \<Longrightarrow> vec_upd i f (vec_upd j g xs) = vec_upd j g (vec_upd i f xs)"
  by (simp add: vec_upd_def list_update_swap)

lemma vec_upd_same: "vec_upd i f (vec_upd i g xs) = vec_upd i (f \<circ> g) xs"
  by (cases "i < length xs") (simp_all add: vec_upd_def list_update_beyond)

lemma list_all_vec_upd:
  assumes "list_all P xs" and "\<And>x. P x \<Longrightarrow> P (f x)"
  shows "list_all P (vec_upd i f xs)"
  using assms by (auto simp: list_all_length)

lemma list_all_append1 [simp]: "list_all P (xs @ [x]) \<longleftrightarrow> list_all P xs \<and> P x"
  by (simp add: list_all_iff conj_commute)

text \<open>A loop whose body may fail, over a list of indices.\<close>

fun map_fault :: "('a \<Rightarrow> fault + 'b) \<Rightarrow> 'a list \<Rightarrow> fault + 'b list" where
  "map_fault f [] = Inr []"
| "map_fault f (x # xs) = (case f x of Inl e \<Rightarrow> Inl e | Inr y \<Rightarrow>
     (case map_fault f xs of Inl e \<Rightarrow> Inl e | Inr ys \<Rightarrow> Inr (y # ys)))"

fun fold_fault :: "('a \<Rightarrow> 's \<Rightarrow> fault + 's) \<Rightarrow> 'a list \<Rightarrow> 's \<Rightarrow> fault + 's" where
  "fold_fault f [] s = Inr s"
| "fold_fault f (x # xs) s = (case f x s of Inl e \<Rightarrow> Inl e | Inr s' \<Rightarrow> fold_fault f xs s')"

lemma map_fault_Inr: "(\<And>x. x \<in> set xs \<Longrightarrow> \<exists>y. f x = Inr y) \<Longrightarrow> \<exists>ys. map_fault f xs = Inr ys"
  by (induction xs) fastforce+

lemma map_fault_Inl: "x \<in> set xs \<Longrightarrow> f x = Inl e \<Longrightarrow> \<exists>e'. map_fault f xs = Inl e'"
  by (induction xs) (auto split: sum.splits)

lemma map_fault_only:
  assumes "x \<in> set xs" and "f x = Inl e" and only: "\<And>y e'. f y = Inl e' \<Longrightarrow> e' = e"
  shows "map_fault f xs = Inl e"
  using assms(1)
proof (induction xs)
  case (Cons y ys)
  show ?case
  proof (cases "f y")
    case (Inl e')
    with only [OF Inl] show ?thesis by simp
  next
    case (Inr b)
    with Cons.prems assms(2) have "x \<in> set ys" by auto
    with Inr Cons.IH show ?thesis by simp
  qed
qed simp

lemma fold_fault_invariant:
  assumes "fold_fault f xs s = Inr s'" and "I s"
    and "\<And>x s s'. x \<in> set xs \<Longrightarrow> I s \<Longrightarrow> f x s = Inr s' \<Longrightarrow> I s'"
  shows "I s'"
  using assms
proof (induction xs arbitrary: s)
  case (Cons x xs)
  from Cons.prems(1) obtain s1 where s1: "f x s = Inr s1" "fold_fault f xs s1 = Inr s'"
    by (auto split: sum.splits)
  have "I s1" by (rule Cons.prems(3) [OF _ Cons.prems(2) s1(1)]) simp
  moreover have "\<And>y t t'. y \<in> set xs \<Longrightarrow> I t \<Longrightarrow> f y t = Inr t' \<Longrightarrow> I t'"
    by (rule Cons.prems(3)) simp_all
  ultimately show ?case using Cons.IH [OF s1(2)] by blast
qed simp

lemma fold_fault_append:
  "fold_fault f (xs @ ys) s = (case fold_fault f xs s of Inl e \<Rightarrow> Inl e | Inr s' \<Rightarrow> fold_fault f ys s')"
  by (induction xs arbitrary: s) (simp_all split: sum.split)

lemma fold_fault_if:
  "fold_fault f (if c then [x] else []) s = (if c then f x s else Inr s)"
  by (cases "f x s") simp_all

subsection \<open>Runs of a step relation\<close>

inductive runs :: "('s \<Rightarrow> 's \<Rightarrow> bool) \<Rightarrow> 's \<Rightarrow> 's \<Rightarrow> bool" for step where
  runs_refl: "runs step s s"
| runs_step: "runs step s s' \<Longrightarrow> step s' s'' \<Longrightarrow> runs step s s''"

lemma runs_trans: "runs step s' s'' \<Longrightarrow> runs step s s' \<Longrightarrow> runs step s s''"
  by (induction rule: runs.induct) (auto intro: runs_step)

text \<open>The contract between a step relation and a property that all its steps keep.\<close>

locale preserved =
  fixes step :: "'s \<Rightarrow> 's \<Rightarrow> bool" and inv :: "'s \<Rightarrow> bool"
  assumes step_keeps: "step s s' \<Longrightarrow> inv s \<Longrightarrow> inv s'"
begin

lemma runs_keep: "runs step s s' \<Longrightarrow> inv s \<Longrightarrow> inv s'"
  by (induction rule: runs.induct) (auto intro: step_keeps)

lemma never_reached: "inv s \<Longrightarrow> (\<And>t. inv t \<Longrightarrow> \<not> bad t) \<Longrightarrow> \<not> (\<exists>s'. runs step s s' \<and> bad s')"
  using runs_keep by blast

end

subsection \<open>Words\<close>

lemma unat_u64_less [simp]: "unat (x :: u64) < 18446744073709551616"
  using unsigned_less [of x, where ?'a = nat] by simp

lemma unat_u32_less [simp]: "unat (x :: u32) < 4294967296"
  using unsigned_less [of x, where ?'a = nat] by simp

lemma unat_add_u64: "unat (x + y :: u64) = (unat x + unat y) mod 18446744073709551616"
  by (simp add: unat_word_ariths)

lemma unat_add_le: "unat (x + y :: u64) \<le> unat x + unat y"
  unfolding unat_add_u64 by (rule mod_less_eq_dividend)

lemma unat_sum_list_u64:
  "sum_list (map unat ns) < 2 ^ 64 \<Longrightarrow> unat (sum_list ns :: u64) = sum_list (map unat ns)"
  by (induction ns) (simp_all add: unat_add_u64)

lemma unat_of_nat_le: "unat (of_nat n :: u64) \<le> n"
  by (simp add: unsigned_of_nat take_bit_eq_mod)

lemma sint_of_int_u64: "- (2 ^ 63) \<le> n \<Longrightarrow> n < 2 ^ 63 \<Longrightarrow> sint (of_int n :: u64) = n"
  by (simp add: signed_of_int signed_take_bit_int_eq_self)

lemma uint_of_int_u64: "0 \<le> n \<Longrightarrow> n < 2 ^ 64 \<Longrightarrow> uint (of_int n :: u64) = n"
  by (simp add: unsigned_of_int take_bit_int_eq_self)

lemma uint_of_int_u32: "0 \<le> n \<Longrightarrow> n < 2 ^ 32 \<Longrightarrow> uint (of_int n :: u32) = n"
  by (simp add: unsigned_of_int take_bit_int_eq_self)

lemma sint_u64_range: "- (2 ^ 63) \<le> sint (w :: u64)" "sint (w :: u64) < 2 ^ 63"
  using sint_ge [of w] sint_lt [of w] by simp_all

end
