(* ===== verification/Cpp_String.thy ===== *)
theory Cpp_String
  imports Prelude
begin

text \<open>
  The parts of the C++ standard library's strings that the sources use: \<open>std::to_string\<close>
  (and \<open>operator<<\<close> on integers), \<open>std::stoi\<close> / \<open>std::stoul\<close> with their exceptions,
  \<open>find_last_of\<close>, \<open>substr\<close>, \<open>find\<close> and \<open>std::getline\<close> with a separator. A string is a
  list of bytes. The lemmas give printing followed by parsing, and where the last
  separator of a concatenation is.
\<close>

definition newline :: string where
  "newline = [CHR 0x0A]"

section \<open>Decimal numbers\<close>

definition digit_char :: "nat \<Rightarrow> char" where
  "digit_char d = char_of (48 + d)"

definition is_digit :: "char \<Rightarrow> bool" where
  "is_digit c \<longleftrightarrow> 48 \<le> (of_char c :: nat) \<and> (of_char c :: nat) \<le> 57"

definition digit_val :: "char \<Rightarrow> nat" where
  "digit_val c = of_char c - 48"

fun dec_nat :: "nat \<Rightarrow> string" where
  "dec_nat n = (if n < 10 then [digit_char n] else dec_nat (n div 10) @ [digit_char (n mod 10)])"

declare dec_nat.simps [simp del]

definition dec_int :: "int \<Rightarrow> string" where
  "dec_int n = (if n < 0 then ''-'' @ dec_nat (nat (- n)) else dec_nat (nat n))"

fun digits_val :: "nat \<Rightarrow> string \<Rightarrow> nat" where
  "digits_val acc [] = acc"
| "digits_val acc (c # cs) = (if is_digit c then digits_val (10 * acc + digit_val c) cs else acc)"

lemma is_digit_char [simp]: "d < 10 \<Longrightarrow> is_digit (digit_char d)"
  by (simp add: is_digit_def digit_char_def)

lemma digit_val_char [simp]: "d < 10 \<Longrightarrow> digit_val (digit_char d) = d"
  by (simp add: digit_val_def digit_char_def)

lemma dec_nat_digits: "list_all is_digit (dec_nat n)"
proof (induction n rule: dec_nat.induct)
  case (1 n)
  then show ?case by (simp add: dec_nat.simps [of n])
qed

lemma dec_nat_not_Nil [simp]: "dec_nat n \<noteq> []"
  by (simp add: dec_nat.simps [of n])

lemma digits_val_append:
  "list_all is_digit xs \<Longrightarrow> digits_val acc (xs @ ys) = digits_val (digits_val acc xs) ys"
  by (induction xs arbitrary: acc) auto

lemma digits_val_dec_nat: "digits_val 0 (dec_nat n) = n"
proof (induction n rule: dec_nat.induct)
  case (1 n)
  then show ?case
    by (simp add: dec_nat.simps [of n] digits_val_append dec_nat_digits)
qed

definition no_digit_first :: "string \<Rightarrow> bool" where
  "no_digit_first s \<longleftrightarrow> s = [] \<or> \<not> is_digit (hd s)"

lemma digits_val_dec_nat_rest: "no_digit_first rest \<Longrightarrow> digits_val 0 (dec_nat n @ rest) = n"
  by (cases rest) (simp_all add: digits_val_append dec_nat_digits digits_val_dec_nat no_digit_first_def)

lemma dec_nat_inj [simp]: "dec_nat m = dec_nat n \<longleftrightarrow> m = n"
  by (metis digits_val_dec_nat)

lemma dec_nat_first_digit: "\<exists>c cs. dec_nat n = c # cs \<and> is_digit c"
  using dec_nat_digits [of n] dec_nat_not_Nil [of n] by (cases "dec_nat n") auto

section \<open>Parsing integers\<close>

datatype parse_error = Invalid_argument | Out_of_range

definition is_space :: "char \<Rightarrow> bool" where
  "is_space c \<longleftrightarrow> (of_char c :: nat) = 32 \<or> 9 \<le> (of_char c :: nat) \<and> (of_char c :: nat) \<le> 13"

text \<open>The common part of \<open>strtol\<close> and \<open>strtoul\<close>: blanks, a sign, digits; the rest is ignored.\<close>

definition strto :: "string \<Rightarrow> (bool \<times> nat) option" where
  "strto s0 =
     (let s1 = dropWhile is_space s0;
          neg = (s1 \<noteq> [] \<and> hd s1 = CHR ''-'');
          s2 = (if s1 \<noteq> [] \<and> (hd s1 = CHR ''-'' \<or> hd s1 = CHR ''+'') then tl s1 else s1)
      in if no_digit_first s2 then None else Some (neg, digits_val 0 s2))"

definition stoi :: "string \<Rightarrow> parse_error + int" where
  "stoi s = (case strto s of
     None \<Rightarrow> Inl Invalid_argument
   | Some (neg, n) \<Rightarrow>
       (let v = (if neg then - int n else int n)
        in if - (2 ^ 31) \<le> v \<and> v < 2 ^ 31 then Inr v else Inl Out_of_range))"

definition stoul :: "string \<Rightarrow> parse_error + u64" where
  "stoul s = (case strto s of
     None \<Rightarrow> Inl Invalid_argument
   | Some (neg, n) \<Rightarrow>
       if n < 2 ^ 64 then Inr (if neg then - of_nat n else of_nat n) else Inl Out_of_range)"

lemma digit_not_special: "is_digit c \<Longrightarrow> \<not> is_space c \<and> c \<noteq> CHR ''-'' \<and> c \<noteq> CHR ''+'' \<and> c \<noteq> CHR ''.''"
  by (auto simp: is_digit_def is_space_def)

lemma strto_dec_nat:
  assumes "no_digit_first rest"
  shows "strto (dec_nat n @ rest) = Some (False, n)"
proof -
  obtain c cs where c: "dec_nat n = c # cs" "is_digit c" using dec_nat_first_digit by blast
  then have "dropWhile is_space (dec_nat n @ rest) = dec_nat n @ rest"
    using digit_not_special by simp
  moreover have "\<not> no_digit_first (dec_nat n @ rest)" using c by (simp add: no_digit_first_def)
  ultimately show ?thesis
    using c digit_not_special [OF c(2)] digits_val_dec_nat_rest [OF assms, of n]
    by (simp add: strto_def Let_def)
qed

lemma stoi_dec_nat:
  assumes "n < 2 ^ 31" and "no_digit_first rest"
  shows "stoi (dec_nat n @ rest) = Inr (int n)"
proof -
  have "int n < 2 ^ 31" using assms(1) by simp
  then show ?thesis by (simp add: stoi_def strto_dec_nat [OF assms(2)])
qed

section \<open>Searching and cutting\<close>

definition find_last_of :: "string \<Rightarrow> string \<Rightarrow> nat option" where
  "find_last_of cs s =
     (let is = filter (\<lambda>i. s ! i \<in> set cs) [0..<length s] in if is = [] then None else Some (last is))"

definition substr :: "string \<Rightarrow> nat \<Rightarrow> nat \<Rightarrow> string" where
  "substr s pos n = take n (drop pos s)"

definition contains :: "string \<Rightarrow> string \<Rightarrow> bool" where
  "contains s n \<longleftrightarrow> list_ex (\<lambda>i. take (length n) (drop i s) = n) [0..<Suc (length s)]"

text \<open>\<open>std::getline(ss, name, sep)\<close> until the stream ends: the fields between separators;
  no field after a final separator.\<close>

function getlines :: "char \<Rightarrow> string \<Rightarrow> string list" where
  "getlines sep s =
     (if s = [] then []
      else let field = takeWhile (\<lambda>c. c \<noteq> sep) s; rest = dropWhile (\<lambda>c. c \<noteq> sep) s
           in field # (if rest = [] then [] else getlines sep (tl rest)))"
  by pat_completeness auto
termination
proof (relation "measure (\<lambda>(sep, s). length s)", goal_cases)
  case (2 sep s field rest)
  then have "0 < length s" by simp
  then have "length (dropWhile (\<lambda>c. c \<noteq> sep) s) - Suc 0 < length s"
    using length_dropWhile_le [of "\<lambda>c. c \<noteq> sep" s] by linarith
  with 2 show ?case by simp
qed simp

declare getlines.simps [simp del]

lemma find_last_of_append:
  assumes "c \<in> set cs" and "set cs \<inter> set t = {}"
  shows "find_last_of cs (s @ c # t) = Some (length s)"
proof -
  have "filter (\<lambda>i. (s @ c # t) ! i \<in> set cs) [Suc (length s)..<length (s @ c # t)] = []"
    using assms(2) by (auto simp: filter_empty_conv nth_append nth_Cons split: nat.splits)
  moreover have "[0..<length (s @ c # t)] =
      [0..<length s] @ length s # [Suc (length s)..<length (s @ c # t)]"
  proof -
    have "[0..<length s + Suc (length t)] = [0..<length s] @ [length s..<length s + Suc (length t)]"
      by (rule upt_add_eq_append) simp
    moreover have "[length s..<length s + Suc (length t)]
        = length s # [Suc (length s)..<length s + Suc (length t)]"
      by (rule upt_conv_Cons) simp
    ultimately show ?thesis by simp
  qed
  ultimately show ?thesis using assms(1) by (simp add: find_last_of_def Let_def)
qed

lemma find_last_of_None: "set cs \<inter> set s = {} \<Longrightarrow> find_last_of cs s = None"
  by (auto simp: find_last_of_def Let_def filter_empty_conv dest: nth_mem)

lemma contains_iff: "contains s n \<longleftrightarrow> (\<exists>pre post. s = pre @ n @ post)"
proof
  assume "contains s n"
  then obtain i where "take (length n) (drop i s) = n"
    by (auto simp: contains_def list_ex_iff)
  then have "s = take i s @ n @ drop (length n) (drop i s)"
    by (metis append_take_drop_id)
  then show "\<exists>pre post. s = pre @ n @ post" by blast
next
  assume "\<exists>pre post. s = pre @ n @ post"
  then obtain pre post where s: "s = pre @ n @ post" by blast
  then have "length pre < Suc (length s)" and "take (length n) (drop (length pre) s) = n"
    by auto
  then show "contains s n" unfolding contains_def list_ex_iff by (metis atLeastLessThan_iff le0 set_upt)
qed

lemma stoul_dec_nat:
  assumes "n < 2 ^ 64" and "no_digit_first rest"
  shows "stoul (dec_nat n @ rest) = Inr (of_nat n)"
  using assms(1) by (simp add: stoul_def strto_dec_nat [OF assms(2)])

end
