(* ===== verification/Float64.thy ===== *)
theory Float64
  imports Complex_Main Prelude
begin

text \<open>
  The \<open>double\<close> of the consumer: IEEE 754 binary64 with rounding to nearest, ties to even,
  as the SSE2 code of an x86-64 build computes it (one rounding per operation, no fused or
  extended operations). A finite value is a sign and a rational magnitude; \<open>fl\<close> rounds
  an exact rational to the nearest double. Everything is executable.

  The lemmas give what the components need: rounding is monotone, exact on the values that
  are representable, and values without a sign bit are closed under the operations.
\<close>

section \<open>Rounding\<close>

fun nlog2 :: "nat \<Rightarrow> nat" where
  "nlog2 n = (if n < 2 then 0 else Suc (nlog2 (n div 2)))"

declare nlog2.simps [simp del]

definition ilog2 :: "rat \<Rightarrow> int" where
  "ilog2 x = (let (p, q) = quotient_of x; k = int (nlog2 (nat p)) - int (nlog2 (nat q))
              in if 2 powi k \<le> x then k else k - 1)"

definition rne :: "rat \<Rightarrow> int" where
  "rne x = (let f = \<lfloor>x\<rfloor>; d = x - of_int f
            in if d < 1 / 2 then f else if 1 / 2 < d then f + 1
               else if even f then f else f + 1)"

text \<open>The exponent of the last place of a magnitude: 52 below the leading bit, with the
  subnormal floor.\<close>

definition ulp_exp :: "rat \<Rightarrow> int" where
  "ulp_exp x = max (ilog2 x) (- 1022) - 52"

definition rnd :: "rat \<Rightarrow> rat" where
  "rnd x = (if x = 0 then 0 else of_int (rne (x / 2 powi ulp_exp x)) * 2 powi ulp_exp x)"

subsection \<open>The leading bit\<close>

lemma nlog2_bounds: "0 < n \<Longrightarrow> 2 ^ nlog2 n \<le> n \<and> n < 2 ^ Suc (nlog2 n)"
proof (induction n rule: nlog2.induct)
  case (1 n)
  show ?case
  proof (cases "n < 2")
    case True
    with "1.prems" have "n = 1" by simp
    then show ?thesis by (simp add: nlog2.simps [of "Suc 0"])
  next
    case False
    then have "0 < n div 2" by simp
    with "1.IH" False have "2 ^ nlog2 (n div 2) \<le> n div 2 \<and> n div 2 < 2 ^ Suc (nlog2 (n div 2))"
      by blast
    moreover have "nlog2 n = Suc (nlog2 (n div 2))"
      using False by (simp add: nlog2.simps [of n])
    ultimately show ?thesis by auto
  qed
qed

lemma nlog2_rat_bounds:
  assumes "0 < p"
  shows "(2::rat) powi int (nlog2 (nat p)) \<le> of_int p"
    and "of_int p < (2::rat) powi (int (nlog2 (nat p)) + 1)"
proof -
  from assms have b: "2 ^ nlog2 (nat p) \<le> nat p" "nat p < 2 ^ Suc (nlog2 (nat p))"
    using nlog2_bounds [of "nat p"] by auto
  have "(of_nat (2 ^ nlog2 (nat p)) :: rat) \<le> of_nat (nat p)"
    using b(1) by (rule of_nat_mono)
  then show "(2::rat) powi int (nlog2 (nat p)) \<le> of_int p"
    using assms by (simp add: of_nat_nat)
  have "(of_nat (nat p) :: rat) < of_nat (2 ^ Suc (nlog2 (nat p)))"
    using b(2) by (simp only: of_nat_less_iff)
  then show "of_int p < (2::rat) powi (int (nlog2 (nat p)) + 1)"
    using assms by (simp add: of_nat_nat power_int_add)
qed

lemma ilog2_bounds:
  assumes "0 < x"
  shows "2 powi ilog2 x \<le> x \<and> x < 2 powi (ilog2 x + 1)"
proof -
  obtain p q where pq: "quotient_of x = (p, q)" by fastforce
  then have q: "0 < q" and x: "x = of_int p / of_int q"
    using quotient_of_denom_pos quotient_of_div by blast+
  with assms have p: "0 < p" by (simp add: zero_less_divide_iff)
  define a where "a = int (nlog2 (nat p))"
  define b where "b = int (nlog2 (nat q))"
  note pb = nlog2_rat_bounds [OF p, folded a_def]
  note qb = nlog2_rat_bounds [OF q, folded b_def]
  have q0: "(0::rat) < of_int q" using q by simp
  have hi: "x < 2 powi (a - b + 1)"
  proof -
    have "(2::rat) powi (a + 1) \<le> 2 powi (a - b + 1) * of_int q"
    proof -
      have "(2::rat) powi (a + 1) = 2 powi (a - b + 1) * 2 powi b"
        by (subst power_int_add [symmetric]) auto
      also have "\<dots> \<le> 2 powi (a - b + 1) * of_int q"
        using qb(1) by (simp add: mult_left_mono)
      finally show ?thesis .
    qed
    with pb(2) have "of_int p < 2 powi (a - b + 1) * (of_int q :: rat)" by linarith
    then show ?thesis using q0 by (simp add: x divide_less_eq)
  qed
  have lo: "2 powi (a - b - 1) \<le> x"
  proof -
    have "(2::rat) powi (a - b - 1) * of_int q \<le> 2 powi (a - b - 1) * 2 powi (b + 1)"
      using qb(2) by (intro mult_left_mono) auto
    also have "\<dots> = 2 powi a"
      by (subst power_int_add [symmetric]) auto
    finally have "(2::rat) powi (a - b - 1) * of_int q \<le> of_int p" using pb(1) by linarith
    then show ?thesis using q0 by (simp add: x le_divide_eq)
  qed
  have "ilog2 x = (if 2 powi (a - b) \<le> x then a - b else a - b - 1)"
    by (simp add: ilog2_def pq a_def b_def Let_def)
  then show ?thesis using hi lo by auto
qed

lemma ilog2_unique:
  assumes "2 powi k \<le> x" and "x < 2 powi (k + 1)"
  shows "ilog2 x = k"
proof -
  have "(0::rat) < 2 powi k" by simp
  with assms(1) have "0 < x" by linarith
  note b = ilog2_bounds [OF this]
  have "(2::rat) powi ilog2 x < 2 powi (k + 1)" using b assms by linarith
  then have "ilog2 x < k + 1"
    using power_int_increasing [of "k + 1" "ilog2 x" "2::rat"] by (cases "ilog2 x < k + 1") auto
  moreover have "(2::rat) powi k < 2 powi (ilog2 x + 1)" using b assms by linarith
  then have "k < ilog2 x + 1"
    using power_int_increasing [of "ilog2 x + 1" k "2::rat"] by (cases "k < ilog2 x + 1") auto
  ultimately show ?thesis by linarith
qed

lemma ilog2_mono:
  assumes "0 < x" and "x \<le> y"
  shows "ilog2 x \<le> ilog2 y"
proof (rule ccontr)
  assume "\<not> ilog2 x \<le> ilog2 y"
  then have "(2::rat) powi (ilog2 y + 1) \<le> 2 powi ilog2 x"
    by (intro power_int_increasing) auto
  moreover have "2 powi ilog2 x \<le> x" and "y < 2 powi (ilog2 y + 1)"
    using assms ilog2_bounds [of x] ilog2_bounds [of y] by auto
  ultimately show False using assms(2) by linarith
qed

subsection \<open>Rounding to an integer, ties to even\<close>

lemma rne_of_int [simp]: "rne (of_int n) = n"
  by (simp add: rne_def)

lemma rne_floor: "\<lfloor>x\<rfloor> \<le> rne x \<and> rne x \<le> \<lfloor>x\<rfloor> + 1"
  by (simp add: rne_def Let_def)

lemma rne_mono:
  assumes "x \<le> y"
  shows "rne x \<le> rne y"
proof (cases "\<lfloor>x\<rfloor> = \<lfloor>y\<rfloor>")
  case True
  with assms show ?thesis by (auto simp: rne_def Let_def)
next
  case False
  with floor_mono [OF assms] have "\<lfloor>x\<rfloor> + 1 \<le> \<lfloor>y\<rfloor>" by linarith
  with rne_floor [of x] rne_floor [of y] show ?thesis by linarith
qed

lemma rne_nonneg: "0 \<le> x \<Longrightarrow> 0 \<le> rne x"
  using rne_mono [of 0 x] rne_of_int [of 0] by simp

lemma powi_eq_of_int: "0 \<le> j \<Longrightarrow> (2::rat) powi j = of_int (2 ^ nat j)"
  by (metis nat_0_le of_int_numeral of_int_power power_int_of_nat)

lemma rne_powi: "0 \<le> j \<Longrightarrow> rne (2 powi j) = 2 ^ nat j"
  by (simp only: powi_eq_of_int rne_of_int)

subsection \<open>Rounding a magnitude\<close>

lemma rnd_0 [simp]: "rnd 0 = 0"
  by (simp add: rnd_def)

lemma rnd_nonneg: "0 \<le> x \<Longrightarrow> 0 \<le> rnd x"
  by (simp add: rnd_def rne_nonneg)

lemma ulp_exp_floor: "- 1074 \<le> ulp_exp x"
  by (simp add: ulp_exp_def)

lemma ulp_exp_mono: "0 < x \<Longrightarrow> x \<le> y \<Longrightarrow> ulp_exp x \<le> ulp_exp y"
  using ilog2_mono [of x y] by (simp add: ulp_exp_def)

lemma powi_div: "(2::rat) powi k / 2 powi e = 2 powi (k - e)"
  by (simp add: power_int_diff)

lemma powi_of_int_le: "0 \<le> j \<Longrightarrow> (2::rat) powi (j + e) = of_int (2 ^ nat j) * 2 powi e"
  by (simp add: power_int_add powi_eq_of_int)

lemma rnd_le_powi:
  assumes "0 < x" and "x \<le> 2 powi k" and "ulp_exp x \<le> k"
  shows "rnd x \<le> 2 powi k"
proof -
  let ?e = "ulp_exp x"
  have "x / 2 powi ?e \<le> 2 powi (k - ?e)"
    using assms(2) by (simp add: divide_right_mono flip: powi_div)
  then have "rne (x / 2 powi ?e) \<le> 2 ^ nat (k - ?e)"
    using rne_mono [of "x / 2 powi ?e" "2 powi (k - ?e)"] rne_powi [of "k - ?e"] assms(3) by simp
  then have "of_int (rne (x / 2 powi ?e)) * 2 powi ?e
      \<le> of_int (2 ^ nat (k - ?e)) * (2::rat) powi ?e"
    by (intro mult_right_mono) (simp_all only: of_int_le_iff zero_le_power_int zero_le_numeral)
  then show ?thesis
    using assms powi_of_int_le [of "k - ?e" ?e] by (simp add: rnd_def)
qed

lemma rnd_ge_powi:
  assumes "0 < x" and "2 powi k \<le> x" and "ulp_exp x \<le> k"
  shows "2 powi k \<le> rnd x"
proof -
  let ?e = "ulp_exp x"
  have "2 powi (k - ?e) \<le> x / 2 powi ?e"
    using assms(2) by (simp add: divide_right_mono flip: powi_div)
  then have "2 ^ nat (k - ?e) \<le> rne (x / 2 powi ?e)"
    using rne_mono [of "2 powi (k - ?e)" "x / 2 powi ?e"] rne_powi [of "k - ?e"] assms(3) by simp
  then have "of_int (2 ^ nat (k - ?e)) * 2 powi ?e
      \<le> of_int (rne (x / 2 powi ?e)) * (2::rat) powi ?e"
    by (intro mult_right_mono) (simp_all only: of_int_le_iff zero_le_power_int zero_le_numeral)
  then show ?thesis
    using assms powi_of_int_le [of "k - ?e" ?e] by (simp add: rnd_def)
qed

lemma rnd_mono:
  assumes "0 \<le> x" and "x \<le> y"
  shows "rnd x \<le> rnd y"
proof (cases "x = 0")
  case True
  with assms show ?thesis by (simp add: rnd_nonneg)
next
  case False
  with assms have x: "0 < x" and y: "0 < y" by auto
  show ?thesis
  proof (cases "ulp_exp x = ulp_exp y")
    case True
    have "rne (x / 2 powi ulp_exp x) \<le> rne (y / 2 powi ulp_exp x)"
      using assms by (intro rne_mono divide_right_mono) auto
    with True x y show ?thesis
      by (simp add: rnd_def mult_right_mono)
  next
    case False
    with ulp_exp_mono [OF x assms(2)] have lt: "ulp_exp x < ulp_exp y" by simp
    define k where "k = ilog2 y"
    have k: "ulp_exp y = k - 52" "ilog2 x < k" "ulp_exp x < k"
      using lt by (auto simp: ulp_exp_def k_def)
    have "x < 2 powi (ilog2 x + 1)" using ilog2_bounds [OF x] by simp
    also have "\<dots> \<le> 2 powi k" using k by (intro power_int_increasing) auto
    finally have "rnd x \<le> 2 powi k" using x k by (intro rnd_le_powi) auto
    also have "2 powi k \<le> rnd y"
      using y k ilog2_bounds [OF y] by (intro rnd_ge_powi) (auto simp: k_def)
    finally show ?thesis .
  qed
qed

lemma rnd_integral:
  assumes "x / 2 powi ulp_exp x = of_int m"
  shows "rnd x = x"
proof -
  have "x = of_int m * 2 powi ulp_exp x"
    using assms by (simp add: divide_eq_eq)
  with assms show ?thesis by (simp add: rnd_def)
qed

text \<open>A number with at most 53 significant bits, not below the subnormal place, is exact.\<close>

lemma rnd_exact:
  assumes "x = of_int m * 2 powi e" and "0 < m" and "m \<le> 2 ^ 53" and "- 1074 \<le> e"
  shows "rnd x = x"
proof (cases "ulp_exp x \<le> e")
  case True
  have "x / 2 powi ulp_exp x = of_int m * 2 powi (e - ulp_exp x)"
    by (simp add: assms(1) flip: powi_div)
  also have "\<dots> = of_int (m * 2 ^ nat (e - ulp_exp x))"
    using True by (simp add: powi_eq_of_int)
  finally show ?thesis by (rule rnd_integral)
next
  case False
  define E where "E = ulp_exp x"
  have x: "0 < x" using assms by simp
  have E: "E = ilog2 x - 52" "e < E"
    using False assms(4) by (auto simp: E_def ulp_exp_def)
  have "x \<le> of_int (2 ^ 53) * 2 powi e"
    unfolding assms(1) using assms(3)
    by (intro mult_right_mono) (simp_all only: of_int_le_iff zero_le_power_int zero_le_numeral)
  also have "\<dots> = 2 powi (53 + e)" using powi_of_int_le [of 53 e] by simp
  also have "\<dots> \<le> 2 powi (52 + E)" using E by (intro power_int_increasing) auto
  finally have "x = 2 powi (52 + E)"
    using ilog2_bounds [OF x] E by simp
  then have "x / 2 powi ulp_exp x = of_int (2 ^ 52)"
    using powi_div [of "52 + E" E] powi_eq_of_int [of 52] by (simp add: E_def)
  then show ?thesis by (rule rnd_integral)
qed

lemma rnd_of_int: "0 \<le> n \<Longrightarrow> n \<le> 2 ^ 53 \<Longrightarrow> rnd (of_int n) = of_int n"
  using rnd_exact [of "of_int n" n 0] by (cases "n = 0") auto

lemma rnd_idem:
  assumes "0 \<le> x"
  shows "rnd (rnd x) = rnd x"
proof (cases "rnd x = 0")
  case False
  then have x: "0 < x" using assms by (cases "x = 0") auto
  let ?e = "ulp_exp x" and ?m = "rne (x / 2 powi ulp_exp x)"
  have r: "rnd x = of_int ?m * 2 powi ?e" using x by (simp add: rnd_def)
  with False rnd_nonneg [OF assms] have "0 < ?m"
    using rne_nonneg [of "x / 2 powi ?e"] assms by (cases "?m = 0") auto
  moreover have "x < 2 powi (ilog2 x + 1)" using ilog2_bounds [OF x] by simp
  then have "x \<le> 2 powi (53 + ?e)"
    using power_int_increasing [of "ilog2 x + 1" "53 + ?e" "2::rat"] by (simp add: ulp_exp_def)
  then have "x / 2 powi ?e \<le> of_int (2 ^ 53)"
    using powi_of_int_le [of 53 ?e] by (simp add: divide_le_eq)
  then have "?m \<le> 2 ^ 53" using rne_mono rne_of_int by metis
  ultimately show ?thesis
    using rnd_exact [OF r] ulp_exp_floor [of x] by simp
qed simp

section \<open>Doubles\<close>

datatype f64 =
    NaN
  | Inf bool        \<comment> \<open>the sign bit\<close>
  | Fin bool rat    \<comment> \<open>the sign bit and the magnitude\<close>

definition mk :: "bool \<Rightarrow> rat \<Rightarrow> f64" where
  "mk s x = (let r = rnd x in if 2 ^ 1024 \<le> r then Inf s else Fin s r)"

definition sgnd :: "bool \<Rightarrow> rat \<Rightarrow> rat" where
  "sgnd s x = (if s then - x else x)"

lemma sgnd_simps [simp]: "sgnd False x = x" "sgnd True x = - x"
  by (simp_all add: sgnd_def)

definition fl :: "rat \<Rightarrow> f64" where
  "fl x = mk (x < 0) \<bar>x\<bar>"

text \<open>The conversions from the integer types: \<open>size_t\<close> and \<open>long long\<close>.\<close>

definition f64_of_int :: "int \<Rightarrow> f64" where
  "f64_of_int n = fl (of_int n)"

definition f64_of_u64 :: "u64 \<Rightarrow> f64" where
  "f64_of_u64 w = f64_of_int (uint w)"

definition f64_of_s64 :: "u64 \<Rightarrow> f64" where
  "f64_of_s64 w = f64_of_int (sint w)"

fun f64_add :: "f64 \<Rightarrow> f64 \<Rightarrow> f64" where
  "f64_add NaN y = NaN"
| "f64_add (Inf s) NaN = NaN"
| "f64_add (Inf s) (Inf t) = (if s = t then Inf s else NaN)"
| "f64_add (Inf s) (Fin t b) = Inf s"
| "f64_add (Fin s a) NaN = NaN"
| "f64_add (Fin s a) (Inf t) = Inf t"
| "f64_add (Fin s a) (Fin t b) =
     (let v = sgnd s a + sgnd t b
      in if v = 0 then Fin (s \<and> t) 0 else mk (v < 0) \<bar>v\<bar>)"

fun f64_neg :: "f64 \<Rightarrow> f64" where
  "f64_neg NaN = NaN"
| "f64_neg (Inf s) = Inf (\<not> s)"
| "f64_neg (Fin s a) = Fin (\<not> s) a"

fun f64_mul :: "f64 \<Rightarrow> f64 \<Rightarrow> f64" where
  "f64_mul NaN y = NaN"
| "f64_mul (Inf s) NaN = NaN"
| "f64_mul (Inf s) (Inf t) = Inf (s \<noteq> t)"
| "f64_mul (Inf s) (Fin t b) = (if b = 0 then NaN else Inf (s \<noteq> t))"
| "f64_mul (Fin s a) NaN = NaN"
| "f64_mul (Fin s a) (Inf t) = (if a = 0 then NaN else Inf (s \<noteq> t))"
| "f64_mul (Fin s a) (Fin t b) = mk (s \<noteq> t) (a * b)"

fun f64_div :: "f64 \<Rightarrow> f64 \<Rightarrow> f64" where
  "f64_div NaN y = NaN"
| "f64_div (Inf s) NaN = NaN"
| "f64_div (Inf s) (Inf t) = NaN"
| "f64_div (Inf s) (Fin t b) = Inf (s \<noteq> t)"
| "f64_div (Fin s a) NaN = NaN"
| "f64_div (Fin s a) (Inf t) = Fin (s \<noteq> t) 0"
| "f64_div (Fin s a) (Fin t b) =
     (if b = 0 then (if a = 0 then NaN else Inf (s \<noteq> t)) else mk (s \<noteq> t) (a / b))"

fun f64_lt :: "f64 \<Rightarrow> f64 \<Rightarrow> bool" where
  "f64_lt (Inf s) (Inf t) \<longleftrightarrow> s \<and> \<not> t"
| "f64_lt (Inf s) (Fin t b) \<longleftrightarrow> s"
| "f64_lt (Fin s a) (Inf t) \<longleftrightarrow> \<not> t"
| "f64_lt (Fin s a) (Fin t b) \<longleftrightarrow> sgnd s a < sgnd t b"
| "f64_lt x y \<longleftrightarrow> False"

text \<open>The operator \<open>==\<close>: a NaN differs from everything, the two zeros are equal.\<close>

fun f64_eq :: "f64 \<Rightarrow> f64 \<Rightarrow> bool" where
  "f64_eq (Inf s) (Inf t) \<longleftrightarrow> s = t"
| "f64_eq (Fin s a) (Fin t b) \<longleftrightarrow> sgnd s a = sgnd t b"
| "f64_eq x y \<longleftrightarrow> False"

fun f64_isnan :: "f64 \<Rightarrow> bool" where
  "f64_isnan NaN \<longleftrightarrow> True"
| "f64_isnan x \<longleftrightarrow> False"

fun f64_isinf :: "f64 \<Rightarrow> bool" where
  "f64_isinf (Inf s) \<longleftrightarrow> True"
| "f64_isinf x \<longleftrightarrow> False"

text \<open>Truncation to an integer, \<open>None\<close> where the value is not a number.\<close>

fun f64_trunc :: "f64 \<Rightarrow> int option" where
  "f64_trunc (Fin s a) = Some (if s then - \<lfloor>a\<rfloor> else \<lfloor>a\<rfloor>)"
| "f64_trunc x = None"

definition f64_to_u64 :: "f64 \<Rightarrow> fault + u64" where
  "f64_to_u64 x = (case f64_trunc x of
     None \<Rightarrow> Inl UB_cast
   | Some n \<Rightarrow> if 0 \<le> n \<and> n < 2 ^ 64 then Inr (of_int n) else Inl UB_cast)"

definition f64_to_u32 :: "f64 \<Rightarrow> fault + u32" where
  "f64_to_u32 x = (case f64_trunc x of
     None \<Rightarrow> Inl UB_cast
   | Some n \<Rightarrow> if 0 \<le> n \<and> n < 2 ^ 32 then Inr (of_int n) else Inl UB_cast)"

definition f64_to_s64 :: "f64 \<Rightarrow> fault + u64" where
  "f64_to_s64 x = (case f64_trunc x of
     None \<Rightarrow> Inl UB_cast
   | Some n \<Rightarrow> if - (2 ^ 63) \<le> n \<and> n < 2 ^ 63 then Inr (of_int n) else Inl UB_cast)"

instantiation f64 :: "{zero, one, plus, minus, uminus, times, inverse, ord}"
begin

definition zero_f64 :: f64 where
  "zero_f64 = Fin False 0"

definition one_f64 :: f64 where
  "one_f64 = Fin False 1"

definition plus_f64 :: "f64 \<Rightarrow> f64 \<Rightarrow> f64" where
  "plus_f64 x y = f64_add x y"

definition uminus_f64 :: "f64 \<Rightarrow> f64" where
  "uminus_f64 x = f64_neg x"

definition minus_f64 :: "f64 \<Rightarrow> f64 \<Rightarrow> f64" where
  "minus_f64 x y = f64_add x (f64_neg y)"

definition times_f64 :: "f64 \<Rightarrow> f64 \<Rightarrow> f64" where
  "times_f64 x y = f64_mul x y"

definition divide_f64 :: "f64 \<Rightarrow> f64 \<Rightarrow> f64" where
  "divide_f64 x y = f64_div x y"

definition inverse_f64 :: "f64 \<Rightarrow> f64" where
  "inverse_f64 x = f64_div (Fin False 1) x"

definition less_f64 :: "f64 \<Rightarrow> f64 \<Rightarrow> bool" where
  "less_f64 x y = f64_lt x y"

definition less_eq_f64 :: "f64 \<Rightarrow> f64 \<Rightarrow> bool" where
  "less_eq_f64 x y = (f64_lt x y \<or> f64_eq x y)"

instance ..

end

lemmas f64_ops = zero_f64_def one_f64_def plus_f64_def uminus_f64_def minus_f64_def times_f64_def
  divide_f64_def inverse_f64_def less_f64_def less_eq_f64_def

subsection \<open>NaN\<close>

lemma NaN_ops [simp]:
  "NaN + x = NaN" "x + NaN = NaN" "NaN - x = NaN" "x - NaN = NaN"
  "NaN * x = NaN" "x * NaN = NaN" "NaN / x = NaN" "x / NaN = NaN"
  "\<not> NaN < x" "\<not> x < NaN" "\<not> NaN \<le> x" "\<not> x \<le> NaN"
  "\<not> f64_eq NaN x" "\<not> f64_eq x NaN"
  by (cases x; simp add: f64_ops)+

subsection \<open>Values without a sign bit\<close>

fun nosign :: "f64 \<Rightarrow> bool" where
  "nosign NaN \<longleftrightarrow> True"
| "nosign (Inf s) \<longleftrightarrow> \<not> s"
| "nosign (Fin s a) \<longleftrightarrow> \<not> s \<and> 0 \<le> a"

lemma nosign_mk [simp]: "\<not> s \<Longrightarrow> 0 \<le> x \<Longrightarrow> nosign (mk s x)"
  by (simp add: mk_def Let_def rnd_nonneg)

lemma nosign_0 [simp]: "nosign 0"
  by (simp add: zero_f64_def)

lemma nosign_fl [simp]: "0 \<le> x \<Longrightarrow> nosign (fl x)"
  by (simp add: fl_def)

lemma nosign_of_int: "0 \<le> n \<Longrightarrow> nosign (f64_of_int n)"
  by (simp add: f64_of_int_def)

lemma nosign_of_u64 [simp]: "nosign (f64_of_u64 w)"
  by (simp add: f64_of_u64_def nosign_of_int)

lemma nosign_of_s64: "0 \<le> sint w \<Longrightarrow> nosign (f64_of_s64 w)"
  by (simp add: f64_of_s64_def nosign_of_int)

lemma nosign_add: "nosign x \<Longrightarrow> nosign y \<Longrightarrow> nosign (x + y)"
  by (cases x; cases y) (auto simp: f64_ops sgnd_def Let_def)

lemma nosign_mult: "nosign x \<Longrightarrow> nosign y \<Longrightarrow> nosign (x * y)"
  by (cases x; cases y) (auto simp: f64_ops)

lemma nosign_divide: "nosign x \<Longrightarrow> nosign y \<Longrightarrow> nosign (x / y)"
  by (cases x; cases y) (auto simp: f64_ops)

lemmas nosign_intros = nosign_add nosign_mult nosign_divide nosign_of_int nosign_of_s64

lemma nosign_not_less_0: "nosign x \<Longrightarrow> \<not> x < 0"
  by (cases x) (auto simp: f64_ops sgnd_def)

lemma f64_less_trans: "(x::f64) < y \<Longrightarrow> y < z \<Longrightarrow> x < z"
  by (cases x; cases y; cases z) (auto simp: f64_ops)

lemma f64_less_irrefl [simp]: "\<not> (x::f64) < x"
  by (cases x) (auto simp: f64_ops)

lemma f64_le_less_trans: "(x::f64) \<le> y \<Longrightarrow> y < z \<Longrightarrow> x < z"
  by (cases x; cases y; cases z) (auto simp: f64_ops)

lemma f64_less_le_trans: "(x::f64) < y \<Longrightarrow> y \<le> z \<Longrightarrow> x < z"
  by (cases x; cases y; cases z) (auto simp: f64_ops)

lemma f64_le_trans: "(x::f64) \<le> y \<Longrightarrow> y \<le> z \<Longrightarrow> x \<le> z"
  by (cases x; cases y; cases z) (auto simp: f64_ops)

lemma f64_not_less: "\<not> f64_isnan x \<Longrightarrow> \<not> f64_isnan y \<Longrightarrow> \<not> x < y \<longleftrightarrow> (y::f64) \<le> x"
  by (cases x; cases y) (auto simp: f64_ops)

lemma f64_le_refl: "\<not> f64_isnan x \<Longrightarrow> (x::f64) \<le> x"
  by (cases x) (auto simp: f64_ops)

lemma f64_less_imp_le: "(x::f64) < y \<Longrightarrow> x \<le> y"
  by (simp add: f64_ops)

subsection \<open>Representable values\<close>

fun f64_wf :: "f64 \<Rightarrow> bool" where
  "f64_wf (Fin s a) \<longleftrightarrow> 0 \<le> a \<and> a < 2 ^ 1024 \<and> rnd a = a"
| "f64_wf x \<longleftrightarrow> True"

lemma f64_wf_mk [simp]: "0 \<le> x \<Longrightarrow> f64_wf (mk s x)"
  by (simp add: mk_def Let_def rnd_nonneg rnd_idem)

lemma f64_wf_0 [simp]: "f64_wf 0"
  by (simp add: zero_f64_def)

lemma f64_wf_conv [simp]:
  "f64_wf (fl x)" "f64_wf (f64_of_int n)" "f64_wf (f64_of_u64 w)" "f64_wf (f64_of_s64 w)"
  by (simp_all add: fl_def f64_of_int_def f64_of_u64_def f64_of_s64_def)

lemma f64_wf_add: "f64_wf (x + y)" if "f64_wf x" "f64_wf y"
  using that by (cases x; cases y) (auto simp: f64_ops Let_def)

lemma f64_wf_mult: "f64_wf (x * y)" if "f64_wf x" "f64_wf y"
  using that by (cases x; cases y) (auto simp: f64_ops)

lemma f64_wf_divide: "f64_wf (x / y)" if "f64_wf x" "f64_wf y"
  using that by (cases x; cases y) (auto simp: f64_ops)

lemma mk_exact: "rnd a = a \<Longrightarrow> a < 2 ^ 1024 \<Longrightarrow> mk s a = Fin s a"
  by (simp add: mk_def)

lemma rnd_1 [simp]: "rnd 1 = 1"
  using rnd_of_int [of 1] by simp

lemma rnd_numeral [simp]: "(numeral k :: int) \<le> 2 ^ 53 \<Longrightarrow> rnd (numeral k) = numeral k"
  using rnd_of_int [of "numeral k"] by simp

lemma mk_numeral [simp]:
  assumes "(numeral k :: int) \<le> 2 ^ 53"
  shows "mk s (numeral k) = Fin s (numeral k)"
proof -
  have "(of_int (numeral k) :: rat) \<le> of_int (2 ^ 53)" using assms by (simp only: of_int_le_iff)
  also have "\<dots> < 2 ^ 1024" by simp
  finally show ?thesis using rnd_numeral [OF assms] by (intro mk_exact) simp_all
qed

lemma mk_0_1 [simp]: "mk s 0 = Fin s 0" "mk s 1 = Fin s 1"
  by (simp_all add: mk_exact)

lemma mk_quarter [simp]: "mk s (1 / 4) = Fin s (1 / 4)"
proof (rule mk_exact)
  show "rnd (1 / 4) = 1 / 4" using rnd_exact [of "1 / 4" 1 "- 2"] by (simp add: power_int_minus)
qed simp

lemma fl_numeral [simp]:
  "(numeral k :: int) \<le> 2 ^ 53 \<Longrightarrow> fl (numeral k) = Fin False (numeral k)"
  "fl 1 = Fin False 1" "fl 0 = Fin False 0" "fl (1 / 4) = Fin False (1 / 4)"
  by (simp_all add: fl_def)

lemma f64_of_int_exact:
  assumes "0 \<le> n" and "n \<le> 2 ^ 53"
  shows "f64_of_int n = Fin False (of_int n)"
proof -
  have "(of_int n :: rat) \<le> of_int (2 ^ 53)" using assms by (simp only: of_int_le_iff)
  also have "\<dots> < 2 ^ 1024" by simp
  finally show ?thesis
    using rnd_of_int [of n] assms by (simp add: f64_of_int_def fl_def mk_exact)
qed

lemma f64_of_u64_exact: "uint w \<le> 2 ^ 53 \<Longrightarrow> f64_of_u64 w = Fin False (of_int (uint w))"
  by (simp only: f64_of_u64_def f64_of_int_exact uint_nonnegative)

lemma f64_of_u64_0 [simp]: "f64_of_u64 0 = 0"
  by (simp add: f64_of_u64_exact zero_f64_def)

text \<open>A \<open>size_t\<close> always converts to a finite value.\<close>

lemma f64_of_int_finite:
  assumes "0 \<le> n" and "n < 2 ^ 64"
  shows "f64_of_int n = Fin False (rnd (of_int n))"
proof -
  have "(of_int n :: rat) \<le> of_int (2 ^ 64)" using assms by (simp only: of_int_le_iff less_imp_le)
  then have "rnd (of_int n) \<le> rnd (of_int (2 ^ 64))" using assms by (intro rnd_mono) simp_all
  also have "rnd (of_int (2 ^ 64)) = 2 powi 64"
    using rnd_exact [of "of_int (2 ^ 64)" 1 64] by simp
  finally have "\<not> 2 ^ 1024 \<le> rnd (of_int n)" by simp
  then show ?thesis using assms by (simp add: f64_of_int_def fl_def mk_def Let_def)
qed

lemma f64_of_u64_finite: "f64_of_u64 w = Fin False (rnd (of_int (uint w)))"
proof -
  have "uint w < 2 ^ 64" using uint_lt2p [of w] by simp
  then show ?thesis
    by (simp only: f64_of_u64_def f64_of_int_finite [OF uint_nonnegative])
qed

subsection \<open>Lower bounds through a rounding\<close>

lemma mk_ge: "mk False x = Fin s r \<Longrightarrow> 0 \<le> c \<Longrightarrow> c \<le> x \<Longrightarrow> rnd c = c \<Longrightarrow> c \<le> r"
  using rnd_mono [of c x] by (auto simp: mk_def Let_def split: if_splits)

lemma mk_sign: "mk s x = Fin t r \<Longrightarrow> t = s"
  by (auto simp: mk_def Let_def split: if_splits)

lemma mk_cases: "mk s x = Inf s \<or> mk s x = Fin s (rnd x)"
  by (simp add: mk_def Let_def)

lemma f64_of_s64_finite: "0 \<le> sint w \<Longrightarrow> f64_of_s64 w = Fin False (rnd (of_int (sint w)))"
proof -
  assume "0 \<le> sint w"
  moreover have "sint w < 2 ^ 64" using sint_u64_range(2) [of w] by simp
  ultimately show ?thesis by (simp only: f64_of_s64_def f64_of_int_finite)
qed

lemma f64_trunc_Some:
  "f64_trunc x = Some n \<longleftrightarrow> (\<exists>s a. x = Fin s a \<and> n = (if s then - \<lfloor>a\<rfloor> else \<lfloor>a\<rfloor>))"
  by (cases x) auto

lemma f64_to_s64_Inr:
  assumes "f64_to_s64 x = Inr v"
  shows "\<exists>s a. x = Fin s a \<and> sint v = (if s then - \<lfloor>a\<rfloor> else \<lfloor>a\<rfloor>)"
proof -
  from assms obtain n where "f64_trunc x = Some n" "- (2 ^ 63) \<le> n" "n < 2 ^ 63" "v = of_int n"
    unfolding f64_to_s64_def by (cases "f64_trunc x"; simp only: option.case) (auto split: if_splits)
  then show ?thesis using f64_trunc_Some sint_of_int_u64 by metis
qed

lemma f64_to_u64_Inr:
  assumes "f64_to_u64 x = Inr v"
  shows "\<exists>s a. x = Fin s a \<and> uint v = (if s then - \<lfloor>a\<rfloor> else \<lfloor>a\<rfloor>)"
proof -
  from assms obtain n where "f64_trunc x = Some n" "0 \<le> n" "n < 2 ^ 64" "v = of_int n"
    unfolding f64_to_u64_def by (cases "f64_trunc x"; simp only: option.case) (auto split: if_splits)
  then show ?thesis using f64_trunc_Some uint_of_int_u64 by metis
qed

lemma f64_to_u32_Inr:
  assumes "f64_to_u32 x = Inr v"
  shows "\<exists>s a. x = Fin s a \<and> uint v = (if s then - \<lfloor>a\<rfloor> else \<lfloor>a\<rfloor>)"
proof -
  from assms obtain n where "f64_trunc x = Some n" "0 \<le> n" "n < 2 ^ 32" "v = of_int n"
    unfolding f64_to_u32_def by (cases "f64_trunc x"; simp only: option.case) (auto split: if_splits)
  then show ?thesis using f64_trunc_Some uint_of_int_u32 by metis
qed

end
