(* ===== verification/Consumer_State.thy ===== *)
theory Consumer_State
  imports Cpp_String Float64
begin

text \<open>
  The globals of \<open>src/consumer/consumer.cpp\<close>, grouped by the lock that guards them, and the
  operations that create a thread's entries and report them. Every vector is indexed by the
  consumer's thread number; the vectors of one group always have the same length, and
  \<open>InitThreadData\<close> extends the three groups one after another, each under its own lock.
\<close>

section \<open>Globals\<close>

record insertion_data =    \<comment> \<open>guarded by \<open>insertion_lock\<close> and \<open>data_locks\<close>\<close>
  data_locks :: nat        \<comment> \<open>the number of per-thread mutexes\<close>
  in_buf_time :: "u64 list"
  in_buffers :: "u64 list"
  out_buf_time :: "u64 list"
  out_buffers :: "u64 list"
  application_ins :: "u64 list"
  userspace_ins :: "u64 list"

record peak_data =         \<comment> \<open>guarded by \<open>peak_lock\<close>\<close>
  n_buffers :: "f64 list"
  n_work :: "f64 list"
  total_work :: "f64 list"
  last_work :: "f64 list"
  last_buffers :: "f64 list"
  last_dummy :: "f64 list"
  max_buffer_work_ratio :: f64
  peak_work_whole_execution :: f64
  max_ratio_owner :: int
  n_io_time :: "f64 list"
  n_injected_time :: "f64 list"
  total_io_time :: "f64 list"
  total_injected_time :: "f64 list"
  max_time_work_ratio :: f64
  max_time_ratio_owner :: int
  n_gen_time :: "f64 list"

record total_data =        \<comment> \<open>guarded by \<open>total_lock\<close>\<close>
  total_fcalls :: "u64 list"
  total_instructions :: "u64 list"
  total_mem_ins :: "u64 list"
  k_ins :: "u64 list"
  k_cycles :: "u64 list"
  u_ins :: "u64 list"
  u_cycles :: "u64 list"
  total_buffers_processed :: "u64 list"
  total_dummy_buffers :: "f64 list"
  real_writes :: "u64 list"
  real_write_latency :: "u64 list"
  dummy_writes :: "u64 list"
  dummy_write_latency :: "u64 list"
  total_recv_wait :: "u64 list"
  total_pin_wait :: "u64 list"

record settings =
  use_compression :: bool
  app_dilation :: bool
  kernel_dilation :: bool
  use_direct_io :: bool
  use_hugepages :: bool
  overhead_balancing :: bool
  control_sleep_sec :: u64

record consumer =
  conf :: settings
  stop :: bool
  control_periods :: u32
  in_size :: u64
  out_size :: u64
  insertion :: insertion_data
  peak :: peak_data
  totals :: total_data

definition settings_init :: settings where
  "settings_init = \<lparr>use_compression = False, app_dilation = True, kernel_dilation = True,
     use_direct_io = True, use_hugepages = True, overhead_balancing = False,
     control_sleep_sec = 30\<rparr>"

definition insertion_init :: insertion_data where
  "insertion_init = \<lparr>data_locks = 0, in_buf_time = [], in_buffers = [], out_buf_time = [],
     out_buffers = [], application_ins = [], userspace_ins = []\<rparr>"

definition peak_init :: peak_data where
  "peak_init = \<lparr>n_buffers = [], n_work = [], total_work = [], last_work = [], last_buffers = [],
     last_dummy = [], max_buffer_work_ratio = 0, peak_work_whole_execution = 0,
     max_ratio_owner = - 1, n_io_time = [], n_injected_time = [], total_io_time = [],
     total_injected_time = [], max_time_work_ratio = 0, max_time_ratio_owner = - 1,
     n_gen_time = []\<rparr>"

definition totals_init :: total_data where
  "totals_init = \<lparr>total_fcalls = [], total_instructions = [], total_mem_ins = [], k_ins = [],
     k_cycles = [], u_ins = [], u_cycles = [], total_buffers_processed = [],
     total_dummy_buffers = [], real_writes = [], real_write_latency = [], dummy_writes = [],
     dummy_write_latency = [], total_recv_wait = [], total_pin_wait = []\<rparr>"

definition consumer_init :: "settings \<Rightarrow> consumer" where
  "consumer_init cf = \<lparr>conf = cf, stop = False, control_periods = 0, in_size = 0, out_size = 0,
     insertion = insertion_init, peak = peak_init, totals = totals_init\<rparr>"

section \<open>Creating a thread's entries\<close>

definition init_insertion :: "insertion_data \<Rightarrow> insertion_data" where
  "init_insertion d = d\<lparr>in_buf_time := in_buf_time d @ [0], in_buffers := in_buffers d @ [0],
     out_buf_time := out_buf_time d @ [0], out_buffers := out_buffers d @ [0],
     application_ins := application_ins d @ [0], userspace_ins := userspace_ins d @ [0],
     data_locks := data_locks d + 1\<rparr>"

definition init_peak :: "peak_data \<Rightarrow> peak_data" where
  "init_peak p = p\<lparr>n_buffers := n_buffers p @ [0], n_work := n_work p @ [0],
     last_work := last_work p @ [0], last_buffers := last_buffers p @ [0],
     last_dummy := last_dummy p @ [0], total_work := total_work p @ [0],
     n_io_time := n_io_time p @ [0], n_injected_time := n_injected_time p @ [0],
     total_io_time := total_io_time p @ [0], total_injected_time := total_injected_time p @ [0],
     n_gen_time := n_gen_time p @ [0]\<rparr>"

definition init_totals :: "total_data \<Rightarrow> total_data" where
  "init_totals t = t\<lparr>total_fcalls := total_fcalls t @ [0],
     total_instructions := total_instructions t @ [0], total_mem_ins := total_mem_ins t @ [0],
     k_ins := k_ins t @ [0], k_cycles := k_cycles t @ [0], u_ins := u_ins t @ [0],
     u_cycles := u_cycles t @ [0], total_buffers_processed := total_buffers_processed t @ [0],
     total_dummy_buffers := total_dummy_buffers t @ [0], real_writes := real_writes t @ [0],
     real_write_latency := real_write_latency t @ [0], dummy_writes := dummy_writes t @ [0],
     dummy_write_latency := dummy_write_latency t @ [0],
     total_recv_wait := total_recv_wait t @ [0], total_pin_wait := total_pin_wait t @ [0]\<rparr>"

definition InitThreadData :: "consumer \<Rightarrow> consumer" where
  "InitThreadData c =
     (let c = c\<lparr>insertion := init_insertion (insertion c)\<rparr>;
          c = c\<lparr>peak := init_peak (peak c)\<rparr>
      in c\<lparr>totals := init_totals (totals c)\<rparr>)"

subsection \<open>The vectors of a group have one length\<close>

definition insertion_len :: "nat \<Rightarrow> insertion_data \<Rightarrow> bool" where
  "insertion_len n d \<longleftrightarrow> data_locks d = n \<and> length (in_buf_time d) = n \<and> length (in_buffers d) = n
     \<and> length (out_buf_time d) = n \<and> length (out_buffers d) = n \<and> length (application_ins d) = n
     \<and> length (userspace_ins d) = n"

definition peak_len :: "nat \<Rightarrow> peak_data \<Rightarrow> bool" where
  "peak_len n p \<longleftrightarrow> length (n_buffers p) = n \<and> length (n_work p) = n \<and> length (total_work p) = n
     \<and> length (last_work p) = n \<and> length (last_buffers p) = n \<and> length (last_dummy p) = n
     \<and> length (n_io_time p) = n \<and> length (n_injected_time p) = n \<and> length (total_io_time p) = n
     \<and> length (total_injected_time p) = n \<and> length (n_gen_time p) = n"

definition totals_len :: "nat \<Rightarrow> total_data \<Rightarrow> bool" where
  "totals_len n t \<longleftrightarrow> length (total_fcalls t) = n \<and> length (total_instructions t) = n
     \<and> length (total_mem_ins t) = n \<and> length (k_ins t) = n \<and> length (k_cycles t) = n
     \<and> length (u_ins t) = n \<and> length (u_cycles t) = n \<and> length (total_buffers_processed t) = n
     \<and> length (total_dummy_buffers t) = n \<and> length (real_writes t) = n
     \<and> length (real_write_latency t) = n \<and> length (dummy_writes t) = n
     \<and> length (dummy_write_latency t) = n \<and> length (total_recv_wait t) = n
     \<and> length (total_pin_wait t) = n"

lemma init_len:
  "insertion_len n d \<Longrightarrow> insertion_len (Suc n) (init_insertion d)"
  "peak_len n p \<Longrightarrow> peak_len (Suc n) (init_peak p)"
  "totals_len n t \<Longrightarrow> totals_len (Suc n) (init_totals t)"
  by (simp_all add: insertion_len_def init_insertion_def peak_len_def init_peak_def
      totals_len_def init_totals_def)

lemma initial_len [simp]:
  "insertion_len 0 insertion_init" "peak_len 0 peak_init" "totals_len 0 totals_init"
  by (simp_all add: insertion_len_def insertion_init_def peak_len_def peak_init_def
      totals_len_def totals_init_def)

definition consumer_len :: "nat \<Rightarrow> consumer \<Rightarrow> bool" where
  "consumer_len n c \<longleftrightarrow> insertion_len n (insertion c) \<and> peak_len n (peak c) \<and> totals_len n (totals c)"

lemma consumer_len_init: "consumer_len 0 (consumer_init cf)"
  by (simp add: consumer_len_def consumer_init_def)

lemma consumer_len_InitThreadData:
  "consumer_len n c \<Longrightarrow> consumer_len (Suc n) (InitThreadData c)"
  by (simp add: consumer_len_def InitThreadData_def init_len Let_def)

section \<open>Which threads take part in balancing\<close>

definition skip_overhead_balancing :: "f64 \<Rightarrow> f64 \<Rightarrow> u64 \<Rightarrow> bool" where
  "skip_overhead_balancing t_work buf_work_ratio fcalls \<longleftrightarrow>
     f64_isnan buf_work_ratio \<or> f64_isinf buf_work_ratio \<or> fcalls = 0"

lemma not_skip_finite:
  "\<not> skip_overhead_balancing t r fc \<Longrightarrow> \<exists>s a. r = Fin s a"
  by (cases r) (auto simp: skip_overhead_balancing_def)

section \<open>The per-thread report\<close>

datatype log_value = LogU u64 | LogD f64

text \<open>The labelled values that \<open>LogThreadStats\<close> writes, in the order it writes them.\<close>

definition LogThreadStats :: "consumer \<Rightarrow> nat \<Rightarrow> (string \<times> log_value) list" where
  "LogThreadStats c i =
     (let t = totals c;
          t_io_time = total_io_time (peak c) ! i;
          t_injected_time = total_injected_time (peak c) ! i;
          processed = total_buffers_processed t ! i;
          total = f64_of_u64 processed + total_dummy_buffers t ! i;
          e9 = fl 1000000000;
          app_ins_e9 = f64_of_u64 (total_instructions t ! i) / e9;
          k_ins_e9 = f64_of_u64 (k_ins t ! i) / e9;
          k_cycles_e9 = f64_of_u64 (k_cycles t ! i) / e9;
          u_ins_e9 = f64_of_u64 (u_ins t ! i) / e9;
          u_cycles_e9 = f64_of_u64 (u_cycles t ! i) / e9;
          fcalls = total_fcalls t ! i
      in [(''wrote'', LogD total), (''data'', LogU processed),
          (''dummy'', LogD (total_dummy_buffers t ! i)),
          (''total fcalls'', LogU fcalls),
          (''ins/fcall'', LogD (f64_of_u64 (total_instructions t ! i) / f64_of_u64 fcalls)),
          (''real BW'', LogD (f64_of_u64 (real_writes t ! i) / f64_of_u64 (real_write_latency t ! i))),
          (''dummy BW'',
             LogD (f64_of_u64 (dummy_writes t ! i) / f64_of_u64 (dummy_write_latency t ! i))),
          (''mem ratio'',
             LogD (f64_of_u64 (total_mem_ins t ! i) / f64_of_u64 (total_instructions t ! i))),
          (''app ins (1e9)'', LogD app_ins_e9), (''kernel ins (1e9)'', LogD k_ins_e9),
          (''app ins/buffer (1e9)'', LogD (app_ins_e9 / f64_of_u64 processed)),
          (''kernel ins/buffer (1e9)'', LogD (k_ins_e9 / f64_of_u64 processed)),
          (''kernel ipc'', LogD (k_ins_e9 / k_cycles_e9)),
          (''app ipc'', LogD (u_ins_e9 / u_cycles_e9)),
          (''work/buffer'', LogD (total_work (peak c) ! i / f64_of_u64 processed)),
          (''total_io_time_us'', LogD t_io_time),
          (''total_injected_time_us'', LogD t_injected_time),
          (''time/buffer'', LogD ((t_io_time + t_injected_time) / f64_of_u64 processed)),
          (''recv_wait_s'', LogD (f64_of_u64 (total_recv_wait t ! i) / fl 1000000)),
          (''pin_wait_s'', LogD (f64_of_u64 (total_pin_wait t ! i) / fl 1000000))])"

end
