(* ===== verification/Control.thy ===== *)
theory Control
  imports Consumer_State
begin

text \<open>
  \<open>ControlThread\<close> of \<open>src/consumer/consumer.cpp\<close>: one period of the control loop. Under
  \<open>peak_lock\<close> it visits every thread, resets the idle ones, elects the highest buffer-to-work
  ratio and its owner, decays the windows by a quarter and computes the slowdown; it then scales
  by the instrumentation cost and writes the kernel dilation factor. Reads of the other groups'
  vectors are checked (\<open>vec_at\<close>), since those groups are not locked here.
\<close>

section \<open>One period\<close>

record control_state =
  ctl_dilation_factor :: u32
  ctl_max_slowdown :: f64
  ctl_instrumentation_cost :: f64

definition control_state_init :: control_state where
  "control_state_init =
     \<lparr>ctl_dilation_factor = 1000, ctl_max_slowdown = 1, ctl_instrumentation_cost = 1\<rparr>"

definition SCALE_FACTOR :: f64 where
  "SCALE_FACTOR = fl (1 / 4)"

text \<open>The variables of the loop: the guarded data, the new maxima and the slowdown.\<close>

record balance_acc =
  acc_peak :: peak_data
  new_max_ratio :: f64
  new_max_time_ratio :: f64
  acc_slowdown :: f64

definition idle :: "peak_data \<Rightarrow> nat \<Rightarrow> bool" where
  "idle p i \<longleftrightarrow> f64_eq (n_work p ! i) (last_work p ! i)"

definition reset_windows :: "nat \<Rightarrow> peak_data \<Rightarrow> peak_data" where
  "reset_windows i p = p\<lparr>n_buffers := (n_buffers p)[i := 0], n_work := (n_work p)[i := 0],
     n_io_time := (n_io_time p)[i := 0], n_injected_time := (n_injected_time p)[i := 0],
     n_gen_time := (n_gen_time p)[i := 0]\<rparr>"

definition scale_windows :: "nat \<Rightarrow> peak_data \<Rightarrow> peak_data" where
  "scale_windows i p = p\<lparr>n_buffers := (n_buffers p)[i := n_buffers p ! i * SCALE_FACTOR],
     n_work := (n_work p)[i := n_work p ! i * SCALE_FACTOR],
     n_io_time := (n_io_time p)[i := n_io_time p ! i * SCALE_FACTOR],
     n_injected_time := (n_injected_time p)[i := n_injected_time p ! i * SCALE_FACTOR],
     n_gen_time := (n_gen_time p)[i := n_gen_time p ! i * SCALE_FACTOR]\<rparr>"

definition remember_last :: "nat \<Rightarrow> peak_data \<Rightarrow> peak_data" where
  "remember_last i p = p\<lparr>last_work := (last_work p)[i := n_work p ! i],
     last_buffers := (last_buffers p)[i := n_buffers p ! i]\<rparr>"

definition buf_work_ratio :: "peak_data \<Rightarrow> nat \<Rightarrow> f64" where
  "buf_work_ratio p i = n_buffers p ! i / n_work p ! i"

definition time_work_ratio :: "peak_data \<Rightarrow> nat \<Rightarrow> f64" where
  "time_work_ratio p i = (n_io_time p ! i + n_injected_time p ! i) / n_work p ! i"

definition elect_ratio :: "nat \<Rightarrow> u64 \<Rightarrow> balance_acc \<Rightarrow> balance_acc" where
  "elect_ratio i fcalls a =
     (let p = acc_peak a; r = buf_work_ratio p i
      in if \<not> skip_overhead_balancing (total_work p ! i) r fcalls \<and> new_max_ratio a < r
         then a\<lparr>new_max_ratio := r, acc_peak := p\<lparr>max_ratio_owner := int i\<rparr>\<rparr>
         else a)"

definition elect_time_ratio :: "nat \<Rightarrow> u64 \<Rightarrow> balance_acc \<Rightarrow> balance_acc" where
  "elect_time_ratio i fcalls a =
     (let p = acc_peak a; r = time_work_ratio p i
      in if \<not> skip_overhead_balancing (total_work p ! i) (buf_work_ratio p i) fcalls
            \<and> new_max_time_ratio a < r
         then a\<lparr>new_max_time_ratio := r, acc_peak := p\<lparr>max_time_ratio_owner := int i\<rparr>\<rparr>
         else a)"

definition note_slowdown :: "nat \<Rightarrow> balance_acc \<Rightarrow> balance_acc" where
  "note_slowdown i a =
     (let p = acc_peak a in
      if 0 < n_gen_time p ! i
      then (let slowdown = (n_gen_time p ! i + n_io_time p ! i) / n_gen_time p ! i
            in if acc_slowdown a < slowdown then a\<lparr>acc_slowdown := slowdown\<rparr> else a)
      else a)"

definition balance_thread :: "u64 list \<Rightarrow> nat \<Rightarrow> balance_acc \<Rightarrow> fault + balance_acc" where
  "balance_thread fcalls i a =
     (if idle (acc_peak a) i
      then Inr (a\<lparr>acc_peak := remember_last i (reset_windows i (acc_peak a))\<rparr>)
      else case vec_at fcalls i of
        Inl e \<Rightarrow> Inl e
      | Inr fc \<Rightarrow>
         (let a = note_slowdown i (elect_time_ratio i fc (elect_ratio i fc a))
          in Inr (a\<lparr>acc_peak := remember_last i (scale_windows i (acc_peak a))\<rparr>)))"

definition balance_threads :: "u64 list \<Rightarrow> peak_data \<Rightarrow> fault + balance_acc" where
  "balance_threads fcalls p =
     fold_fault (balance_thread fcalls) [0..<length (n_buffers p)]
       \<lparr>acc_peak = p, new_max_ratio = 0, new_max_time_ratio = 0, acc_slowdown = 1\<rparr>"

text \<open>The cost of instrumentation: user-mode instructions per application instruction.\<close>

definition instrumentation_cost :: "insertion_data \<Rightarrow> f64" where
  "instrumentation_cost d =
     (let total_app_ins = sum_list (application_ins d);
          total_user_ins = sum_list (userspace_ins d)
      in if 0 < total_app_ins then f64_of_u64 total_user_ins / f64_of_u64 total_app_ins else 1)"

definition dilation_of :: "f64 \<Rightarrow> f64 \<Rightarrow> fault + u32" where
  "dilation_of cost slowdown =
     (case f64_to_u32 (cost * slowdown * fl 1000) of
        Inl e \<Rightarrow> Inl e
      | Inr f \<Rightarrow> Inr (max f 1000))"

text \<open>The entry of one thread in the \<open>SHADOW_TIME\<close> log line: it reads the wait totals.\<close>

definition shadow_entry :: "consumer \<Rightarrow> nat \<Rightarrow> fault + (nat \<times> f64 list \<times> u64 \<times> u64)" where
  "shadow_entry c i =
     (let p = peak c;
          bwr = (if 0 < n_work p ! i then n_buffers p ! i / n_work p ! i else 0);
          twr = (if 0 < n_work p ! i then (n_io_time p ! i + n_injected_time p ! i) / n_work p ! i
                 else 0)
      in case vec_at (total_recv_wait (totals c)) i of
           Inl e \<Rightarrow> Inl e
         | Inr recv_w \<Rightarrow> (case vec_at (total_pin_wait (totals c)) i of
             Inl e \<Rightarrow> Inl e
           | Inr pin_w \<Rightarrow>
               Inr (i, [bwr, twr, total_io_time p ! i, total_injected_time p ! i], recv_w, pin_w)))"

definition shadow_log :: "consumer \<Rightarrow> fault + (nat \<times> f64 list \<times> u64 \<times> u64) list" where
  "shadow_log c =
     (if 1 < length (n_buffers (peak c))
      then map_fault (shadow_entry c) [0..<length (n_buffers (peak c))] else Inr [])"

definition control_balance :: "control_state \<Rightarrow> consumer \<Rightarrow> fault + (control_state \<times> consumer)" where
  "control_balance cs c =
     (case balance_threads (total_fcalls (totals c)) (peak c) of
        Inl e \<Rightarrow> Inl e
      | Inr a \<Rightarrow>
         (let p = (acc_peak a)\<lparr>max_buffer_work_ratio := new_max_ratio a,
                               max_time_work_ratio := new_max_time_ratio a\<rparr>;
              c' = c\<lparr>peak := p\<rparr>;
              cost = instrumentation_cost (insertion c)
          in case dilation_of cost (acc_slowdown a) of
               Inl e \<Rightarrow> Inl e
             | Inr f \<Rightarrow> (case shadow_log c' of
                 Inl e \<Rightarrow> Inl e
               | Inr lg \<Rightarrow>
                   Inr (\<lparr>ctl_dilation_factor = f, ctl_max_slowdown = acc_slowdown a,
                         ctl_instrumentation_cost = cost\<rparr>, c'))))"

text \<open>A whole period: what is written to the sysfs knob is part of the result (\<open>None\<close> when
  kernel dilation is off or the file does not open).\<close>

definition control_period ::
    "bool \<Rightarrow> control_state \<Rightarrow> consumer \<Rightarrow> fault + (control_state \<times> consumer \<times> string option)" where
  "control_period knob_opens cs c =
     (case (if overhead_balancing (conf c) then control_balance cs c else Inr (cs, c)) of
        Inl e \<Rightarrow> Inl e
      | Inr (cs', c') \<Rightarrow>
         Inr (cs', c'\<lparr>control_periods := control_periods c' + 1\<rparr>,
              if kernel_dilation (conf c') \<and> knob_opens
              then Some (dec_nat (unat (ctl_dilation_factor cs')) @ newline) else None))"

section \<open>The control thread\<close>

text \<open>A round of the loop: what the other threads do to the globals while it sleeps, and whether the
  knob can be opened. The result has the lines written to the knob.\<close>

record control_env =
  ct_others :: "consumer \<Rightarrow> consumer"
  ct_knob_opens :: bool

fun ControlThread ::
    "control_env list \<Rightarrow> control_state \<Rightarrow> consumer \<Rightarrow> fault + string list \<times> control_state \<times> consumer" where
  "ControlThread [] cs c = Inr ([], cs, c)"
| "ControlThread (e # es) cs c =
     (if stop c then Inr ([], cs, c)
      else (case control_period (ct_knob_opens e) cs (ct_others e c) of
              Inl er \<Rightarrow> Inl er
            | Inr (cs, c, line) \<Rightarrow>
               (case ControlThread es cs c of
                  Inl er \<Rightarrow> Inl er
                | Inr (lines, r) \<Rightarrow> Inr ((case line of None \<Rightarrow> [] | Some l \<Rightarrow> [l]) @ lines, r))))"

section \<open>The effect on one thread\<close>

text \<open>What a period does to the entries of thread \<open>i\<close>: an idle thread's windows are cleared, the
  others decay; the totals are kept.\<close>

definition window :: "bool \<Rightarrow> f64 \<Rightarrow> f64" where
  "window idle_thread x = (if idle_thread then 0 else x * SCALE_FACTOR)"

definition balanced_at :: "nat \<Rightarrow> peak_data \<Rightarrow> peak_data \<Rightarrow> bool" where
  "balanced_at i p p' \<longleftrightarrow>
     n_work p' ! i = window (idle p i) (n_work p ! i)
     \<and> n_buffers p' ! i = window (idle p i) (n_buffers p ! i)
     \<and> n_io_time p' ! i = window (idle p i) (n_io_time p ! i)
     \<and> n_injected_time p' ! i = window (idle p i) (n_injected_time p ! i)
     \<and> n_gen_time p' ! i = window (idle p i) (n_gen_time p ! i)
     \<and> last_work p' ! i = n_work p' ! i \<and> last_buffers p' ! i = n_buffers p' ! i"

definition same_at :: "nat \<Rightarrow> peak_data \<Rightarrow> peak_data \<Rightarrow> bool" where
  "same_at i p p' \<longleftrightarrow>
     n_work p' ! i = n_work p ! i \<and> n_buffers p' ! i = n_buffers p ! i
     \<and> n_io_time p' ! i = n_io_time p ! i \<and> n_injected_time p' ! i = n_injected_time p ! i
     \<and> n_gen_time p' ! i = n_gen_time p ! i \<and> last_work p' ! i = last_work p ! i
     \<and> last_buffers p' ! i = last_buffers p ! i"

definition same_totals :: "peak_data \<Rightarrow> peak_data \<Rightarrow> bool" where
  "same_totals p p' \<longleftrightarrow> total_work p' = total_work p \<and> total_io_time p' = total_io_time p
     \<and> total_injected_time p' = total_injected_time p
     \<and> peak_work_whole_execution p' = peak_work_whole_execution p"

text \<open>The elections touch only the owners; then the windows are reset or scaled.\<close>

lemma elect_ratio_peak:
  "\<exists>ow. acc_peak (elect_ratio i fc a) = (acc_peak a)\<lparr>max_ratio_owner := ow\<rparr>"
proof (cases "acc_peak (elect_ratio i fc a) = acc_peak a")
  case True
  then show ?thesis by (intro exI [of _ "max_ratio_owner (acc_peak a)"]) simp
next
  case False
  then show ?thesis
    by (intro exI [of _ "int i"]) (auto simp: elect_ratio_def Let_def split: if_splits)
qed

lemma elect_time_ratio_peak:
  "\<exists>ow. acc_peak (elect_time_ratio i fc a) = (acc_peak a)\<lparr>max_time_ratio_owner := ow\<rparr>"
proof (cases "acc_peak (elect_time_ratio i fc a) = acc_peak a")
  case True
  then show ?thesis by (intro exI [of _ "max_time_ratio_owner (acc_peak a)"]) simp
next
  case False
  then show ?thesis
    by (intro exI [of _ "int i"]) (auto simp: elect_time_ratio_def Let_def split: if_splits)
qed

lemma note_slowdown_peak [simp]: "acc_peak (note_slowdown i a) = acc_peak a"
  by (simp add: note_slowdown_def Let_def)

lemma balance_thread_peak:
  assumes "balance_thread fcalls i a = Inr a'"
  obtains "idle (acc_peak a) i" and "acc_peak a' = remember_last i (reset_windows i (acc_peak a))"
  | ow tow where "\<not> idle (acc_peak a) i"
      and "acc_peak a' = remember_last i (scale_windows i
             ((acc_peak a)\<lparr>max_ratio_owner := ow, max_time_ratio_owner := tow\<rparr>))"
proof (cases "idle (acc_peak a) i")
  case True
  with assms have "acc_peak a' = remember_last i (reset_windows i (acc_peak a))"
    by (auto simp: balance_thread_def)
  with True that(1) show ?thesis by blast
next
  case False
  with assms obtain fc where
    a': "acc_peak a' = remember_last i (scale_windows i
           (acc_peak (elect_time_ratio i fc (elect_ratio i fc a))))"
    by (auto simp: balance_thread_def Let_def split: sum.splits)
  obtain ow where ow: "acc_peak (elect_ratio i fc a) = (acc_peak a)\<lparr>max_ratio_owner := ow\<rparr>"
    using elect_ratio_peak by blast
  obtain tow where "acc_peak (elect_time_ratio i fc (elect_ratio i fc a))
      = (acc_peak (elect_ratio i fc a))\<lparr>max_time_ratio_owner := tow\<rparr>"
    using elect_time_ratio_peak by blast
  with a' ow False that(2) show ?thesis by simp
qed

lemmas window_defs = remember_last_def reset_windows_def scale_windows_def

lemma balance_thread_len:
  "balance_thread fcalls i a = Inr a' \<Longrightarrow> peak_len n (acc_peak a) \<Longrightarrow> peak_len n (acc_peak a')"
  by (erule balance_thread_peak) (simp_all add: window_defs peak_len_def)

lemma balance_thread_here:
  "balance_thread fcalls i a = Inr a' \<Longrightarrow> peak_len n (acc_peak a) \<Longrightarrow> i < n \<Longrightarrow>
     balanced_at i (acc_peak a) (acc_peak a')"
  by (erule balance_thread_peak)
    (simp_all add: window_defs peak_len_def balanced_at_def window_def)

lemma balance_thread_elsewhere:
  "balance_thread fcalls i a = Inr a' \<Longrightarrow> i \<noteq> j \<Longrightarrow> same_at j (acc_peak a) (acc_peak a')"
  by (erule balance_thread_peak) (simp_all add: window_defs same_at_def)

lemma balance_thread_totals:
  "balance_thread fcalls i a = Inr a' \<Longrightarrow> same_totals (acc_peak a) (acc_peak a')"
  by (erule balance_thread_peak) (simp_all add: window_defs same_totals_def)

lemma same_at_trans: "same_at i p q \<Longrightarrow> same_at i q r \<Longrightarrow> same_at i p r"
  by (simp add: same_at_def)

lemma same_balanced: "same_at i p q \<Longrightarrow> balanced_at i q r \<Longrightarrow> balanced_at i p r"
  by (simp add: same_at_def balanced_at_def idle_def)

lemma balanced_same: "balanced_at i p q \<Longrightarrow> same_at i q r \<Longrightarrow> balanced_at i p r"
  by (simp add: same_at_def balanced_at_def)

lemma balance_loop_effect:
  assumes "fold_fault (balance_thread fcalls) is a = Inr a'" and "distinct is"
    and "\<forall>i\<in>set is. i < n" and "peak_len n (acc_peak a)"
  shows "peak_len n (acc_peak a')"
    and "i \<in> set is \<Longrightarrow> balanced_at i (acc_peak a) (acc_peak a')"
    and "i \<notin> set is \<Longrightarrow> same_at i (acc_peak a) (acc_peak a')"
    and "same_totals (acc_peak a) (acc_peak a')"
proof -
  have "peak_len n (acc_peak a') \<and> same_totals (acc_peak a) (acc_peak a')
      \<and> (\<forall>i. (i \<in> set is \<longrightarrow> balanced_at i (acc_peak a) (acc_peak a'))
             \<and> (i \<notin> set is \<longrightarrow> same_at i (acc_peak a) (acc_peak a')))"
    using assms
  proof (induction "is" arbitrary: a)
    case Nil
    then show ?case by (simp add: same_at_def same_totals_def)
  next
    case (Cons k ks)
    then obtain a1 where a1: "balance_thread fcalls k a = Inr a1"
        "fold_fault (balance_thread fcalls) ks a1 = Inr a'"
      by (auto split: sum.splits)
    have len: "peak_len n (acc_peak a1)" and k: "k < n"
      using balance_thread_len [OF a1(1)] Cons.prems by auto
    have IH: "peak_len n (acc_peak a') \<and> same_totals (acc_peak a1) (acc_peak a')
      \<and> (\<forall>i. (i \<in> set ks \<longrightarrow> balanced_at i (acc_peak a1) (acc_peak a'))
             \<and> (i \<notin> set ks \<longrightarrow> same_at i (acc_peak a1) (acc_peak a')))"
      using Cons.IH [OF a1(2)] Cons.prems len by simp
    have here: "balanced_at k (acc_peak a) (acc_peak a1)"
      using balance_thread_here [OF a1(1) _ k] Cons.prems by simp
    have "k \<notin> set ks" using Cons.prems by simp
    moreover have "\<And>i. i \<noteq> k \<Longrightarrow> same_at i (acc_peak a) (acc_peak a1)"
      using balance_thread_elsewhere [OF a1(1)] by metis
    moreover have "same_totals (acc_peak a) (acc_peak a1)"
      by (rule balance_thread_totals [OF a1(1)])
    moreover have "balanced_at i (acc_peak a) (acc_peak a')" if "i \<in> set (k # ks)" for i
    proof (cases "i = k")
      case True
      with IH here \<open>k \<notin> set ks\<close> balanced_same show ?thesis by blast
    next
      case False
      with IH that calculation(2) same_balanced show ?thesis by (metis set_ConsD)
    qed
    moreover have "same_at i (acc_peak a) (acc_peak a')" if "i \<notin> set (k # ks)" for i
      using that IH calculation(2) same_at_trans by (metis list.set_intros)
    ultimately show ?case using IH by (simp add: same_totals_def)
  qed
  then show "peak_len n (acc_peak a')"
    and "i \<in> set is \<Longrightarrow> balanced_at i (acc_peak a) (acc_peak a')"
    and "i \<notin> set is \<Longrightarrow> same_at i (acc_peak a) (acc_peak a')"
    and "same_totals (acc_peak a) (acc_peak a')"
    by blast+
qed

lemma balance_threads_effect:
  assumes "balance_threads fcalls p = Inr a" and "peak_len n p"
  shows "peak_len n (acc_peak a)"
    and "i < n \<Longrightarrow> balanced_at i p (acc_peak a)"
    and "same_totals p (acc_peak a)"
proof -
  have n: "length (n_buffers p) = n" using assms(2) by (simp add: peak_len_def)
  note f = assms(1)[unfolded balance_threads_def n]
  show "peak_len n (acc_peak a)"
    using balance_loop_effect(1) [OF f] assms(2) by simp
  show "i < n \<Longrightarrow> balanced_at i p (acc_peak a)"
    using balance_loop_effect(2) [OF f, of n i] assms(2) by simp
  show "same_totals p (acc_peak a)"
    using balance_loop_effect(4) [OF f, of n] assms(2) by simp
qed

section \<open>The election\<close>

definition eligible :: "u64 list \<Rightarrow> peak_data \<Rightarrow> nat \<Rightarrow> bool" where
  "eligible fcalls p i \<longleftrightarrow> \<not> idle p i
     \<and> \<not> skip_overhead_balancing (total_work p ! i) (buf_work_ratio p i) (fcalls ! i)"

text \<open>The running maximum and owner: above every eligible ratio seen, and attained.\<close>

definition elected :: "u64 list \<Rightarrow> peak_data \<Rightarrow> nat set \<Rightarrow> f64 \<Rightarrow> int \<Rightarrow> int \<Rightarrow> bool" where
  "elected fcalls p I r owner0 owner \<longleftrightarrow>
     \<not> f64_isnan r \<and> \<not> r < 0
     \<and> (\<forall>i\<in>I. eligible fcalls p i \<longrightarrow> \<not> r < buf_work_ratio p i)
     \<and> (r = 0 \<and> owner = owner0 \<or>
        (\<exists>i\<in>I. eligible fcalls p i \<and> r = buf_work_ratio p i \<and> owner = int i \<and> 0 < r))"

lemma f64_not_less_trans:
  "\<not> f64_isnan x \<Longrightarrow> \<not> (x::f64) < z \<Longrightarrow> x < y \<Longrightarrow> \<not> y < z"
  using f64_less_trans by blast

lemma elect_ratio_cases:
  "if \<not> skip_overhead_balancing (total_work (acc_peak a) ! i) (buf_work_ratio (acc_peak a) i) fc
      \<and> new_max_ratio a < buf_work_ratio (acc_peak a) i
   then new_max_ratio (elect_ratio i fc a) = buf_work_ratio (acc_peak a) i
        \<and> max_ratio_owner (acc_peak (elect_ratio i fc a)) = int i
   else new_max_ratio (elect_ratio i fc a) = new_max_ratio a
        \<and> max_ratio_owner (acc_peak (elect_ratio i fc a)) = max_ratio_owner (acc_peak a)"
  by (simp add: elect_ratio_def Let_def)

lemma later_steps_keep_ratio [simp]:
  "new_max_ratio (elect_time_ratio i fc a) = new_max_ratio a"
  "max_ratio_owner (acc_peak (elect_time_ratio i fc a)) = max_ratio_owner (acc_peak a)"
  "new_max_ratio (note_slowdown i a) = new_max_ratio a"
  "max_ratio_owner (remember_last i p) = max_ratio_owner p"
  "max_ratio_owner (reset_windows i p) = max_ratio_owner p"
  "max_ratio_owner (scale_windows i p) = max_ratio_owner p"
  by (simp_all add: elect_time_ratio_def note_slowdown_def window_defs Let_def)

lemma balance_thread_ratio:
  "balance_thread fcalls i a = Inr a' \<Longrightarrow>
     (if eligible fcalls (acc_peak a) i \<and> new_max_ratio a < buf_work_ratio (acc_peak a) i
      then new_max_ratio a' = buf_work_ratio (acc_peak a) i \<and> max_ratio_owner (acc_peak a') = int i
      else new_max_ratio a' = new_max_ratio a
           \<and> max_ratio_owner (acc_peak a') = max_ratio_owner (acc_peak a))"
  using elect_ratio_cases [of a i "fcalls ! i"]
  by (auto simp: balance_thread_def eligible_def vec_at_def Let_def split: if_splits)

lemma same_at_eligible:
  "same_at i p q \<Longrightarrow> same_totals p q \<Longrightarrow> eligible fcalls q i = eligible fcalls p i"
  "same_at i p q \<Longrightarrow> buf_work_ratio q i = buf_work_ratio p i"
  by (simp_all add: same_at_def same_totals_def eligible_def idle_def buf_work_ratio_def)

lemma less_not_NaN: "(x::f64) < y \<Longrightarrow> \<not> f64_isnan y"
  by (cases y) auto

lemma elected_step:
  assumes "elected fcalls p I r owner0 owner" and "i \<notin> I"
    and "if eligible fcalls p i \<and> r < buf_work_ratio p i
         then r' = buf_work_ratio p i \<and> owner' = int i else r' = r \<and> owner' = owner"
  shows "elected fcalls p (insert i I) r' owner0 owner'"
proof (cases "eligible fcalls p i \<and> r < buf_work_ratio p i")
  case True
  then have r': "r' = buf_work_ratio p i" "owner' = int i" "r < r'" using assms(3) by simp_all
  have "\<not> r < 0" "\<not> f64_isnan r" using assms(1) by (simp_all add: elected_def)
  then have "0 \<le> r" by (cases r) (auto simp: f64_ops)
  then have "0 < r'" using r'(3) by (rule f64_le_less_trans)
  moreover have "\<not> r' < 0" using \<open>0 < r'\<close> f64_less_trans [of r' 0 r'] by auto
  moreover have "\<forall>j\<in>I. eligible fcalls p j \<longrightarrow> \<not> r' < buf_work_ratio p j"
    using assms(1) f64_less_trans [OF r'(3)] by (auto simp: elected_def)
  ultimately show ?thesis
    using r' True less_not_NaN [OF r'(3)] by (auto simp: elected_def)
next
  case False
  then show ?thesis using assms by (auto simp: elected_def)
qed

lemma balance_loop_elected:
  assumes "fold_fault (balance_thread fcalls) is a = Inr a'" and "distinct is"
    and "set is \<inter> I = {}" and "\<forall>i\<in>set is. same_at i p (acc_peak a)" and "same_totals p (acc_peak a)"
    and "elected fcalls p I (new_max_ratio a) owner0 (max_ratio_owner (acc_peak a))"
  shows "elected fcalls p (I \<union> set is) (new_max_ratio a') owner0 (max_ratio_owner (acc_peak a'))"
  using assms
proof (induction "is" arbitrary: a I)
  case (Cons k ks)
  then obtain a1 where a1: "balance_thread fcalls k a = Inr a1"
      "fold_fault (balance_thread fcalls) ks a1 = Inr a'"
    by (auto split: sum.splits)
  have k: "same_at k p (acc_peak a)" "k \<notin> I" "k \<notin> set ks" using Cons.prems by auto
  have "elected fcalls p (insert k I) (new_max_ratio a1) owner0 (max_ratio_owner (acc_peak a1))"
    using balance_thread_ratio [OF a1(1)] same_at_eligible [OF k(1)] Cons.prems(5)
    by (intro elected_step [OF Cons.prems(6) k(2)]) simp
  moreover have "\<forall>i\<in>set ks. same_at i p (acc_peak a1)"
    using Cons.prems(4) k(3) balance_thread_elsewhere [OF a1(1)] same_at_trans by (metis list.set_intros(2))
  moreover have "same_totals p (acc_peak a1)"
    using Cons.prems(5) balance_thread_totals [OF a1(1)] by (simp add: same_totals_def)
  ultimately have "elected fcalls p (insert k I \<union> set ks) (new_max_ratio a') owner0
      (max_ratio_owner (acc_peak a'))"
    using Cons.prems k by (intro Cons.IH [OF a1(2)]) auto
  then show ?case by simp
qed simp

lemma balance_threads_elected:
  assumes "balance_threads fcalls p = Inr a"
  shows "elected fcalls p {..<length (n_buffers p)} (new_max_ratio a) (max_ratio_owner p)
    (max_ratio_owner (acc_peak a))"
proof -
  have "elected fcalls p ({} \<union> set [0..<length (n_buffers p)]) (new_max_ratio a) (max_ratio_owner p)
      (max_ratio_owner (acc_peak a))"
    using assms[unfolded balance_threads_def]
    by (rule balance_loop_elected)
      (auto simp: same_at_def same_totals_def elected_def zero_f64_def f64_ops)
  then show ?thesis by (simp add: atLeast0LessThan)
qed

section \<open>What a period guarantees\<close>

lemma control_balance_Inr:
  assumes "control_balance cs c = Inr (cs', c')"
  obtains a where "balance_threads (total_fcalls (totals c)) (peak c) = Inr a"
    and "c' = c\<lparr>peak := (acc_peak a)\<lparr>max_buffer_work_ratio := new_max_ratio a,
                                     max_time_work_ratio := new_max_time_ratio a\<rparr>\<rparr>"
    and "dilation_of (instrumentation_cost (insertion c)) (acc_slowdown a)
      = Inr (ctl_dilation_factor cs')"
    and "ctl_max_slowdown cs' = acc_slowdown a"
    and "ctl_instrumentation_cost cs' = instrumentation_cost (insertion c)"
  using assms by (auto simp: control_balance_def Let_def split: sum.splits)

lemma dilation_of_ge: "dilation_of cost sl = Inr f \<Longrightarrow> 1000 \<le> f"
  by (auto simp: dilation_of_def split: sum.splits)

text \<open>An example with two threads: the first produces twice as many buffers per unit of work.\<close>

definition example_settings :: settings where
  "example_settings = settings_init\<lparr>overhead_balancing := True\<rparr>"

definition example_consumer :: consumer where
  "example_consumer =
     (let c = InitThreadData (InitThreadData (consumer_init example_settings))
      in c\<lparr>peak := (peak c)\<lparr>n_buffers := [fl 8, fl 4], n_work := [fl 4, fl 4]\<rparr>,
           totals := (totals c)\<lparr>total_fcalls := [3, 5]\<rparr>\<rparr>)"

definition example_balanced :: consumer where
  "example_balanced = example_consumer\<lparr>peak := (peak example_consumer)\<lparr>n_buffers := [fl 2, fl 1],
     n_work := [fl 1, fl 1], last_work := [fl 1, fl 1], last_buffers := [fl 2, fl 1],
     max_buffer_work_ratio := fl 2, max_ratio_owner := 0\<rparr>\<rparr>"

lemmas example_defs = example_consumer_def example_balanced_def example_settings_def
  settings_init_def consumer_init_def insertion_init_def peak_init_def totals_init_def
  InitThreadData_def init_insertion_def init_peak_def init_totals_def

lemmas control_eval = control_balance_def balance_threads_def balance_thread_def idle_def elect_ratio_def
      elect_time_ratio_def note_slowdown_def window_defs SCALE_FACTOR_def buf_work_ratio_def
      time_work_ratio_def skip_overhead_balancing_def instrumentation_cost_def dilation_of_def
      shadow_log_def shadow_entry_def vec_at_def f64_ops f64_to_u32_def
      control_state_init_def Let_def

lemma control_balance_example:
  "control_balance control_state_init example_consumer = Inr (control_state_init, example_balanced)"
  by (simp add: control_eval example_defs)

lemma control_period_factor:
  assumes "control_period knob_opens cs c = Inr (cs', c', line)" and "1000 \<le> ctl_dilation_factor cs"
  shows "1000 \<le> ctl_dilation_factor cs'"
  using assms dilation_of_ge
  by (auto simp: control_period_def elim!: control_balance_Inr split: sum.splits if_splits)

lemma control_period_line:
  assumes "control_period knob_opens cs c = Inr (cs', c', Some line)"
    and "1000 \<le> ctl_dilation_factor cs"
  shows "1000 \<le> ctl_dilation_factor cs'
    \<and> line = dec_nat (unat (ctl_dilation_factor cs')) @ newline \<and> kernel_dilation (conf c') \<and> knob_opens"
  using control_period_factor [OF assms] assms(1)
  by (auto simp: control_period_def split: sum.splits if_splits)

text \<open>C5. The factor that a control period writes to the kernel knob is never below 1000, so the
  consumer only ever slows the kernel's sleeps down; the line written is that number and a newline.\<close>

theorem knob_never_below_1000:
  assumes "control_period knob_opens cs c = Inr (cs', c', Some line)"
    and "1000 \<le> ctl_dilation_factor cs"
  shows "1000 \<le> ctl_dilation_factor cs'
    \<and> line = dec_nat (unat (ctl_dilation_factor cs')) @ newline \<and> kernel_dilation (conf c') \<and> knob_opens"
  by (rule control_period_line [OF assms])

lemma control_period_example:
  "control_period True control_state_init example_consumer
     = Inr (control_state_init, example_balanced\<lparr>control_periods := 1\<rparr>, Some (dec_nat 1000 @ newline))"
proof -
  have "overhead_balancing (conf example_consumer)" "kernel_dilation (conf example_balanced)"
    "control_periods example_balanced = 0"
    by (simp_all add: example_defs Let_def)
  then show ?thesis
    by (simp add: control_period_def control_balance_example)
      (simp add: control_state_init_def)
qed

lemma knob_never_below_1000_witness:
  "1000 \<le> ctl_dilation_factor control_state_init
   \<and> dec_nat 1000 @ newline = dec_nat (unat (ctl_dilation_factor control_state_init)) @ newline
   \<and> kernel_dilation (conf (example_balanced\<lparr>control_periods := 1\<rparr>)) \<and> True"
  by (rule knob_never_below_1000 [OF control_period_example]) (simp add: control_state_init_def)

text \<open>C6. A period elects the highest buffers-per-work ratio among the threads that take part:
  afterwards no such thread's ratio exceeds the maximum, and the maximum is the owner's ratio
  unless no thread has a positive one.\<close>

theorem control_elects_highest_ratio:
  assumes "control_balance cs c = Inr (cs', c')"
  defines "p \<equiv> peak c" and "fcalls \<equiv> total_fcalls (totals c)"
  shows "(\<forall>i<length (n_buffers p). \<not> eligible fcalls p i
            \<or> \<not> max_buffer_work_ratio (peak c') < buf_work_ratio p i)
    \<and> (max_buffer_work_ratio (peak c') = 0 \<and> max_ratio_owner (peak c') = max_ratio_owner p
       \<or> (\<exists>i<length (n_buffers p). eligible fcalls p i \<and> max_ratio_owner (peak c') = int i
            \<and> max_buffer_work_ratio (peak c') = buf_work_ratio p i
            \<and> 0 < max_buffer_work_ratio (peak c')))"
  using assms(1)
proof (rule control_balance_Inr)
  fix a
  assume "balance_threads (total_fcalls (totals c)) (peak c) = Inr a"
    and c': "c' = c\<lparr>peak := (acc_peak a)\<lparr>max_buffer_work_ratio := new_max_ratio a,
      max_time_work_ratio := new_max_time_ratio a\<rparr>\<rparr>"
  then have "elected fcalls p {..<length (n_buffers p)} (new_max_ratio a) (max_ratio_owner p)
      (max_ratio_owner (acc_peak a))"
    unfolding p_def fcalls_def by (intro balance_threads_elected)
  then show ?thesis by (auto simp: elected_def c')
qed

lemma control_elects_highest_ratio_witness:
  "max_buffer_work_ratio (peak example_balanced) = fl 2 \<and> max_ratio_owner (peak example_balanced) = 0
   \<and> \<not> max_buffer_work_ratio (peak example_balanced) < buf_work_ratio (peak example_consumer) 0"
proof -
  have "length (n_buffers (peak example_consumer)) = 2" "total_fcalls (totals example_consumer) = [3, 5]"
    by (simp_all add: example_defs Let_def)
  moreover have "eligible [3, 5] (peak example_consumer) 0"
    by (simp add: eligible_def idle_def buf_work_ratio_def skip_overhead_balancing_def f64_ops
        example_defs Let_def)
  ultimately show ?thesis
    using control_elects_highest_ratio [OF control_balance_example] by (simp add: example_balanced_def)
qed

text \<open>C18. A period resets the windows of every thread that did no work since the last one, decays
  the windows of every other thread to a quarter, remembers the new values for the next
  comparison, and leaves the whole-execution totals alone.\<close>

theorem control_windows:
  assumes "control_balance cs c = Inr (cs', c')" and "peak_len n (peak c)"
  shows "(\<forall>i. i \<ge> n \<or> balanced_at i (peak c) (peak c')) \<and> same_totals (peak c) (peak c')
    \<and> peak_len n (peak c') \<and> totals c' = totals c \<and> insertion c' = insertion c \<and> conf c' = conf c"
  using assms(1)
proof (rule control_balance_Inr)
  fix a
  assume "balance_threads (total_fcalls (totals c)) (peak c) = Inr a"
    and c': "c' = c\<lparr>peak := (acc_peak a)\<lparr>max_buffer_work_ratio := new_max_ratio a,
      max_time_work_ratio := new_max_time_ratio a\<rparr>\<rparr>"
  note eff = balance_threads_effect [OF this(1) assms(2)]
  have "i \<ge> n \<or> balanced_at i (peak c) (acc_peak a)" for i
    using eff(2) [of i] by (cases "i < n") simp_all
  then show ?thesis
    using eff(1,3) by (simp add: c' balanced_at_def same_totals_def peak_len_def)
qed

lemma control_windows_witness:
  "balanced_at 0 (peak example_consumer) (peak example_balanced)
   \<and> peak_len 2 (peak example_balanced)"
proof -
  have "peak_len 2 (peak example_consumer)"
    by (simp add: peak_len_def example_defs Let_def)
  from control_windows [OF control_balance_example this] show ?thesis
    by (metis numeral_le_iff not_numeral_le_zero)
qed

text \<open>C30. A thread whose work has become NaN is lost to the balancing for good: no period counts
  it as idle, so its windows are never reset, its work stays NaN, and it is never eligible.\<close>

theorem NaN_work_is_permanent:
  assumes "control_balance cs c = Inr (cs', c')" and "peak_len n (peak c)" and "i < n"
    and "n_work (peak c) ! i = NaN"
  shows "n_work (peak c') ! i = NaN \<and> \<not> idle (peak c') i
    \<and> \<not> eligible (total_fcalls (totals c)) (peak c) i
    \<and> \<not> eligible (total_fcalls (totals c')) (peak c') i"
proof -
  have "balanced_at i (peak c) (peak c')"
    using control_windows [OF assms(1,2)] assms(3) by (metis not_le)
  moreover have "\<not> idle p i \<and> \<not> eligible fc p i" if "n_work p ! i = NaN" for p fc
    using that
    by (simp add: idle_def eligible_def buf_work_ratio_def skip_overhead_balancing_def f64_ops)
      (cases "n_buffers p ! i"; simp)
  ultimately show ?thesis using assms(4) by (simp add: balanced_at_def window_def)
qed

lemma NaN_work_is_permanent_witness:
  defines "c \<equiv> example_consumer\<lparr>peak := (peak example_consumer)\<lparr>n_work := [fl 4, NaN]\<rparr>\<rparr>"
    and "c' \<equiv> example_balanced\<lparr>peak := (peak example_balanced)\<lparr>n_work := [fl 1, NaN],
      last_work := [fl 1, NaN]\<rparr>\<rparr>"
  shows "n_work (peak c') ! 1 = NaN \<and> \<not> idle (peak c') 1
    \<and> \<not> eligible (total_fcalls (totals c)) (peak c) 1
    \<and> \<not> eligible (total_fcalls (totals c')) (peak c') 1"
proof (rule NaN_work_is_permanent)
  show "control_balance control_state_init c = Inr (control_state_init, c')"
    by (simp add: c_def c'_def control_eval example_defs)
  show "peak_len 2 (peak c)"
    by (simp add: c_def peak_len_def example_defs Let_def)
  show "n_work (peak c) ! 1 = NaN" by (simp add: c_def)
qed simp

text \<open>\<open>InitThreadData\<close> extends the three groups of vectors in separate critical sections: a
  control period that runs after the second and before the third, with a thread already there,
  indexes the wait totals out of range when it logs the period.\<close>

lemma shadow_log_races_with_InitThreadData:
  assumes "consumer_len n c" and "1 \<le> n"
  shows "shadow_log (c\<lparr>peak := init_peak (peak c)\<rparr>) = Inl UB_index
    \<and> (\<exists>lg. shadow_log (c\<lparr>peak := init_peak (peak c), totals := init_totals (totals c)\<rparr>) = Inr lg)"

proof -
  let ?c = "c\<lparr>peak := init_peak (peak c)\<rparr>" and ?c' = "InitThreadData c"
  have len: "length (n_buffers (init_peak (peak c))) = Suc n"
    "length (total_recv_wait (totals c)) = n" "length (total_pin_wait (totals c)) = n"
    using assms(1) by (simp_all add: consumer_len_def peak_len_def totals_len_def init_peak_def)
  have "map_fault (shadow_entry ?c) [0..<Suc n] = Inl UB_index"
  proof (rule map_fault_only)
    show "n \<in> set [0..<Suc n]" by simp
    show "shadow_entry ?c n = Inl UB_index"
      by (simp add: shadow_entry_def vec_at_def len Let_def)
    show "e = UB_index" if "shadow_entry ?c j = Inl e" for j e
      using that by (auto simp: shadow_entry_def vec_at_def Let_def split: if_splits)
  qed
  moreover have "\<exists>lg. map_fault (shadow_entry
      (c\<lparr>peak := init_peak (peak c), totals := init_totals (totals c)\<rparr>)) [0..<Suc n] = Inr lg"
    by (rule map_fault_Inr) (auto simp: shadow_entry_def vec_at_def len init_totals_def Let_def)
  ultimately show ?thesis using assms(2) by (simp add: shadow_log_def len del: upt_Suc)
qed

lemma shadow_log_races_with_InitThreadData_witness:
  "shadow_log (example_consumer\<lparr>peak := init_peak (peak example_consumer)\<rparr>) = Inl UB_index"
proof -
  have "consumer_len 2 example_consumer"
    by (simp add: consumer_len_def insertion_len_def peak_len_def totals_len_def example_defs Let_def)
  then show ?thesis by (simp add: shadow_log_races_with_InitThreadData)
qed

section \<open>All periods\<close>

lemma ControlThread_lines:
  "ControlThread es cs c = Inr (lines, r) \<Longrightarrow> 1000 \<le> ctl_dilation_factor cs \<Longrightarrow> line \<in> set lines \<Longrightarrow>
     \<exists>f. 1000 \<le> f \<and> line = dec_nat (unat (f :: u32)) @ newline"
proof (induction es cs c arbitrary: lines rule: ControlThread.induct)
  case (2 e es cs c)
  then have go: "\<not> stop c" by (auto split: if_splits)
  with 2(2) obtain cs1 c1 l lines1 where p: "control_period (ct_knob_opens e) cs (ct_others e c) = Inr (cs1, c1, l)"
    and rest: "ControlThread es cs1 c1 = Inr (lines1, r)"
    and lines: "lines = (case l of None \<Rightarrow> [] | Some x \<Rightarrow> [x]) @ lines1"
    by (auto split: sum.splits)
  have f: "1000 \<le> ctl_dilation_factor cs1" by (rule control_period_factor [OF p 2(3)])
  show ?case
  proof (cases "line \<in> set lines1")
    case True
    from 2(1) [OF go p refl refl rest f True] show ?thesis .
  next
    case False
    then have "l = Some line" using 2(4) lines by (auto split: option.splits)
    with control_period_line [OF p [unfolded this] 2(3)] f show ?thesis by blast
  qed
qed simp

end
