(* ===== verification/Cpu_Monitor.thy ===== *)
theory Cpu_Monitor
  imports Float64 "HOL-Library.Multiset"
begin

text \<open>
  \<open>src/consumer/cpu_monitor.cpp\<close>: the four \<open>perf_event\<close> counters the consumer keeps per traced
  thread. The system calls are the environment: \<open>perf_event_open\<close> is a function of the call
  number and its arguments, each \<open>read\<close> is a \<open>perf_read\<close> value, and the calls a constructor or
  destructor makes on descriptors are recorded as a list of \<open>fd_event\<close>s.

  The contract of a counter that is read as differences is the locale \<open>delta_counter\<close>:
  the differences telescope, so nothing is counted twice and nothing is lost.
\<close>

section \<open>Counters read as differences\<close>

text \<open>Calling \<open>step\<close> on the successive readings; \<open>None\<close> when a call returns no counts.\<close>

fun delta_run :: "('m \<Rightarrow> 'r \<Rightarrow> (u64 \<times> 'm) option) \<Rightarrow> 'm \<Rightarrow> 'r list \<Rightarrow> (u64 list \<times> 'm) option" where
  "delta_run step m [] = Some ([], m)"
| "delta_run step m (r # rs) =
     (case step m r of
        None \<Rightarrow> None
      | Some (d, m') \<Rightarrow> (case delta_run step m' rs of
            None \<Rightarrow> None
          | Some (ds, m'') \<Rightarrow> Some (d # ds, m'')))"

fun all_exact ::
    "('m \<Rightarrow> 'r \<Rightarrow> bool) \<Rightarrow> ('m \<Rightarrow> 'r \<Rightarrow> (u64 \<times> 'm) option) \<Rightarrow> 'm \<Rightarrow> 'r list \<Rightarrow> bool" where
  "all_exact exact step m [] \<longleftrightarrow> True"
| "all_exact exact step m (r # rs) \<longleftrightarrow>
     exact m r \<and> (case step m r of None \<Rightarrow> True | Some (d, m') \<Rightarrow> all_exact exact step m' rs)"

locale delta_counter =
  fixes step :: "'m \<Rightarrow> 'r \<Rightarrow> (u64 \<times> 'm) option"
    and last_value :: "'m \<Rightarrow> u64"
    and reading :: "'r \<Rightarrow> u64"
    and exact :: "'m \<Rightarrow> 'r \<Rightarrow> bool"
  assumes step_delta: "exact m r \<Longrightarrow> step m r = Some (d, m') \<Longrightarrow> d = reading r - last_value m"
    and step_last: "step m r = Some (d, m') \<Longrightarrow> last_value m' = reading r"
begin

lemma telescopes:
  "delta_run step m rs = Some (ds, m') \<Longrightarrow> all_exact exact step m rs \<Longrightarrow>
     sum_list ds = last_value m' - last_value m"
proof (induction rs arbitrary: m ds)
  case (Cons r rs)
  then obtain d m1 ds1 where s: "step m r = Some (d, m1)" "delta_run step m1 rs = Some (ds1, m')"
      "ds = d # ds1"
    by (auto split: option.splits)
  with Cons.prems have "exact m r" "all_exact exact step m1 rs" by auto
  with s have "sum_list ds1 = last_value m' - last_value m1" "d = reading r - last_value m"
    using Cons.IH step_delta by blast+
  with s(3) step_last [OF s(1)] show ?case by simp
qed simp

lemma last_is_last_reading:
  "delta_run step m rs = Some (ds, m') \<Longrightarrow> rs \<noteq> [] \<Longrightarrow> last_value m' = reading (last rs)"
proof (induction rs arbitrary: m ds)
  case (Cons r rs)
  then obtain d m1 ds1 where s: "step m r = Some (d, m1)" "delta_run step m1 rs = Some (ds1, m')"
    by (auto split: option.splits)
  show ?case
  proof (cases "rs = []")
    case True
    with s step_last show ?thesis by auto
  next
    case False
    with Cons.IH [OF s(2)] show ?thesis by simp
  qed
qed simp

end

section \<open>Descriptors\<close>

datatype perf_type = PERF_TYPE_HARDWARE | PERF_TYPE_HW_CACHE

datatype perf_config =
    PERF_COUNT_HW_INSTRUCTIONS
  | PERF_COUNT_HW_CPU_CYCLES
  | L1D_READ_ACCESS    \<comment> \<open>the \<open>L1D\<close>, \<open>OP_READ\<close>, \<open>RESULT_ACCESS\<close> encoding\<close>
  | L1D_WRITE_ACCESS

record perf_event_attr =
  attr_type :: perf_type
  attr_config :: perf_config
  attr_disabled :: bool
  exclude_user :: bool
  exclude_kernel :: bool
  exclude_hv :: bool
  format_times :: bool   \<comment> \<open>\<open>TOTAL_TIME_ENABLED\<close> and \<open>TOTAL_TIME_RUNNING\<close> are requested\<close>

datatype fd_event = Opened int | Closed int | Reset_counter int | Enabled int

text \<open>\<open>perf_event_open(attr, tid, -1, -1, 0)\<close>, by call number: a descriptor, or -1.\<close>

type_synonym perf_open = "nat \<Rightarrow> perf_event_attr \<Rightarrow> int \<Rightarrow> int"

definition cpu_attr :: "perf_type \<Rightarrow> perf_config \<Rightarrow> bool \<Rightarrow> perf_event_attr" where
  "cpu_attr type config kernel_only =
     \<lparr>attr_type = type, attr_config = config, attr_disabled = True,
      exclude_user = kernel_only, exclude_kernel = (\<not> kernel_only), exclude_hv = True,
      format_times = True\<rparr>"

text \<open>The counters set up in order, until one fails (\<open>setup_counter\<close> throws): the descriptors
  opened so far and whether all calls succeeded.\<close>

fun setup_counters :: "perf_open \<Rightarrow> int \<Rightarrow> nat \<Rightarrow> perf_event_attr list \<Rightarrow> int list \<times> bool" where
  "setup_counters peo tid k [] = ([], True)"
| "setup_counters peo tid k (a # as) =
     (let fd = peo k a tid in
      if fd = - 1 then ([], False)
      else case setup_counters peo tid (Suc k) as of (fds, ok) \<Rightarrow> (fd # fds, ok))"

definition enable_counters :: "int list \<Rightarrow> fd_event list" where
  "enable_counters fds = concat (map (\<lambda>fd. [Reset_counter fd, Enabled fd]) fds)"

definition close_counters :: "int list \<Rightarrow> fd_event list" where
  "close_counters fds = map Closed (filter (\<lambda>fd. fd \<noteq> - 1) fds)"

text \<open>The descriptors a trace leaves open.\<close>

fun open_fds :: "fd_event list \<Rightarrow> int list \<Rightarrow> int list" where
  "open_fds [] fds = fds"
| "open_fds (Opened fd # es) fds = open_fds es (fd # fds)"
| "open_fds (Closed fd # es) fds = open_fds es (remove1 fd fds)"
| "open_fds (_ # es) fds = open_fds es fds"

lemma setup_counters_length:
  "setup_counters peo tid k as = (fds, True) \<Longrightarrow> length fds = length as"
  by (induction as arbitrary: k fds) (auto simp: Let_def split: if_splits prod.splits)

lemma setup_counters_valid:
  "setup_counters peo tid k as = (fds, ok) \<Longrightarrow> - 1 \<notin> set fds"
  by (induction as arbitrary: k fds) (auto simp: Let_def split: if_splits prod.splits)

lemma open_fds_append: "open_fds (xs @ ys) fds = open_fds ys (open_fds xs fds)"
  by (induction xs fds rule: open_fds.induct) auto

lemma open_fds_Opened: "open_fds (map Opened fds) acc = rev fds @ acc"
  by (induction fds arbitrary: acc) auto

lemma open_fds_enable: "open_fds (enable_counters fds) acc = acc"
  by (induction fds) (auto simp: enable_counters_def)

lemma open_fds_close:
  "mset acc = mset fds + mset rest \<Longrightarrow> mset (open_fds (map Closed fds) acc) = mset rest"
proof (induction fds arbitrary: acc)
  case (Cons fd fds)
  then have "mset (remove1 fd acc) = mset fds + mset rest" by simp
  with Cons.IH show ?case by simp
qed simp

section \<open>The monitor\<close>

record perf_read_format =
  p_value :: u64
  time_enabled :: u64
  time_running :: u64
  p_id :: u64

definition perf_read_zero :: perf_read_format where
  "perf_read_zero = \<lparr>p_value = 0, time_enabled = 0, time_running = 0, p_id = 0\<rparr>"

record cpu_counts =
  user_instructions :: u64
  user_cycles :: u64
  kernel_instructions :: u64
  kernel_cycles :: u64
  multiplexing_detected :: bool

record cpu_monitor =
  fd_user_instr :: int
  fd_kernel_instr :: int
  fd_user_cycles :: int
  fd_kernel_cycles :: int
  last_user_instr :: perf_read_format
  last_kernel_instr :: perf_read_format
  last_user_cycles :: perf_read_format
  last_kernel_cycles :: perf_read_format

text \<open>One \<open>read\<close>: whether it returned -1, the \<open>errno\<close> it left, and what is in the buffer after
  it (whatever the stack held, where the call failed).\<close>

record perf_read =
  read_failed :: bool
  read_errno :: int
  read_buf :: perf_read_format

definition ESRCH :: int where
  "ESRCH = 3"

definition gone :: "perf_read \<Rightarrow> bool" where
  "gone r \<longleftrightarrow> read_failed r \<and> read_errno r = ESRCH"

subsection \<open>Constructor and destructor\<close>

definition cpu_attrs :: "perf_event_attr list" where
  "cpu_attrs =
     [cpu_attr PERF_TYPE_HARDWARE PERF_COUNT_HW_INSTRUCTIONS False,
      cpu_attr PERF_TYPE_HARDWARE PERF_COUNT_HW_INSTRUCTIONS True,
      cpu_attr PERF_TYPE_HARDWARE PERF_COUNT_HW_CPU_CYCLES False,
      cpu_attr PERF_TYPE_HARDWARE PERF_COUNT_HW_CPU_CYCLES True]"

definition cpu_monitor_of :: "int list \<Rightarrow> cpu_monitor" where
  "cpu_monitor_of fds =
     \<lparr>fd_user_instr = fds ! 0, fd_kernel_instr = fds ! 1, fd_user_cycles = fds ! 2,
      fd_kernel_cycles = fds ! 3, last_user_instr = perf_read_zero,
      last_kernel_instr = perf_read_zero, last_user_cycles = perf_read_zero,
      last_kernel_cycles = perf_read_zero\<rparr>"

text \<open>\<open>None\<close> for the monitor where the constructor throws; then what was opened is closed.\<close>

definition CPU_Monitor_ctor :: "perf_open \<Rightarrow> int \<Rightarrow> cpu_monitor option \<times> fd_event list" where
  "CPU_Monitor_ctor peo tid =
     (case setup_counters peo tid 0 cpu_attrs of
        (fds, True) \<Rightarrow> (Some (cpu_monitor_of fds), map Opened fds @ enable_counters fds)
      | (fds, False) \<Rightarrow> (None, map Opened fds @ close_counters fds))"

definition CPU_Monitor_dtor :: "cpu_monitor \<Rightarrow> fd_event list" where
  "CPU_Monitor_dtor m =
     close_counters [fd_user_instr m, fd_kernel_instr m, fd_user_cycles m, fd_kernel_cycles m]"

subsection \<open>Reading the deltas\<close>

definition calculate_scaled_delta ::
    "perf_read_format \<Rightarrow> perf_read_format \<Rightarrow> bool \<Rightarrow> fault + (u64 \<times> perf_read_format \<times> bool)" where
  "calculate_scaled_delta current last_read multiplex_flag =
     (let value_delta = p_value current - p_value last_read;
          time_enabled_delta = time_enabled current - time_enabled last_read;
          time_running_delta = time_running current - time_running last_read;
          last' = current
      in if 0 < sint time_running_delta \<and> sint time_running_delta < sint time_enabled_delta
         then (let ratio = f64_of_s64 time_enabled_delta / f64_of_s64 time_running_delta
               in case f64_to_s64 (f64_of_s64 value_delta * ratio) of
                    Inl e \<Rightarrow> Inl e
                  | Inr v \<Rightarrow> Inr (v, last', True))
         else Inr (value_delta, last', multiplex_flag))"

text \<open>The four reads of one call, in the order they are made.\<close>

record cpu_reads =
  r_user_instr :: perf_read
  r_kernel_instr :: perf_read
  r_user_cycles :: perf_read
  r_kernel_cycles :: perf_read

definition get_deltas :: "cpu_monitor \<Rightarrow> cpu_reads \<Rightarrow> fault + (cpu_counts option \<times> cpu_monitor)" where
  "get_deltas m r =
     (if gone (r_user_instr r) then Inr (None, m)
      else if gone (r_kernel_instr r) then Inr (None, m)
      else if gone (r_user_cycles r) then Inr (None, m)
      else if gone (r_kernel_cycles r) then Inr (None, m)
      else
      case calculate_scaled_delta (read_buf (r_user_instr r)) (last_user_instr m) False of
        Inl e \<Rightarrow> Inl e
      | Inr (ui, l_ui, f1) \<Rightarrow>
      (case calculate_scaled_delta (read_buf (r_kernel_instr r)) (last_kernel_instr m) f1 of
        Inl e \<Rightarrow> Inl e
      | Inr (ki, l_ki, f2) \<Rightarrow>
      (case calculate_scaled_delta (read_buf (r_user_cycles r)) (last_user_cycles m) f2 of
        Inl e \<Rightarrow> Inl e
      | Inr (uc, l_uc, f3) \<Rightarrow>
      (case calculate_scaled_delta (read_buf (r_kernel_cycles r)) (last_kernel_cycles m) f3 of
        Inl e \<Rightarrow> Inl e
      | Inr (kc, l_kc, f4) \<Rightarrow>
         Inr (Some \<lparr>user_instructions = ui, user_cycles = uc, kernel_instructions = ki,
                    kernel_cycles = kc, multiplexing_detected = f4\<rparr>,
              m\<lparr>last_user_instr := l_ui, last_kernel_instr := l_ki,
                last_user_cycles := l_uc, last_kernel_cycles := l_kc\<rparr>)))))"

section \<open>What one call returns\<close>

text \<open>The case in which the kernel multiplexed the counter between two reads.\<close>

definition multiplexed :: "perf_read_format \<Rightarrow> perf_read_format \<Rightarrow> bool" where
  "multiplexed current last_read \<longleftrightarrow>
     0 < sint (time_running current - time_running last_read)
     \<and> sint (time_running current - time_running last_read)
         < sint (time_enabled current - time_enabled last_read)"

lemma calculate_scaled_delta_Inr:
  "calculate_scaled_delta c l f = Inr (v, l', f') \<Longrightarrow>
     l' = c \<and> (f' \<longleftrightarrow> f \<or> multiplexed c l) \<and> (\<not> multiplexed c l \<longrightarrow> v = p_value c - p_value l)"
  by (auto simp: calculate_scaled_delta_def multiplexed_def Let_def split: if_splits sum.splits)

lemma calculate_scaled_delta_total:
  "\<not> multiplexed c l \<Longrightarrow> calculate_scaled_delta c l f = Inr (p_value c - p_value l, c, f)"
  by (auto simp: calculate_scaled_delta_def multiplexed_def Let_def)

text \<open>A scaled count is at least the raw count: the counter ran for only part of the time.\<close>

lemma scaled_ge_raw:
  assumes mx: "multiplexed c l" and v: "calculate_scaled_delta c l f = Inr (v, l', f')"
    and d0: "0 \<le> sint (p_value c - p_value l)" and d53: "sint (p_value c - p_value l) \<le> 2 ^ 53"
  shows "sint (p_value c - p_value l) \<le> sint v"
proof -
  define d where "d = sint (p_value c - p_value l)"
  define te where "te = sint (time_enabled c - time_enabled l)"
  define tr where "tr = sint (time_running c - time_running l)"
  have t: "0 < tr" "tr < te" using mx by (simp_all add: multiplexed_def te_def tr_def)
  let ?a = "rnd (of_int te)" and ?b = "rnd (of_int tr)"
  have ab: "1 \<le> ?b" "?b \<le> ?a"
    using t rnd_mono [of 1 "of_int tr"] rnd_mono [of "of_int tr" "of_int te"] by simp_all
  have q1: "1 \<le> ?a / ?b" using ab by (simp add: le_divide_eq)
  have ratio: "f64_of_s64 (time_enabled c - time_enabled l) / f64_of_s64 (time_running c - time_running l)
      = mk False (?a / ?b)"
    using t ab by (simp add: f64_of_s64_finite te_def tr_def f64_ops)
  have val: "f64_of_s64 (p_value c - p_value l) = Fin False (of_int d)"
    using d0 d53 rnd_of_int [of d] by (simp add: f64_of_s64_finite d_def)
  have to: "f64_to_s64 (Fin False (of_int d) * mk False (?a / ?b)) = Inr v"
    using v mx unfolding calculate_scaled_delta_def multiplexed_def ratio val
    by (auto simp: Let_def ratio val split: sum.splits if_splits)
  then obtain s r where sr: "Fin False (of_int d) * mk False (?a / ?b) = Fin s r"
      and sv: "sint v = (if s then - \<lfloor>r\<rfloor> else \<lfloor>r\<rfloor>)"
    using f64_to_s64_Inr by blast
  from sr have m: "mk False (?a / ?b) = Fin False (rnd (?a / ?b))"
    using mk_cases [of False "?a / ?b"] by (auto simp: f64_ops split: if_splits)
  have q2: "1 \<le> rnd (?a / ?b)" using rnd_mono [of 1 "?a / ?b"] q1 by simp
  have sr': "mk False (of_int d * rnd (?a / ?b)) = Fin s r" using sr m by (simp add: f64_ops)
  then have s: "s = False" by (rule mk_sign)
  have "0 \<le> d" "d \<le> 2 ^ 53" using d0 d53 by (simp_all add: d_def)
  then have d: "(0::rat) \<le> of_int d" "rnd (of_int d) = of_int d"
    using rnd_of_int [of d] by simp_all
  have "of_int d \<le> of_int d * rnd (?a / ?b)" using mult_left_mono [OF q2 d(1)] by simp
  then have "of_int d \<le> r" using mk_ge [OF sr'[unfolded s] d(1)] d(2) by blast
  then have "d \<le> \<lfloor>r\<rfloor>" by (simp add: le_floor_iff)
  then show ?thesis using sv s by (simp add: d_def)
qed

lemma get_deltas_Some:
  assumes "get_deltas m r = Inr (Some c, m')"
  shows "last_user_instr m' = read_buf (r_user_instr r)"
    and "last_kernel_instr m' = read_buf (r_kernel_instr r)"
    and "last_user_cycles m' = read_buf (r_user_cycles r)"
    and "last_kernel_cycles m' = read_buf (r_kernel_cycles r)"
    and "\<not> multiplexed (read_buf (r_user_instr r)) (last_user_instr m) \<Longrightarrow>
      user_instructions c = p_value (read_buf (r_user_instr r)) - p_value (last_user_instr m)"
    and "\<not> multiplexed (read_buf (r_kernel_instr r)) (last_kernel_instr m) \<Longrightarrow>
      kernel_instructions c = p_value (read_buf (r_kernel_instr r)) - p_value (last_kernel_instr m)"
    and "\<not> multiplexed (read_buf (r_user_cycles r)) (last_user_cycles m) \<Longrightarrow>
      user_cycles c = p_value (read_buf (r_user_cycles r)) - p_value (last_user_cycles m)"
    and "\<not> multiplexed (read_buf (r_kernel_cycles r)) (last_kernel_cycles m) \<Longrightarrow>
      kernel_cycles c = p_value (read_buf (r_kernel_cycles r)) - p_value (last_kernel_cycles m)"
    and "multiplexing_detected c \<longleftrightarrow>
      multiplexed (read_buf (r_user_instr r)) (last_user_instr m)
      \<or> multiplexed (read_buf (r_kernel_instr r)) (last_kernel_instr m)
      \<or> multiplexed (read_buf (r_user_cycles r)) (last_user_cycles m)
      \<or> multiplexed (read_buf (r_kernel_cycles r)) (last_kernel_cycles m)"
  using assms
  by (auto simp: get_deltas_def split: if_splits sum.splits dest!: calculate_scaled_delta_Inr)

lemma get_deltas_gone:
  "get_deltas m r = Inr (None, m') \<longleftrightarrow>
     m' = m \<and> (gone (r_user_instr r) \<or> gone (r_kernel_instr r) \<or> gone (r_user_cycles r)
               \<or> gone (r_kernel_cycles r))"
  by (auto simp: get_deltas_def split: if_splits sum.splits)

subsection \<open>Each counter is a \<open>delta_counter\<close>\<close>

definition cpu_step :: "(cpu_counts \<Rightarrow> u64) \<Rightarrow> cpu_monitor \<Rightarrow> cpu_reads \<Rightarrow> (u64 \<times> cpu_monitor) option" where
  "cpu_step field m r = (case get_deltas m r of
     Inr (Some c, m') \<Rightarrow> Some (field c, m')
   | _ \<Rightarrow> None)"

definition cpu_exact ::
    "(cpu_reads \<Rightarrow> perf_read) \<Rightarrow> (cpu_monitor \<Rightarrow> perf_read_format) \<Rightarrow> cpu_monitor \<Rightarrow> cpu_reads \<Rightarrow> bool" where
  "cpu_exact rd lst m r \<longleftrightarrow> \<not> multiplexed (read_buf (rd r)) (lst m)"

lemma cpu_step_Some: "cpu_step field m r = Some (d, m') \<longleftrightarrow>
    (\<exists>c. get_deltas m r = Inr (Some c, m') \<and> d = field c)"
  by (auto simp: cpu_step_def split: sum.splits option.splits)

interpretation user_instr: delta_counter "cpu_step user_instructions"
    "\<lambda>m. p_value (last_user_instr m)" "\<lambda>r. p_value (read_buf (r_user_instr r))"
    "cpu_exact r_user_instr last_user_instr"
  by unfold_locales (auto simp: cpu_step_Some cpu_exact_def get_deltas_Some)

interpretation kernel_instr: delta_counter "cpu_step kernel_instructions"
    "\<lambda>m. p_value (last_kernel_instr m)" "\<lambda>r. p_value (read_buf (r_kernel_instr r))"
    "cpu_exact r_kernel_instr last_kernel_instr"
  by unfold_locales (auto simp: cpu_step_Some cpu_exact_def get_deltas_Some)

interpretation user_cyc: delta_counter "cpu_step user_cycles"
    "\<lambda>m. p_value (last_user_cycles m)" "\<lambda>r. p_value (read_buf (r_user_cycles r))"
    "cpu_exact r_user_cycles last_user_cycles"
  by unfold_locales (auto simp: cpu_step_Some cpu_exact_def get_deltas_Some)

interpretation kernel_cyc: delta_counter "cpu_step kernel_cycles"
    "\<lambda>m. p_value (last_kernel_cycles m)" "\<lambda>r. p_value (read_buf (r_kernel_cycles r))"
    "cpu_exact r_kernel_cycles last_kernel_cycles"
  by unfold_locales (auto simp: cpu_step_Some cpu_exact_def get_deltas_Some)

section \<open>What the monitor guarantees\<close>

lemma close_counters_valid: "- 1 \<notin> set fds \<Longrightarrow> close_counters fds = map Closed fds"
  unfolding close_counters_def by (metis (mono_tags, lifting) filter_True)

lemma open_fds_closed:
  assumes "- 1 \<notin> set fds" and "mset fds' = mset fds"
  shows "open_fds (map Opened fds @ enable_counters fds @ close_counters fds') [] = []"
    and "open_fds (map Opened fds @ close_counters fds') [] = []"
proof -
  have "- 1 \<notin> set fds'" using assms by (metis set_mset_mset)
  then have c: "close_counters fds' = map Closed fds'" by (rule close_counters_valid)
  have "mset (open_fds (map Closed fds') (rev fds)) = mset []"
    by (rule open_fds_close) (simp add: assms(2))
  then show "open_fds (map Opened fds @ enable_counters fds @ close_counters fds') [] = []"
    and "open_fds (map Opened fds @ close_counters fds') [] = []"
    by (simp_all add: open_fds_append open_fds_Opened open_fds_enable c)
qed

lemma length_4: "length xs = 4 \<Longrightarrow> xs = [xs ! 0, xs ! 1, xs ! 2, xs ! 3]"
  by (simp add: list_eq_iff_nth_eq numeral_eq_Suc less_Suc_eq)


text \<open>C22. Over any number of calls the four counts add up to the counters' growth: no event is
  counted twice and none is lost, as long as the kernel did not multiplex the counters.\<close>

theorem cpu_counts_telescope:
  assumes "delta_run (cpu_step user_instructions) m rs = Some (ui, m')"
    and "all_exact (cpu_exact r_user_instr last_user_instr) (cpu_step user_instructions) m rs"
    and "delta_run (cpu_step kernel_instructions) m rs = Some (ki, m')"
    and "all_exact (cpu_exact r_kernel_instr last_kernel_instr) (cpu_step kernel_instructions) m rs"
    and "delta_run (cpu_step user_cycles) m rs = Some (uc, m')"
    and "all_exact (cpu_exact r_user_cycles last_user_cycles) (cpu_step user_cycles) m rs"
    and "delta_run (cpu_step kernel_cycles) m rs = Some (kc, m')"
    and "all_exact (cpu_exact r_kernel_cycles last_kernel_cycles) (cpu_step kernel_cycles) m rs"
    and "rs \<noteq> []"
  shows "sum_list ui = p_value (read_buf (r_user_instr (last rs))) - p_value (last_user_instr m)
    \<and> sum_list ki = p_value (read_buf (r_kernel_instr (last rs))) - p_value (last_kernel_instr m)
    \<and> sum_list uc = p_value (read_buf (r_user_cycles (last rs))) - p_value (last_user_cycles m)
    \<and> sum_list kc = p_value (read_buf (r_kernel_cycles (last rs))) - p_value (last_kernel_cycles m)"
  using user_instr.telescopes [OF assms(1,2)] user_instr.last_is_last_reading [OF assms(1,9)]
    kernel_instr.telescopes [OF assms(3,4)] kernel_instr.last_is_last_reading [OF assms(3,9)]
    user_cyc.telescopes [OF assms(5,6)] user_cyc.last_is_last_reading [OF assms(5,9)]
    kernel_cyc.telescopes [OF assms(7,8)] kernel_cyc.last_is_last_reading [OF assms(7,9)]
  by simp

definition example_read :: "u64 \<Rightarrow> perf_read" where
  "example_read n = \<lparr>read_failed = False, read_errno = 0,
     read_buf = \<lparr>p_value = n, time_enabled = n, time_running = n, p_id = 0\<rparr>\<rparr>"

definition example_reads :: "u64 \<Rightarrow> cpu_reads" where
  "example_reads n = \<lparr>r_user_instr = example_read n, r_kernel_instr = example_read (2 * n),
     r_user_cycles = example_read (3 * n), r_kernel_cycles = example_read (4 * n)\<rparr>"

definition example_monitor :: cpu_monitor where
  "example_monitor = cpu_monitor_of [5, 6, 7, 8]"

lemma cpu_counts_telescope_witness:
  "sum_list [10, 15 :: u64] = 25 \<and> sum_list [20, 30 :: u64] = 50 \<and> sum_list [30, 45 :: u64] = 75
   \<and> sum_list [40, 60 :: u64] = 100"
proof -
  let ?m = "example_monitor\<lparr>last_user_instr := read_buf (example_read 25),
    last_kernel_instr := read_buf (example_read 50), last_user_cycles := read_buf (example_read 75),
    last_kernel_cycles := read_buf (example_read 100)\<rparr>"
  let ?rs = "[example_reads 10, example_reads 25]"
  have "sum_list [10, 15 :: u64] = p_value (read_buf (r_user_instr (last ?rs)))
        - p_value (last_user_instr example_monitor)
    \<and> sum_list [20, 30 :: u64] = p_value (read_buf (r_kernel_instr (last ?rs)))
        - p_value (last_kernel_instr example_monitor)
    \<and> sum_list [30, 45 :: u64] = p_value (read_buf (r_user_cycles (last ?rs)))
        - p_value (last_user_cycles example_monitor)
    \<and> sum_list [40, 60 :: u64] = p_value (read_buf (r_kernel_cycles (last ?rs)))
        - p_value (last_kernel_cycles example_monitor)"
    by (rule cpu_counts_telescope [where m' = ?m])
      (simp_all add: cpu_step_def get_deltas_def example_reads_def example_read_def gone_def
        calculate_scaled_delta_def cpu_exact_def multiplexed_def example_monitor_def
        cpu_monitor_of_def perf_read_zero_def)
  then show ?thesis
    by (simp add: example_reads_def example_read_def example_monitor_def cpu_monitor_of_def
        perf_read_zero_def)
qed

text \<open>When the kernel did multiplex a counter, the scaled count it is replaced by is never
  below the raw count.\<close>

lemma multiplexed_never_undercounts:
  assumes "multiplexed c l" and "calculate_scaled_delta c l f = Inr (v, l', f')"
    and "0 \<le> sint (p_value c - p_value l)" and "sint (p_value c - p_value l) \<le> 2 ^ 53"
  shows "sint (p_value c - p_value l) \<le> sint v \<and> f' \<and> l' = c"
  using scaled_ge_raw [OF assms] calculate_scaled_delta_Inr [OF assms(2)] assms(1) by simp

lemma multiplexed_never_undercounts_witness:
  "sint (p_value \<lparr>p_value = 100, time_enabled = 40, time_running = 10, p_id = 0\<rparr>
      - p_value perf_read_zero) \<le> sint (400 :: u64)
   \<and> True \<and> \<lparr>p_value = 100, time_enabled = 40, time_running = 10, p_id = 0\<rparr>
      = \<lparr>p_value = 100, time_enabled = 40, time_running = 10, p_id = 0\<rparr>"
proof (rule multiplexed_never_undercounts)
  let ?c = "\<lparr>p_value = 100, time_enabled = 40, time_running = 10, p_id = 0\<rparr>"
  have "f64_to_s64 (f64_of_s64 100 * (f64_of_s64 40 / f64_of_s64 10)) = Inr 400"
    by (simp add: f64_of_s64_finite f64_ops f64_to_s64_def)
  then show "calculate_scaled_delta ?c perf_read_zero False = Inr (400, ?c, True)"
    by (simp add: calculate_scaled_delta_def perf_read_zero_def)
qed (simp_all add: multiplexed_def perf_read_zero_def)

end
