(* ===== verification/Balance.thy ===== *)
theory Balance
  imports Control Cpu_Monitor
begin

text \<open>
  The overhead-balancing part of the listener in \<open>src/consumer/consumer.cpp\<close>: the critical
  sections that account a buffer, the decision whether and how much to delay a thread, and
  \<open>WriteDummy\<close>, which injects the delay. A listener's view of the clock and of the \<open>stop\<close> flag
  is an argument; a sleep that would need more clock readings than it is given is \<open>None\<close>, and
  \<open>dummy_loop_enough\<close> says how many are enough.
\<close>

section \<open>Metadata of a buffer\<close>

record buf_meta =
  data_size :: u64
  gen_time :: u64
  pin_work :: u64
  ins_exec :: u64
  mem_ins_exec :: u64
  fcalls_exec :: u64
  pin_wait :: u64

text \<open>The seven words received on the size socket.\<close>

definition meta_of :: "u64 list \<Rightarrow> buf_meta" where
  "meta_of recv_data = \<lparr>data_size = recv_data ! 0, gen_time = recv_data ! 1,
     pin_work = recv_data ! 2, ins_exec = recv_data ! 3, mem_ins_exec = recv_data ! 4,
     fcalls_exec = recv_data ! 5, pin_wait = recv_data ! 6\<rparr>"

section \<open>WriteDummy\<close>

text \<open>\<open>while (sleep_time_us > 10000 && !stop)\<close>: each element is the value of \<open>stop\<close> that the guard
  sees and the clock after the sleep of 10 ms.\<close>

fun dummy_loop :: "(bool \<times> u64) list \<Rightarrow> f64 \<Rightarrow> u64 \<Rightarrow> (f64 \<times> u64 \<times> (bool \<times> u64) list) option" where
  "dummy_loop [] sleep_time_us timer =
     (if fl 10000 < sleep_time_us then None else Some (sleep_time_us, timer, []))"
| "dummy_loop ((stopped, now) # ts) sleep_time_us timer =
     (if fl 10000 < sleep_time_us \<and> \<not> stopped
      then dummy_loop ts (sleep_time_us - f64_of_u64 (now - timer)) now
      else Some (sleep_time_us, timer, (stopped, now) # ts))"

record dummy_env =
  wd_start :: u64
  wd_ticks :: "(bool \<times> u64) list"
  wd_end :: u64            \<comment> \<open>the clock after the last, shorter sleep\<close>

definition vec_at_int :: "'a list \<Rightarrow> int \<Rightarrow> fault + 'a" where
  "vec_at_int xs i = (if i < 0 then Inl UB_index else vec_at xs (nat i))"

definition bandwidth :: "total_data \<Rightarrow> int \<Rightarrow> fault + f64" where
  "bandwidth t i =
     (case vec_at_int (real_writes t) i of
        Inl e \<Rightarrow> Inl e
      | Inr w \<Rightarrow> (case vec_at_int (real_write_latency t) i of
          Inl e \<Rightarrow> Inl e
        | Inr l \<Rightarrow> Inr (f64_of_u64 w / f64_of_u64 l)))"

text \<open>The time to sleep: \<open>target_BW\<close> is overwritten by the mean of the two bandwidths.\<close>

definition dummy_sleep_time :: "total_data \<Rightarrow> nat \<Rightarrow> u64 \<Rightarrow> int \<Rightarrow> fault + f64" where
  "dummy_sleep_time t thread_id extra_io ratio_owner =
     (case bandwidth t ratio_owner of
        Inl e \<Rightarrow> Inl e
      | Inr bw_owner \<Rightarrow> (case bandwidth t (int thread_id) of
          Inl e \<Rightarrow> Inl e
        | Inr bw_this \<Rightarrow>
            (let target_BW = (bw_owner + bw_this) / fl 2
             in Inr (f64_of_u64 extra_io / target_BW))))"

definition WriteDummy ::
    "bool \<Rightarrow> nat \<Rightarrow> u64 \<Rightarrow> f64 \<Rightarrow> int \<Rightarrow> dummy_env \<Rightarrow> total_data \<Rightarrow> (fault + u64 \<times> total_data) option" where
  "WriteDummy app_dil thread_id extra_io target_BW ratio_owner env t =
     (if \<not> app_dil then Some (Inr (0, t))
      else case dummy_sleep_time t thread_id extra_io ratio_owner of
        Inl e \<Rightarrow> Some (Inl e)
      | Inr sleep_time_us \<Rightarrow>
         (case dummy_loop (wd_ticks env) sleep_time_us (wd_start env) of
            None \<Rightarrow> None
          | Some _ \<Rightarrow>
             (let dummy_time = wd_end env - wd_start env
              in Some (Inr (dummy_time,
                   t\<lparr>dummy_writes := vec_upd thread_id (\<lambda>x. x + extra_io) (dummy_writes t),
                     dummy_write_latency :=
                       vec_upd thread_id (\<lambda>x. x + dummy_time) (dummy_write_latency t)\<rparr>)))))"

section \<open>The critical sections of the listener\<close>

definition WORK_OFFSET :: u64 where
  "WORK_OFFSET = 60000"

text \<open>\<open>total_buffers_processed[i] += 1.0\<close> goes through a \<open>double\<close>.\<close>

definition account_write :: "nat \<Rightarrow> u64 \<Rightarrow> u64 \<Rightarrow> total_data \<Rightarrow> fault + total_data" where
  "account_write i real_w_time data_sz t =
     (let t = t\<lparr>real_write_latency := vec_upd i (\<lambda>x. x + real_w_time) (real_write_latency t),
                real_writes := vec_upd i (\<lambda>x. x + data_sz) (real_writes t)\<rparr>
      in case f64_to_u64 (f64_of_u64 (total_buffers_processed t ! i) + fl 1) of
           Inl e \<Rightarrow> Inl e
         | Inr n \<Rightarrow> Inr (t\<lparr>total_buffers_processed := vec_upd i (\<lambda>_. n) (total_buffers_processed t)\<rparr>))"

text \<open>The kernel instructions above the tool's own, and the work of one buffer.\<close>

definition listen_work :: "cpu_counts \<Rightarrow> u64 \<Rightarrow> u64 \<times> f64" where
  "listen_work cnt ins =
     (let kernel_ipc = f64_of_s64 (kernel_instructions cnt) / f64_of_s64 (kernel_cycles cnt);
          user_ipc = f64_of_s64 (user_instructions cnt) / f64_of_s64 (user_cycles cnt);
          app_ins = f64_of_u64 ins;
          kernel_ins = kernel_instructions cnt - WORK_OFFSET;
          kernel_ins = (if sint kernel_ins < 0 then 0 else kernel_ins)
      in (kernel_ins, f64_of_s64 kernel_ins + app_ins * (kernel_ipc / user_ipc)))"

definition account_peak :: "nat \<Rightarrow> f64 \<Rightarrow> u64 \<Rightarrow> u64 \<Rightarrow> peak_data \<Rightarrow> peak_data" where
  "account_peak i work real_w_time gen_t p =
     p\<lparr>n_work := vec_upd i (\<lambda>x. x + work) (n_work p),
       n_buffers := vec_upd i (\<lambda>x. x + fl 1) (n_buffers p),
       total_work := vec_upd i (\<lambda>x. x + work) (total_work p),
       n_io_time := vec_upd i (\<lambda>x. x + f64_of_u64 real_w_time) (n_io_time p),
       total_io_time := vec_upd i (\<lambda>x. x + f64_of_u64 real_w_time) (total_io_time p),
       n_gen_time := vec_upd i (\<lambda>x. x + f64_of_u64 gen_t) (n_gen_time p)\<rparr>"

definition account_totals ::
    "nat \<Rightarrow> buf_meta \<Rightarrow> u64 \<Rightarrow> cpu_counts \<Rightarrow> u64 \<Rightarrow> total_data \<Rightarrow> total_data" where
  "account_totals i m kernel_ins cnt recv_wait t =
     t\<lparr>total_fcalls := vec_upd i (\<lambda>x. x + fcalls_exec m) (total_fcalls t),
       total_instructions := vec_upd i (\<lambda>x. x + ins_exec m) (total_instructions t),
       total_mem_ins := vec_upd i (\<lambda>x. x + mem_ins_exec m) (total_mem_ins t),
       k_ins := vec_upd i (\<lambda>x. x + kernel_ins) (k_ins t),
       k_cycles := vec_upd i (\<lambda>x. x + kernel_cycles cnt) (k_cycles t),
       u_ins := vec_upd i (\<lambda>x. x + user_instructions cnt) (u_ins t),
       u_cycles := vec_upd i (\<lambda>x. x + user_cycles cnt) (u_cycles t),
       total_recv_wait := vec_upd i (\<lambda>x. x + recv_wait) (total_recv_wait t),
       total_pin_wait := vec_upd i (\<lambda>x. x + pin_wait m) (total_pin_wait t)\<rparr>"

text \<open>Under the unique lock: this thread takes over the highest ratio if it is still higher.\<close>

definition promote :: "nat \<Rightarrow> f64 \<Rightarrow> peak_data \<Rightarrow> peak_data" where
  "promote i ratio p =
     (let p = (if max_buffer_work_ratio p < ratio
               then p\<lparr>max_buffer_work_ratio := ratio, max_ratio_owner := int i\<rparr> else p)
      in if peak_work_whole_execution p < total_work p ! i
         then p\<lparr>peak_work_whole_execution := total_work p ! i\<rparr> else p)"

definition record_injected :: "nat \<Rightarrow> u64 \<Rightarrow> peak_data \<Rightarrow> peak_data" where
  "record_injected i slept p =
     p\<lparr>n_injected_time := vec_upd i (\<lambda>x. x + f64_of_u64 slept) (n_injected_time p),
       total_injected_time := vec_upd i (\<lambda>x. x + f64_of_u64 slept) (total_injected_time p)\<rparr>"

definition record_dummy :: "nat \<Rightarrow> f64 \<Rightarrow> total_data \<Rightarrow> total_data" where
  "record_dummy i extra_buffers t =
     t\<lparr>total_dummy_buffers := vec_upd i (\<lambda>x. x + extra_buffers) (total_dummy_buffers t)\<rparr>"

definition account_insertion ::
    "nat \<Rightarrow> buf_meta \<Rightarrow> u64 \<Rightarrow> u64 \<Rightarrow> u64 \<Rightarrow> insertion_data \<Rightarrow> insertion_data" where
  "account_insertion i m data_sz elapsed_time user_ins d =
     d\<lparr>in_buf_time := vec_upd i (\<lambda>x. x + gen_time m) (in_buf_time d),
       in_buffers := vec_upd i (\<lambda>x. x + data_sz) (in_buffers d),
       out_buf_time := vec_upd i (\<lambda>x. x + elapsed_time) (out_buf_time d),
       out_buffers := vec_upd i (\<lambda>x. x + data_sz) (out_buffers d),
       application_ins := vec_upd i (\<lambda>x. x + ins_exec m) (application_ins d),
       userspace_ins := vec_upd i (\<lambda>x. x + user_ins) (userspace_ins d)\<rparr>"

section \<open>The decision\<close>

text \<open>\<open>extra_buffers * CONSUMER_BUFFER_SIZE\<close>: the macro is the unparenthesised product
  \<open>(size_t) 1 * 1024 * 1024\<close>.\<close>

definition buffer_bytes :: "f64 \<Rightarrow> f64" where
  "buffer_bytes x = x * fl 1 * fl 1024 * fl 1024"

text \<open>How many buffers a thread is ahead of the slowest one; \<open>None\<close> where nothing is injected.\<close>

definition extra_buffers_of :: "f64 \<Rightarrow> f64 \<Rightarrow> f64 option" where
  "extra_buffers_of max_ratio_snapshot ratio =
     (if ratio < max_ratio_snapshot
      then (let extra_buffers = max_ratio_snapshot / ratio - fl 1
            in if fl (1 / 4) < extra_buffers then Some extra_buffers else None)
      else None)"

text \<open>The balancing of one buffer: the new state and the bytes of dummy I/O reported to the tool
  with the next ready signal.\<close>

definition balance_buffer ::
    "nat \<Rightarrow> buf_meta \<Rightarrow> cpu_counts \<Rightarrow> u64 \<Rightarrow> u64 \<Rightarrow> u64 \<Rightarrow> dummy_env \<Rightarrow> consumer
       \<Rightarrow> (fault + consumer \<times> u64) option" where
  "balance_buffer i m cnt data_sz real_w_time recv_wait env c =
     (if \<not> (overhead_balancing (conf c) \<and> 1 < length (n_buffers (peak c)))
      then Some (Inr (c, 0))
      else
       (let (kernel_ins, work) = listen_work cnt (ins_exec m);
            p = account_peak i work real_w_time (gen_time m) (peak c);
            ratio = buf_work_ratio p i;
            max_ratio_snapshot = max_buffer_work_ratio p;
            ratio_owner_snapshot = max_ratio_owner p;
            t_work = total_work p ! i;
            t = account_totals i m kernel_ins cnt recv_wait (totals c);
            curr_fcalls = total_fcalls t ! i
        in if skip_overhead_balancing t_work ratio curr_fcalls
           then Some (Inr (c\<lparr>peak := p, totals := t\<rparr>, 0))
           else
            (let higher = max_ratio_snapshot < ratio;
                 p = (if higher then promote i ratio p else p);
                 max_ratio_snapshot = (if higher then max_buffer_work_ratio p else max_ratio_snapshot);
                 ratio_owner_snapshot = (if higher then max_ratio_owner p else ratio_owner_snapshot)
             in case extra_buffers_of max_ratio_snapshot ratio of
                  None \<Rightarrow> Some (Inr (c\<lparr>peak := p, totals := t\<rparr>, 0))
                | Some extra_buffers \<Rightarrow>
                   (case f64_to_u64 (buffer_bytes extra_buffers) of
                      Inl e \<Rightarrow> Some (Inl e)
                    | Inr extra_io \<Rightarrow>
                       (case WriteDummy (app_dilation (conf c)) i extra_io
                               (f64_of_u64 data_sz / f64_of_u64 real_w_time)
                               ratio_owner_snapshot env t of
                          None \<Rightarrow> None
                        | Some (Inl e) \<Rightarrow> Some (Inl e)
                        | Some (Inr (slept, t')) \<Rightarrow>
                            Some (Inr (c\<lparr>peak := record_injected i slept p,
                                         totals := record_dummy i extra_buffers t'\<rparr>,
                                       extra_io)))))))"

section \<open>The sleep loop ends\<close>

text \<open>Each clock reading is at least the 10 ms that were slept after the one before it.\<close>

fun spaced :: "u64 \<Rightarrow> (bool \<times> u64) list \<Rightarrow> bool" where
  "spaced timer [] \<longleftrightarrow> True"
| "spaced timer ((stopped, now) # ts) \<longleftrightarrow> 10000 \<le> now - timer \<and> spaced now ts"

fun at_most :: "rat \<Rightarrow> f64 \<Rightarrow> bool" where
  "at_most b NaN \<longleftrightarrow> True"
| "at_most b (Inf s) \<longleftrightarrow> s"
| "at_most b (Fin s a) \<longleftrightarrow> sgnd s a \<le> b"

lemma rnd_of_nat: "n \<le> 2 ^ 53 \<Longrightarrow> rnd (of_nat n) = of_nat n"
  using rnd_of_int [of "int n"] by simp

lemma elapsed_ge:
  assumes "10000 \<le> d"
  obtains r where "f64_of_u64 d = Fin False r" and "10000 \<le> r"
proof -
  have "(10000 :: int) \<le> uint d" using assms by (simp add: word_le_def)
  then have "(of_int 10000 :: rat) \<le> of_int (uint d)" by (simp only: of_int_le_iff)
  then have "10000 \<le> rnd (of_int (uint d))" using rnd_mono [of 10000 "of_int (uint d)"] by simp
  then show ?thesis using f64_of_u64_finite that by blast
qed

lemma at_most_step:
  assumes "at_most (of_nat (10000 * Suc k)) x" and "fl 10000 < x" and "10000 * Suc k \<le> 2 ^ 53"
    and "10000 \<le> d"
  shows "at_most (of_nat (10000 * k)) (x - f64_of_u64 d)"
proof -
  obtain r where r: "f64_of_u64 d = Fin False r" "10000 \<le> r" using elapsed_ge [OF assms(4)] .
  obtain s a where x: "x = Fin s a" "sgnd s a \<le> of_nat (10000 * Suc k)" "10000 < sgnd s a"
    using assms(1,2) by (cases x) (auto simp: f64_ops)
  define v where "v = sgnd s a - r"
  have v: "v \<le> of_nat (10000 * k)" using x(2) r(2) by (simp add: v_def)
  have eq: "x - f64_of_u64 d = (if v = 0 then Fin s 0 else mk (v < 0) \<bar>v\<bar>)"
    using r x by (auto simp: f64_ops v_def Let_def)
  show ?thesis
  proof (cases "v \<le> 0")
    case True
    then show ?thesis
      using mk_cases [of True "\<bar>v\<bar>"] rnd_nonneg [OF abs_ge_zero, of v]
      by (cases s; cases "v = 0") (auto simp: eq)
  next
    case False
    then have "rnd v \<le> of_nat (10000 * k)"
      using rnd_mono [of v "of_nat (10000 * k)"] v rnd_of_nat [of "10000 * k"] assms(3) by simp
    moreover have "(of_nat (10000 * k) :: rat) < 2 ^ 1024"
    proof -
      have "10000 * k \<le> 2 ^ 53" using assms(3) by simp
      then have "(of_nat (10000 * k) :: rat) \<le> of_nat (2 ^ 53)" by (simp only: of_nat_le_iff)
      also have "\<dots> < 2 ^ 1024" by simp
      finally show ?thesis .
    qed
    ultimately show ?thesis using False by (simp add: eq mk_def Let_def)
  qed
qed

lemma dummy_loop_enough:
  assumes "at_most (of_nat (10000 * k)) x" and "10000 * k \<le> 2 ^ 53" and "k \<le> length ticks"
    and "spaced timer ticks"
  shows "\<exists>r. dummy_loop ticks x timer = Some r"
  using assms
proof (induction ticks arbitrary: k x timer)
  case Nil
  then have "\<not> fl 10000 < x" by (cases x) (auto simp: f64_ops)
  then show ?case by simp
next
  case (Cons tk ts)
  obtain stopped now where tk: "tk = (stopped, now)" by fastforce
  show ?case
  proof (cases "fl 10000 < x \<and> \<not> stopped")
    case go: True
    show ?thesis
    proof (cases k)
      case 0
      with Cons.prems(1) go show ?thesis by (cases x) (auto simp: f64_ops)
    next
      case (Suc j)
      have "at_most (of_nat (10000 * j)) (x - f64_of_u64 (now - timer))"
        using Cons.prems tk Suc go by (intro at_most_step) auto
      then have "\<exists>r. dummy_loop ts (x - f64_of_u64 (now - timer)) now = Some r"
        using Cons.prems tk Suc by (intro Cons.IH) auto
      with go show ?thesis by (simp add: tk)
    qed
  qed (auto simp: tk)
qed

section \<open>The size of a delay\<close>

definition at_least :: "rat \<Rightarrow> f64 \<Rightarrow> bool" where
  "at_least c x \<longleftrightarrow> x = Inf False \<or> (\<exists>a. x = Fin False a \<and> c \<le> a)"

lemma at_least_mult:
  assumes "at_least c x" and "rnd (c * k) = c * k" and "0 < k" and "0 \<le> c"
  shows "at_least (c * k) (x * Fin False k)"
proof (cases "x = Inf False")
  case True
  then show ?thesis using assms(3) by (simp add: at_least_def f64_ops)
next
  case False
  then obtain a where a: "x = Fin False a" "c \<le> a" using assms(1) by (auto simp: at_least_def)
  then have "c * k \<le> a * k" using assms by (intro mult_right_mono) simp_all
  then have "c * k \<le> rnd (a * k)" using rnd_mono [of "c * k" "a * k"] assms by simp
  then show ?thesis using mk_cases [of False "a * k"] a by (auto simp: f64_ops at_least_def)
qed

lemma at_least_to_u64:
  assumes "at_least (of_nat c) x" and "f64_to_u64 x = Inr w"
  shows "c \<le> unat w"
proof -
  obtain a where "x = Fin False a" "of_nat c \<le> a" "uint w = \<lfloor>a\<rfloor>"
    using f64_to_u64_Inr [OF assms(2)] assms(1) by (auto simp: at_least_def)
  then have "int c \<le> uint w" by (simp add: le_floor_iff)
  then show ?thesis by (metis nat_int nat_mono unat_eq_nat_uint)
qed

lemma f64_wf_minus: "f64_wf (x - y)"
  by (cases x; cases y) (auto simp: f64_ops Let_def)

lemma buffer_bytes_ge:
  assumes "fl (1 / 4) < x" and "f64_wf x" and "f64_to_u64 (buffer_bytes x) = Inr w"
  shows "262144 \<le> unat w"
proof -
  have "at_least (1 / 4) x"
    using assms(1,2) by (cases x) (auto simp: f64_ops at_least_def sgnd_def split: if_splits)
  then have "at_least (1 / 4 * 1) (x * Fin False 1)"
    by (rule at_least_mult) (use mk_quarter [of False] in \<open>simp_all add: mk_def Let_def split: if_splits\<close>)
  then have "at_least (1 / 4 * 1 * 1024) (x * Fin False 1 * Fin False 1024)"
    by (rule at_least_mult) simp_all
  then have "at_least (1 / 4 * 1 * 1024 * 1024) (x * Fin False 1 * Fin False 1024 * Fin False 1024)"
    by (rule at_least_mult) simp_all
  then have "at_least (of_nat 262144) (buffer_bytes x)" by (simp add: buffer_bytes_def)
  then show ?thesis using assms(3) by (rule at_least_to_u64)
qed

section \<open>Balancing one buffer\<close>

lemma extra_buffers_of_Some:
  "extra_buffers_of mx ratio = Some x \<Longrightarrow> ratio < mx \<and> fl (1 / 4) < x \<and> f64_wf x"
  by (auto simp: extra_buffers_of_def f64_wf_minus Let_def split: if_splits)

text \<open>The state of the balancing data after the buffer is accounted, before the decision.\<close>

definition after_buffer :: "nat \<Rightarrow> buf_meta \<Rightarrow> cpu_counts \<Rightarrow> u64 \<Rightarrow> peak_data \<Rightarrow> peak_data" where
  "after_buffer i m cnt real_w_time p =
     account_peak i (snd (listen_work cnt (ins_exec m))) real_w_time (gen_time m) p"

definition balances :: "consumer \<Rightarrow> bool" where
  "balances c \<longleftrightarrow> overhead_balancing (conf c) \<and> 1 < length (n_buffers (peak c))"

lemma balance_buffer_off:
  "\<not> balances c \<Longrightarrow> balance_buffer i m cnt ds rw recv env c = Some (Inr (c, 0))"
  by (simp add: balance_buffer_def balances_def)

lemma balance_buffer_eq:
  assumes "balances c"
  shows "balance_buffer i m cnt ds rw recv env c =
    (let p = after_buffer i m cnt rw (peak c);
         t = account_totals i m (fst (listen_work cnt (ins_exec m))) cnt recv (totals c);
         r = buf_work_ratio p i;
         p' = (if max_buffer_work_ratio p < r then promote i r p else p)
     in if skip_overhead_balancing (total_work p ! i) r (total_fcalls t ! i)
        then Some (Inr (c\<lparr>peak := p, totals := t\<rparr>, 0))
        else case extra_buffers_of (max_buffer_work_ratio p') r of
               None \<Rightarrow> Some (Inr (c\<lparr>peak := p', totals := t\<rparr>, 0))
             | Some x \<Rightarrow> (case f64_to_u64 (buffer_bytes x) of
                   Inl e \<Rightarrow> Some (Inl e)
                 | Inr ex \<Rightarrow>
                    (case WriteDummy (app_dilation (conf c)) i ex (f64_of_u64 ds / f64_of_u64 rw)
                            (max_ratio_owner p') env t of
                       None \<Rightarrow> None
                     | Some (Inl e) \<Rightarrow> Some (Inl e)
                     | Some (Inr (slept, t')) \<Rightarrow>
                         Some (Inr (c\<lparr>peak := record_injected i slept p',
                                      totals := record_dummy i x t'\<rparr>, ex)))))"
proof -
  obtain ki w where kw: "listen_work cnt (ins_exec m) = (ki, w)" by fastforce
  have b: "\<not> (\<not> (overhead_balancing (conf c) \<and> 1 < length (n_buffers (peak c))))"
    using assms by (simp add: balances_def)
  show ?thesis
    unfolding balance_buffer_def after_buffer_def kw fst_conv snd_conv Let_def prod.case
      if_not_P [OF b]
    by (cases "max_buffer_work_ratio (account_peak i w rw (gen_time m) (peak c))
      < buf_work_ratio (account_peak i w rw (gen_time m) (peak c)) i") (simp_all only: if_True if_False)
qed

lemma balance_buffer_cases:
  assumes "balance_buffer i m cnt ds rw recv env c = Some (Inr (c', ex))" and "balances c"
  defines "p \<equiv> after_buffer i m cnt rw (peak c)"
    and "t \<equiv> account_totals i m (fst (listen_work cnt (ins_exec m))) cnt recv (totals c)"
  obtains (skipped) "skip_overhead_balancing (total_work p ! i) (buf_work_ratio p i) (total_fcalls t ! i)"
      and "ex = 0" and "c' = c\<lparr>peak := p, totals := t\<rparr>"
  | (undelayed) p' where "p' = p \<or> p' = promote i (buf_work_ratio p i) p"
      and "ex = 0" and "c' = c\<lparr>peak := p', totals := t\<rparr>"
  | (delayed) p' mx x slept t' where "p' = p \<and> mx = max_buffer_work_ratio p
        \<or> p' = promote i (buf_work_ratio p i) p \<and> mx = max_buffer_work_ratio p'
          \<and> max_buffer_work_ratio p < buf_work_ratio p i"
      and "extra_buffers_of mx (buf_work_ratio p i) = Some x"
      and "f64_to_u64 (buffer_bytes x) = Inr ex"
      and "WriteDummy (app_dilation (conf c)) i ex (f64_of_u64 ds / f64_of_u64 rw)
             (max_ratio_owner p') env t = Some (Inr (slept, t'))"
      and "c' = c\<lparr>peak := record_injected i slept p', totals := record_dummy i x t'\<rparr>"
proof -
  let ?r = "buf_work_ratio p i"
  define p' where "p' = (if max_buffer_work_ratio p < ?r then promote i ?r p else p)"
  note eq = assms(1)[unfolded balance_buffer_eq [OF assms(2)] Let_def, folded p_def t_def, folded p'_def]
  show ?thesis
  proof (cases "skip_overhead_balancing (total_work p ! i) ?r (total_fcalls t ! i)")
    case True
    with eq show ?thesis by (intro skipped) auto
  next
    case noskip: False
    show ?thesis
    proof (cases "extra_buffers_of (max_buffer_work_ratio p') ?r")
      case None
      with eq noskip show ?thesis by (intro undelayed [of p']) (auto simp: p'_def)
    next
      case (Some x)
      with eq noskip obtain slept t' where "f64_to_u64 (buffer_bytes x) = Inr ex"
        and "WriteDummy (app_dilation (conf c)) i ex (f64_of_u64 ds / f64_of_u64 rw)
             (max_ratio_owner p') env t = Some (Inr (slept, t'))"
        and "c' = c\<lparr>peak := record_injected i slept p', totals := record_dummy i x t'\<rparr>"
        by (auto split: sum.splits option.splits)
      with Some show ?thesis by (intro delayed [of p' _ x]) (auto simp: p'_def)
    qed
  qed
qed

section \<open>What the balancing guarantees\<close>

text \<open>Two threads; the first is the owner of the ratio 2 and has just produced a buffer, the
  second is about to have a ratio of 1.\<close>

definition example_meta :: buf_meta where
  "example_meta = \<lparr>data_size = 1048560, gen_time = 0, pin_work = 0, ins_exec = 4, mem_ins_exec = 2,
     fcalls_exec = 1, pin_wait = 0\<rparr>"

definition example_counts :: cpu_counts where
  "example_counts = \<lparr>user_instructions = 8, user_cycles = 8, kernel_instructions = 60000,
     kernel_cycles = 60000, multiplexing_detected = False\<rparr>"

definition example_env :: dummy_env where
  "example_env = \<lparr>wd_start = 100, wd_ticks = [], wd_end = 1124\<rparr>"

definition example_busy :: consumer where
  "example_busy = example_consumer\<lparr>peak := (peak example_consumer)\<lparr>n_buffers := [fl 7, fl 3],
       n_work := [fl 0, fl 0], max_buffer_work_ratio := fl 2, max_ratio_owner := 0\<rparr>,
     totals := (totals example_consumer)\<lparr>real_writes := [1048576, 1048576],
       real_write_latency := [1024, 1024]\<rparr>\<rparr>"

lemmas balance_eval = balance_buffer_def listen_work_def account_peak_def account_totals_def
  skip_overhead_balancing_def buf_work_ratio_def promote_def extra_buffers_of_def buffer_bytes_def
  WriteDummy_def dummy_sleep_time_def bandwidth_def vec_at_int_def vec_at_def vec_upd_def
  record_injected_def record_dummy_def f64_to_u64_def f64_of_u64_exact f64_of_s64_finite
  WORK_OFFSET_def example_meta_def example_counts_def example_env_def example_busy_def

lemma example_delayed:
  "\<exists>c'. balance_buffer 1 example_meta example_counts 1048560 1024 0 example_env example_busy
     = Some (Inr (c', 1048576))"
  by (simp add: balance_eval f64_ops example_defs)

lemma example_owner:
  "\<exists>c'. balance_buffer 0 example_meta example_counts 1048560 1024 0 example_env example_busy
     = Some (Inr (c', 0))"
  by (simp add: balance_eval f64_ops example_defs)

text \<open>C19. An injected delay always ends: if the time to sleep is at most \<open>k\<close> steps of 10 ms (up to
  2^53 microseconds), \<open>k\<close> sleeps of at least 10 ms suffice, whatever the stop flag does; the call
  returns the elapsed time and adds it, and the bytes, to the thread's dummy totals only.\<close>

theorem WriteDummy_returns:
  assumes "dummy_sleep_time t i extra_io owner = Inr x"
    and "at_most (of_nat (10000 * k)) x" and "10000 * k \<le> 2 ^ 53"
    and "k \<le> length (wd_ticks env)" and "spaced (wd_start env) (wd_ticks env)"
  shows "WriteDummy True i extra_io bw owner env t
    = Some (Inr (wd_end env - wd_start env,
        t\<lparr>dummy_writes := vec_upd i (\<lambda>x. x + extra_io) (dummy_writes t),
          dummy_write_latency :=
            vec_upd i (\<lambda>x. x + (wd_end env - wd_start env)) (dummy_write_latency t)\<rparr>))"
  using dummy_loop_enough [OF assms(2-5)] assms(1) by (auto simp: WriteDummy_def Let_def)

lemma WriteDummy_returns_witness:
  defines "t \<equiv> totals_init\<lparr>real_writes := [25, 25], real_write_latency := [1, 1],
      dummy_writes := [0, 0], dummy_write_latency := [0, 0]\<rparr>"
    and "env \<equiv> \<lparr>wd_start = 0, wd_ticks = [(False, 10000), (False, 20000), (True, 30001)],
      wd_end = 40001\<rparr>"
  shows "WriteDummy True 1 750000 0 0 env t
    = Some (Inr (wd_end env - wd_start env,
        t\<lparr>dummy_writes := vec_upd 1 (\<lambda>x. x + 750000) (dummy_writes t),
          dummy_write_latency :=
            vec_upd 1 (\<lambda>x. x + (wd_end env - wd_start env)) (dummy_write_latency t)\<rparr>))"
proof (rule WriteDummy_returns [where k = 3 and x = "Fin False 30000"])
  show "dummy_sleep_time t 1 750000 0 = Inr (Fin False 30000)"
    by (simp add: t_def dummy_sleep_time_def bandwidth_def vec_at_int_def vec_at_def
        f64_of_u64_exact f64_ops)
qed (simp_all add: env_def)

text \<open>C20. A delay is never trivial: when dummy I/O is reported to the tool for a buffer, it is at
  least a quarter of a buffer, the thread takes part in balancing, and its ratio is below that of
  the owner.\<close>

theorem injected_at_least_quarter_buffer:
  assumes "balance_buffer i m cnt ds rw recv env c = Some (Inr (c', ex))" and "ex \<noteq> 0"
  shows "4 * unat ex \<ge> 1048576 \<and> overhead_balancing (conf c) \<and> 1 < length (n_buffers (peak c))
    \<and> buf_work_ratio (after_buffer i m cnt rw (peak c)) i < max_buffer_work_ratio (peak c')"
proof -
  have b: "balances c" using assms balance_buffer_off [of c] by (cases "balances c") auto
  show ?thesis
  proof (rule balance_buffer_cases [OF assms(1) b])
    fix p' mx x slept t'
    assume mx: "p' = after_buffer i m cnt rw (peak c)
          \<and> mx = max_buffer_work_ratio (after_buffer i m cnt rw (peak c)) \<or>
        p' = promote i (buf_work_ratio (after_buffer i m cnt rw (peak c)) i)
               (after_buffer i m cnt rw (peak c))
          \<and> mx = max_buffer_work_ratio p'
          \<and> max_buffer_work_ratio (after_buffer i m cnt rw (peak c))
              < buf_work_ratio (after_buffer i m cnt rw (peak c)) i"
      and x: "extra_buffers_of mx (buf_work_ratio (after_buffer i m cnt rw (peak c)) i) = Some x"
      and ex: "f64_to_u64 (buffer_bytes x) = Inr ex"
      and c': "c' = c\<lparr>peak := record_injected i slept p', totals := record_dummy i x t'\<rparr>"
    note x = extra_buffers_of_Some [OF x]
    have "262144 \<le> unat ex" using buffer_bytes_ge [OF _ _ ex] x by simp
    moreover have "mx = max_buffer_work_ratio (peak c')"
      using mx by (auto simp: c' record_injected_def)
    ultimately show ?thesis using x b by (simp add: balances_def)
  qed (use assms(2) in simp_all)
qed

lemma injected_at_least_quarter_buffer_witness:
  "4 * unat (1048576 :: u64) \<ge> 1048576"
proof -
  obtain c' where "balance_buffer 1 example_meta example_counts 1048560 1024 0 example_env example_busy
     = Some (Inr (c', 1048576))"
    using example_delayed by blast
  from injected_at_least_quarter_buffer [OF this] show ?thesis by simp
qed

text \<open>C21. The thread with the highest ratio is never delayed: if its ratio, with this buffer, is
  not below the elected maximum, no dummy I/O is injected; if it is above, the thread becomes the
  owner, with its own ratio as the new maximum.\<close>

theorem fastest_thread_not_delayed:
  assumes "balance_buffer i m cnt ds rw recv env c = Some (Inr (c', ex))"
    and "\<not> buf_work_ratio (after_buffer i m cnt rw (peak c)) i < max_buffer_work_ratio (peak c)"
  shows "ex = 0 \<and> real_writes (totals c') = real_writes (totals c)
    \<and> dummy_writes (totals c') = dummy_writes (totals c)"
proof (cases "balances c")
  case False
  with assms balance_buffer_off show ?thesis by auto
next
  case True
  have mx: "max_buffer_work_ratio (after_buffer i m cnt rw (peak c)) = max_buffer_work_ratio (peak c)"
    by (simp add: after_buffer_def account_peak_def)
  have pr: "max_buffer_work_ratio (promote i r p) = (if max_buffer_work_ratio p < r then r
      else max_buffer_work_ratio p)" for r p
    by (simp add: promote_def Let_def)
  show ?thesis
  proof (rule balance_buffer_cases [OF assms(1) True])
    fix p' mx' x slept t'
    assume "p' = after_buffer i m cnt rw (peak c)
          \<and> mx' = max_buffer_work_ratio (after_buffer i m cnt rw (peak c)) \<or>
        p' = promote i (buf_work_ratio (after_buffer i m cnt rw (peak c)) i)
               (after_buffer i m cnt rw (peak c))
          \<and> mx' = max_buffer_work_ratio p'
          \<and> max_buffer_work_ratio (after_buffer i m cnt rw (peak c))
              < buf_work_ratio (after_buffer i m cnt rw (peak c)) i"
      and x: "extra_buffers_of mx' (buf_work_ratio (after_buffer i m cnt rw (peak c)) i) = Some x"
    then have False
      using extra_buffers_of_Some [OF x] assms(2) by (auto simp: mx pr)
    then show ?thesis ..
  qed (auto simp: account_totals_def)
qed

lemma fastest_thread_not_delayed_witness:
  "\<exists>c'. balance_buffer 0 example_meta example_counts 1048560 1024 0 example_env example_busy
     = Some (Inr (c', 0)) \<and> dummy_writes (totals c') = dummy_writes (totals example_busy)"
proof -
  obtain c' where b: "balance_buffer 0 example_meta example_counts 1048560 1024 0 example_env example_busy
     = Some (Inr (c', 0))"
    using example_owner by blast
  have "\<not> buf_work_ratio (after_buffer 0 example_meta example_counts 1024 (peak example_busy)) 0
      < max_buffer_work_ratio (peak example_busy)"
    by (simp add: after_buffer_def balance_eval f64_ops example_defs)
  from fastest_thread_not_delayed [OF b this] b show ?thesis by blast
qed

text \<open>C27. Without function-call counts there is no balancing: while a thread's call total is zero
  no delay is ever injected for it and it can neither raise the maximum nor become the owner.\<close>

theorem no_fcalls_no_delay:
  assumes "balance_buffer i m cnt ds rw recv env c = Some (Inr (c', ex))"
    and "fcalls_exec m = 0" and "total_fcalls (totals c) ! i = 0"
    and "i < length (total_fcalls (totals c))"
  shows "ex = 0 \<and> max_buffer_work_ratio (peak c') = max_buffer_work_ratio (peak c)
    \<and> max_ratio_owner (peak c') = max_ratio_owner (peak c)
    \<and> total_fcalls (totals c') ! i = 0 \<and> dummy_writes (totals c') = dummy_writes (totals c)"
proof (cases "balances c")
  case False
  with assms balance_buffer_off show ?thesis by auto
next
  case True
  have "skip_overhead_balancing w r (total_fcalls (account_totals i m ki cnt recv (totals c)) ! i)"
    for w r ki
    using assms(2-4) by (simp add: skip_overhead_balancing_def account_totals_def)
  then show ?thesis
    using assms(1) balance_buffer_eq [OF True] assms(2-4)
    by (auto simp: Let_def after_buffer_def account_peak_def account_totals_def)
qed

lemma no_fcalls_no_delay_witness:
  defines "c \<equiv> example_busy\<lparr>totals := (totals example_busy)\<lparr>total_fcalls := [0, 0]\<rparr>\<rparr>"
    and "m \<equiv> example_meta\<lparr>fcalls_exec := 0\<rparr>"
  shows "\<exists>c' ex. balance_buffer 1 m example_counts 1048560 1024 0 example_env c = Some (Inr (c', ex))
    \<and> ex = 0 \<and> max_ratio_owner (peak c') = 0"
proof -
  have "\<exists>c' ex. balance_buffer 1 m example_counts 1048560 1024 0 example_env c = Some (Inr (c', ex))"
    by (simp add: m_def c_def balance_eval f64_ops example_defs)
  then obtain c' ex where b: "balance_buffer 1 m example_counts 1048560 1024 0 example_env c
      = Some (Inr (c', ex))" by blast
  have "fcalls_exec m = 0" "total_fcalls (totals c) ! 1 = 0" "1 < length (total_fcalls (totals c))"
    "max_ratio_owner (peak c) = 0"
    by (simp_all add: m_def c_def example_busy_def)
  with no_fcalls_no_delay [OF b] b show ?thesis by auto
qed

end
