(* ===== verification/Consumer_Header.thy ===== *)
theory Consumer_Header
  imports Prelude
begin

text \<open>
  \<open>src/include/consumer.h\<close>: the sizes that the tool and the consumer share at compile time.
\<close>

definition CONSUMER_BUFFER_SIZE :: nat where
  "CONSUMER_BUFFER_SIZE = 1 * 1024 * 1024"

definition CONSUMER_BUFFER_MIN :: nat where
  "CONSUMER_BUFFER_MIN = 2 * 1024 * 1024"

definition ALLOCATION_SIZE :: nat where
  "ALLOCATION_SIZE = max CONSUMER_BUFFER_SIZE CONSUMER_BUFFER_MIN"

definition ZSTD_BUFFER_SIZE :: nat where
  "ZSTD_BUFFER_SIZE = ALLOCATION_SIZE"

text \<open>\<open>CONSUMER_BUFFER_PAGES\<close>, the default of the tool's \<open>-bpages\<close>, as a number.\<close>

definition CONSUMER_BUFFER_PAGES :: nat where
  "CONSUMER_BUFFER_PAGES = CONSUMER_BUFFER_SIZE div 4096"

lemma header_sizes:
  "CONSUMER_BUFFER_SIZE = 1048576" "ALLOCATION_SIZE = 2097152" "ZSTD_BUFFER_SIZE = 2097152"
  "CONSUMER_BUFFER_PAGES = 256"
  by (simp_all add: CONSUMER_BUFFER_SIZE_def ALLOCATION_SIZE_def CONSUMER_BUFFER_MIN_def
      ZSTD_BUFFER_SIZE_def CONSUMER_BUFFER_PAGES_def)

end
