(* ===== verification/Listen.thy ===== *)
theory Listen
  imports Balance Consumer_Header
begin

text \<open>
  \<open>Listen\<close> of \<open>src/consumer/consumer.cpp\<close>: the loop that receives a thread's buffers, writes
  them to the thread's trace file (compressed or raw) and balances the thread, and the code
  after the loop that finishes the zstd frame.

  The zstd library is a parameter (\<open>zstd_api\<close>). One iteration is a function of what the
  environment does in it (\<open>listen_env\<close>): the results of \<open>send\<close>, \<open>recv\<close>, \<open>write\<close>, the perf reads,
  the clock, the contents of the shared memory, and what the other threads did to the globals
  since the last iteration. The trace file is a byte list with a write position.
\<close>

section \<open>The trace file\<close>

record out_file =
  contents :: "byte list"
  offset :: nat
  append_mode :: bool
  is_open :: bool

text \<open>Writing at the position, or at the end when the file is open for appending.\<close>

definition file_put :: "byte list \<Rightarrow> out_file \<Rightarrow> out_file" where
  "file_put bs f =
     (let p = (if append_mode f then length (contents f) else offset f)
      in f\<lparr>contents := take p (contents f) @ replicate (p - length (contents f)) 0 @ bs
                        @ drop (p + length bs) (contents f),
           offset := p + length bs\<rparr>)"

text \<open>One \<open>write\<close> call: its return value, negative on error, else the bytes taken.\<close>

definition file_write :: "byte list \<Rightarrow> int \<Rightarrow> out_file \<Rightarrow> out_file" where
  "file_write bs written f = (if written \<le> 0 then f else file_put (take (nat written) bs) f)"

definition close_file :: "out_file \<Rightarrow> out_file" where
  "close_file f = f\<lparr>is_open := False\<rparr>"

text \<open>Opening the existing file again, without \<open>O_TRUNC\<close>.\<close>

definition reopen :: "bool \<Rightarrow> out_file \<Rightarrow> out_file" where
  "reopen app f = f\<lparr>offset := 0, append_mode := app, is_open := True\<rparr>"

section \<open>The compressor\<close>

record 'ctx zstd_result =
  zr_ctx :: 'ctx
  zr_out :: "byte list"    \<comment> \<open>appended to the output buffer\<close>
  zr_consumed :: nat       \<comment> \<open>how far the input position moved\<close>
  zr_remaining :: u64      \<comment> \<open>the return value\<close>

record 'ctx zstd_api =
  zstd_create :: 'ctx
  zstd_stream :: "'ctx \<Rightarrow> bool \<Rightarrow> byte list \<Rightarrow> nat \<Rightarrow> 'ctx zstd_result"
     \<comment> \<open>context, whether the frame is ended, input left, room left in the output\<close>
  zstd_isError :: "u64 \<Rightarrow> bool"

section \<open>State of a listener\<close>

record 'ctx listener =
  cctx :: 'ctx
  z_pending :: "byte list"   \<comment> \<open>the first \<open>z_out.pos\<close> bytes of the output buffer\<close>
  z_in_size :: nat
  z_in_pos :: nat
  monitor :: cpu_monitor
  recv_data :: "u64 list"
  data_written :: u64
  dummy_written :: u64
  extra_io :: u64
  in_data :: u64
  out_data :: u64
  shm :: "byte list"
  out_f :: out_file

datatype send_result = Send_ok | Send_EPIPE | Send_error

datatype recv_result = Recv_error | Recv_words "u64 list"   \<comment> \<open>\<open>[]\<close> at the end of the stream\<close>

record listen_env =
  le_stop :: bool
  le_send :: send_result
  le_recv :: recv_result
  le_recv_start :: u64
  le_recv_end :: u64
  le_shm :: "byte list"      \<comment> \<open>the shared memory when the metadata has arrived\<close>
  le_reads :: cpu_reads
  le_start :: u64
  le_written :: int          \<comment> \<open>what \<open>write\<close> returns in this iteration\<close>
  le_write_done :: u64
  le_dummy :: dummy_env
  le_end :: u64
  le_others :: "consumer \<Rightarrow> consumer"

definition listener_start ::
    "'ctx zstd_api \<Rightarrow> bool \<Rightarrow> cpu_monitor \<Rightarrow> byte list \<Rightarrow> out_file \<Rightarrow> 'ctx listener" where
  "listener_start zs compression mon mem f =
     \<lparr>cctx = zstd_create zs, z_pending = [],
      z_in_size = (if compression then ALLOCATION_SIZE else 0), z_in_pos = 0,
      monitor = mon, recv_data = replicate 7 0, data_written = 0, dummy_written = 0,
      extra_io = 0, in_data = 0, out_data = 0, shm = mem, out_f = f\<rparr>"

section \<open>Processing a buffer\<close>

text \<open>\<open>None\<close> where the code reports an error and returns.\<close>

definition process_compressed ::
    "'ctx zstd_api \<Rightarrow> u64 \<Rightarrow> int \<Rightarrow> 'ctx listener \<Rightarrow> 'ctx listener option" where
  "process_compressed zs data_sz written l =
     (let l = l\<lparr>in_data := in_data l + data_sz, z_in_size := unat data_sz, z_in_pos := 0\<rparr>;
          r = zstd_stream zs (cctx l) False (take (unat data_sz) (shm l))
                (ZSTD_BUFFER_SIZE - length (z_pending l));
          l = l\<lparr>cctx := zr_ctx r, z_pending := z_pending l @ zr_out r, z_in_pos := zr_consumed r\<rparr>
      in if zstd_isError zs (zr_remaining r) then None
         else (let new_size = length (z_pending l) div 4096 * 4096
               in if 0 < new_size
                  then (let l = l\<lparr>out_f := file_write (take new_size (z_pending l)) written (out_f l)\<rparr>
                        in if written \<noteq> int new_size then None
                           else Some (l\<lparr>data_written := data_written l + of_int written,
                                        out_data := out_data l + of_int written,
                                        z_pending := drop new_size (z_pending l)\<rparr>))
                  else Some l))"

text \<open>The buffer as it is written raw: zero-padded (or cut) to the buffer size.\<close>

definition pad_buffer :: "nat \<Rightarrow> byte list \<Rightarrow> byte list" where
  "pad_buffer n mem =
     (if n < CONSUMER_BUFFER_SIZE
      then take n mem @ replicate (CONSUMER_BUFFER_SIZE - n) 0 @ drop CONSUMER_BUFFER_SIZE mem
      else mem)"

definition process_raw :: "u64 \<Rightarrow> int \<Rightarrow> 'ctx listener \<Rightarrow> 'ctx listener option" where
  "process_raw data_sz written l =
     (let l = l\<lparr>shm := pad_buffer (unat data_sz) (shm l)\<rparr>;
          l = l\<lparr>out_f := file_write (take CONSUMER_BUFFER_SIZE (shm l)) written (out_f l)\<rparr>
      in if written \<noteq> int CONSUMER_BUFFER_SIZE then None
         else Some (l\<lparr>data_written := data_written l + of_int written\<rparr>))"

section \<open>One iteration\<close>

datatype 'ctx listen_outcome =
    Next "'ctx listener" consumer     \<comment> \<open>back to the guard\<close>
  | Break "'ctx listener" consumer    \<comment> \<open>on to the code after the loop\<close>
  | Return consumer                   \<comment> \<open>an error was reported; the code after the loop is skipped\<close>
  | Fault fault
  | Sleeping                          \<comment> \<open>\<open>WriteDummy\<close> was given too few clock readings\<close>

definition store_words :: "u64 list \<Rightarrow> u64 list \<Rightarrow> u64 list" where
  "store_words ws buf = take (length buf) (ws @ drop (length ws) buf)"

text \<open>The 64 GB limit: the file is opened again, and writing starts over at its beginning.\<close>

definition wrap_file :: "'ctx listener \<Rightarrow> 'ctx listener" where
  "wrap_file l =
     (if 2 ^ 36 \<le> data_written l
      then l\<lparr>out_f := reopen False (close_file (out_f l)), data_written := 0\<rparr> else l)"

text \<open>The accounting and balancing of a processed buffer, up to the end of the iteration.\<close>

definition finish_buffer ::
    "nat \<Rightarrow> listen_env \<Rightarrow> buf_meta \<Rightarrow> cpu_counts \<Rightarrow> u64 \<Rightarrow> 'ctx listener \<Rightarrow> consumer
       \<Rightarrow> 'ctx listen_outcome" where
  "finish_buffer i e m cnt data_sz l c =
     (let real_w_time = le_write_done e - le_start e;
          recv_wait = le_recv_end e - le_recv_start e
      in case account_write i real_w_time data_sz (totals c) of
           Inl er \<Rightarrow> Fault er
         | Inr t \<Rightarrow>
            (case balance_buffer i m cnt data_sz real_w_time recv_wait (le_dummy e) (c\<lparr>totals := t\<rparr>) of
               None \<Rightarrow> Sleeping
             | Some (Inl er) \<Rightarrow> Fault er
             | Some (Inr (c', ex)) \<Rightarrow>
                (let elapsed_time = le_end e - le_start e;
                     c' = c'\<lparr>insertion := account_insertion i m data_sz elapsed_time
                                (user_instructions cnt) (insertion c')\<rparr>;
                     l = l\<lparr>extra_io := ex, dummy_written := dummy_written l + ex\<rparr>
                 in Next (wrap_file l) c')))"

definition listen_iter ::
    "'ctx zstd_api \<Rightarrow> nat \<Rightarrow> listen_env \<Rightarrow> 'ctx listener \<Rightarrow> consumer \<Rightarrow> 'ctx listen_outcome" where
  "listen_iter zs i e l c0 =
     (let c = le_others e c0 in
      case le_send e of
        Send_EPIPE \<Rightarrow> Break l c
      | Send_error \<Rightarrow> Return c
      | Send_ok \<Rightarrow>
     (let l = l\<lparr>extra_io := 0, shm := le_shm e\<rparr> in
      case le_recv e of
        Recv_error \<Rightarrow> Return c
      | Recv_words ws \<Rightarrow>
     (let l = l\<lparr>recv_data := store_words ws (recv_data l)\<rparr>;
          m = meta_of (recv_data l)
      in case get_deltas (monitor l) (le_reads e) of
        Inl er \<Rightarrow> Fault er
      | Inr (None, mon) \<Rightarrow> Break (l\<lparr>monitor := mon\<rparr>) c
      | Inr (Some cnt, mon) \<Rightarrow>
     (let l = l\<lparr>monitor := mon\<rparr> in
      if data_size m = 0 then Break l c
      else if use_compression (conf c)
      then (case process_compressed zs (data_size m) (le_written e) l of
              None \<Rightarrow> Return c
            | Some l' \<Rightarrow> finish_buffer i e m cnt (data_size m) l' c)
      else (case process_raw (data_size m) (le_written e) l of
              None \<Rightarrow> Return c
            | Some l' \<Rightarrow> finish_buffer i e m cnt (of_nat CONSUMER_BUFFER_SIZE) l' c)))))"

text \<open>The loop over the given iterations; \<open>Next\<close> when they are used up.\<close>

fun listen_loop ::
    "'ctx zstd_api \<Rightarrow> nat \<Rightarrow> listen_env list \<Rightarrow> 'ctx listener \<Rightarrow> consumer \<Rightarrow> 'ctx listen_outcome" where
  "listen_loop zs i [] l c = Next l c"
| "listen_loop zs i (e # es) l c =
     (if le_stop e then Break l (le_others e c)
      else case listen_iter zs i e l c of
             Next l' c' \<Rightarrow> listen_loop zs i es l' c'
           | out \<Rightarrow> out)"

section \<open>After the loop\<close>

record post_env =
  pe_reopened :: bool
  pe_written1 :: int
  pe_written2 :: int
  pe_renamed :: bool

text \<open>\<open>None\<close> where the code returns early; else the final file and whether it carries the
  \<open>.zst\<close> name. The result of the last \<open>write\<close> is not checked by the code.\<close>

definition listen_post ::
    "'ctx zstd_api \<Rightarrow> bool \<Rightarrow> post_env \<Rightarrow> 'ctx listener \<Rightarrow> ('ctx listener \<times> bool) option" where
  "listen_post zs compression pe l =
     (if \<not> compression then Some (l\<lparr>out_f := close_file (out_f l)\<rparr>, False)
      else if \<not> pe_reopened pe then None
      else
       (let l = l\<lparr>out_f := reopen True (close_file (out_f l))\<rparr>;
            l1 = l\<lparr>out_f := file_write (z_pending l) (pe_written1 pe) (out_f l)\<rparr>
        in if pe_written1 pe \<noteq> int (length (z_pending l)) then None
           else
            (let l = l1\<lparr>out_data := out_data l1 + of_int (pe_written1 pe), z_pending := []\<rparr>;
                 r = zstd_stream zs (cctx l) True
                       (take (z_in_size l - z_in_pos l) (drop (z_in_pos l) (shm l)))
                       ZSTD_BUFFER_SIZE;
                 l = l\<lparr>cctx := zr_ctx r, z_pending := zr_out r,
                       z_in_pos := z_in_pos l + zr_consumed r\<rparr>
             in if zr_remaining r \<noteq> 0 then None
                else Some (l\<lparr>out_f := close_file (file_write (z_pending l) (pe_written2 pe) (out_f l)),
                             out_data := out_data l + of_int (pe_written2 pe)\<rparr>,
                           pe_renamed pe))))"

end
