(* ===== verification/Listen_Trace.thy ===== *)
theory Listen_Trace
  imports Listen
begin

text \<open>
  What the trace file holds. The two ways to process a buffer share the contract of the locale
  \<open>trace_sink\<close>: whatever \<open>stored\<close> means for a listener, processing a buffer appends the
  buffer's payload to it. From it: the alignment of direct-I/O writes, the contents of a raw
  trace, and, for a zstd library that keeps its documented contract (\<open>zstd_ok\<close>), that a finished
  trace expands to exactly the bytes that were received.
\<close>

section \<open>Appending to a file\<close>

definition at_end :: "out_file \<Rightarrow> bool" where
  "at_end f \<longleftrightarrow> append_mode f \<or> offset f = length (contents f)"

lemma file_put_at_end:
  "at_end f \<Longrightarrow> contents (file_put bs f) = contents f @ bs"
  "at_end f \<Longrightarrow> at_end (file_put bs f)"
  by (auto simp: at_end_def file_put_def Let_def)

lemma file_write_all:
  "at_end f \<Longrightarrow> contents (file_write bs (int (length bs)) f) = contents f @ bs"
  "at_end f \<Longrightarrow> at_end (file_write bs (int (length bs)) f)"
  by (auto simp: file_write_def file_put_at_end)

section \<open>Sinks\<close>

locale trace_sink =
  fixes process :: "u64 \<Rightarrow> int \<Rightarrow> 'l \<Rightarrow> 'l option"
    and stored :: "'l \<Rightarrow> byte list"
    and payload :: "u64 \<Rightarrow> 'l \<Rightarrow> byte list"
    and ready :: "'l \<Rightarrow> bool"
  assumes process_ready: "process n w l = Some l' \<Longrightarrow> ready l \<Longrightarrow> ready l'"
    and process_stored: "process n w l = Some l' \<Longrightarrow> ready l \<Longrightarrow> stored l' = stored l @ payload n l"
begin

lemma stored_prefix:
  "process n w l = Some l' \<Longrightarrow> ready l \<Longrightarrow> take (length (stored l)) (stored l') = stored l"
  by (simp add: process_stored)

lemma twice:
  "process n w l = Some l1 \<Longrightarrow> process n' w' l1 = Some l2 \<Longrightarrow> ready l \<Longrightarrow>
     stored l2 = stored l @ payload n l @ payload n' l1"
  using process_ready process_stored by fastforce

end

definition raw_stored :: "'ctx listener \<Rightarrow> byte list" where
  "raw_stored l = contents (out_f l)"

definition raw_payload :: "u64 \<Rightarrow> 'ctx listener \<Rightarrow> byte list" where
  "raw_payload n l = take CONSUMER_BUFFER_SIZE (pad_buffer (unat n) (shm l))"

definition raw_ready :: "'ctx listener \<Rightarrow> bool" where
  "raw_ready l \<longleftrightarrow> at_end (out_f l) \<and> CONSUMER_BUFFER_SIZE \<le> length (shm l)"

lemma length_pad_buffer: "CONSUMER_BUFFER_SIZE \<le> length mem \<Longrightarrow> length (pad_buffer n mem) = length mem"
  by (simp add: pad_buffer_def)

lemma length_raw_payload: "raw_ready l \<Longrightarrow> length (raw_payload n l) = CONSUMER_BUFFER_SIZE"
  by (simp add: raw_payload_def raw_ready_def length_pad_buffer)

lemma process_raw_Some:
  "process_raw n w l = Some l' \<Longrightarrow> raw_ready l \<Longrightarrow>
     w = int CONSUMER_BUFFER_SIZE
     \<and> l' = l\<lparr>shm := pad_buffer (unat n) (shm l),
              out_f := file_write (raw_payload n l) (int (length (raw_payload n l))) (out_f l),
              data_written := data_written l + of_nat CONSUMER_BUFFER_SIZE\<rparr>"
  by (auto simp: process_raw_def Let_def length_raw_payload split: if_splits)
    (simp add: raw_payload_def)

interpretation raw: trace_sink process_raw raw_stored raw_payload raw_ready
proof unfold_locales
  fix n w and l l' :: "'ctx listener"
  assume p: "process_raw n w l = Some l'" and r: "raw_ready l"
  note s = process_raw_Some [OF p r]
  from s r show "raw_ready l'"
    by (simp add: raw_ready_def file_write_all length_pad_buffer)
  from s r show "raw_stored l' = raw_stored l @ raw_payload n l"
    by (simp add: raw_stored_def raw_ready_def file_write_all)
qed

definition zstd_stored :: "'ctx listener \<Rightarrow> byte list" where
  "zstd_stored l = contents (out_f l) @ z_pending l"

definition zstd_call :: "'ctx zstd_api \<Rightarrow> u64 \<Rightarrow> 'ctx listener \<Rightarrow> 'ctx zstd_result" where
  "zstd_call zs n l = zstd_stream zs (cctx l) False (take (unat n) (shm l))
     (ZSTD_BUFFER_SIZE - length (z_pending l))"

definition zstd_ready :: "'ctx listener \<Rightarrow> bool" where
  "zstd_ready l \<longleftrightarrow> at_end (out_f l) \<and> 4096 dvd length (contents (out_f l))
     \<and> length (z_pending l) < 4096"

text \<open>\<open>process_compressed\<close> in terms of the compressor call and of the part that is written.\<close>

definition store_output :: "byte list \<Rightarrow> nat \<Rightarrow> int \<Rightarrow> 'ctx listener \<Rightarrow> 'ctx listener option" where
  "store_output all k w l =
     (if 0 < k
      then (if w \<noteq> int k then None
            else Some (l\<lparr>out_f := file_write (take k all) w (out_f l),
                         data_written := data_written l + of_int w,
                         out_data := out_data l + of_int w, z_pending := drop k all\<rparr>))
      else Some (l\<lparr>z_pending := all\<rparr>))"

lemma process_compressed_eq:
  "process_compressed zs n w l =
     (let r = zstd_call zs n l; all = z_pending l @ zr_out r
      in if zstd_isError zs (zr_remaining r) then None
         else store_output all (length all div 4096 * 4096) w
                (l\<lparr>in_data := in_data l + n, z_in_size := unat n, cctx := zr_ctx r,
                   z_pending := all, z_in_pos := zr_consumed r\<rparr>))"
  by (simp add: process_compressed_def zstd_call_def store_output_def Let_def)

lemma store_output_Some:
  assumes "store_output all k w l = Some l'" and "at_end (out_f l)" and "k \<le> length all"
  shows "contents (out_f l') = contents (out_f l) @ take k all"
    and "at_end (out_f l')"
    and "z_pending l' = drop k all"
    and "data_written l' = data_written l + of_nat k"
    and "cctx l' = cctx l" and "z_in_size l' = z_in_size l" and "z_in_pos l' = z_in_pos l"
    and "shm l' = shm l"
proof -
  have len: "length (take k all) = k" using assms(3) by simp
  note fw = file_write_all [OF assms(2), of "take k all", unfolded len]
  show "contents (out_f l') = contents (out_f l) @ take k all" and "at_end (out_f l')"
    and "z_pending l' = drop k all" and "data_written l' = data_written l + of_nat k"
    and "cctx l' = cctx l" and "z_in_size l' = z_in_size l" and "z_in_pos l' = z_in_pos l"
    and "shm l' = shm l"
    using assms fw by (auto simp: store_output_def split: if_splits)
qed

lemma process_compressed_Some:
  assumes p: "process_compressed zs n w l = Some l'" and r: "at_end (out_f l)"
  defines "all \<equiv> z_pending l @ zr_out (zstd_call zs n l)"
  defines "k \<equiv> length all div 4096 * 4096"
  shows "\<not> zstd_isError zs (zr_remaining (zstd_call zs n l))"
    and "contents (out_f l') = contents (out_f l) @ take k all"
    and "at_end (out_f l')"
    and "z_pending l' = drop k all"
    and "cctx l' = zr_ctx (zstd_call zs n l)"
    and "data_written l' = data_written l + of_nat k"
    and "z_in_size l' = unat n" and "z_in_pos l' = zr_consumed (zstd_call zs n l)"
    and "shm l' = shm l"
proof -
  let ?l = "l\<lparr>in_data := in_data l + n, z_in_size := unat n, cctx := zr_ctx (zstd_call zs n l),
     z_pending := all, z_in_pos := zr_consumed (zstd_call zs n l)\<rparr>"
  have eq: "\<not> zstd_isError zs (zr_remaining (zstd_call zs n l)) \<and> store_output all k w ?l = Some l'"
    using p by (auto simp: process_compressed_eq Let_def all_def k_def split: if_splits)
  have "k \<le> length all" by (simp add: k_def div_times_less_eq_dividend)
  note st = store_output_Some [OF conjunct2 [OF eq] _ this, simplified, OF r]
  show "\<not> zstd_isError zs (zr_remaining (zstd_call zs n l))" using eq by simp
  show "contents (out_f l') = contents (out_f l) @ take k all" and "at_end (out_f l')"
    and "z_pending l' = drop k all" and "cctx l' = zr_ctx (zstd_call zs n l)"
    and "data_written l' = data_written l + of_nat k" and "z_in_size l' = unat n"
    and "z_in_pos l' = zr_consumed (zstd_call zs n l)" and "shm l' = shm l"
    using st by simp_all
qed

lemma process_compressed_ready:
  assumes "process_compressed zs n w l = Some l'" and "zstd_ready l"
  shows "zstd_ready l'"
proof -
  define all where "all = z_pending l @ zr_out (zstd_call zs n l)"
  have eof: "at_end (out_f l)" using assms(2) by (simp add: zstd_ready_def)
  note s = process_compressed_Some [OF assms(1) eof, folded all_def]
  have "length (take (length all div 4096 * 4096) all) = length all div 4096 * 4096"
    by (simp add: div_times_less_eq_dividend)
  moreover have "length (drop (length all div 4096 * 4096) all) = length all mod 4096"
    by (simp add: minus_div_mult_eq_mod)
  ultimately show ?thesis
    using s(2-4) assms(2) by (simp add: zstd_ready_def)
qed

interpretation compressed: trace_sink "process_compressed (zs :: 'ctx zstd_api)" zstd_stored
    "\<lambda>n l. zr_out (zstd_call zs n l)" zstd_ready
  for zs
proof unfold_locales
  fix n w and l l' :: "'ctx listener"
  assume p: "process_compressed zs n w l = Some l'" and r: "zstd_ready l"
  show "zstd_ready l'" using p r by (rule process_compressed_ready)
  show "zstd_stored l' = zstd_stored l @ zr_out (zstd_call zs n l)"
    using process_compressed_Some(2,4) [OF p] r
    by (simp add: zstd_stored_def zstd_ready_def del: take_append drop_append length_append)
qed

section \<open>One iteration\<close>

lemma balance_buffer_conf:
  "balance_buffer i m cnt ds rw rv env c = Some (Inr (c', ex)) \<Longrightarrow> conf c' = conf c"
  by (auto simp: balance_buffer_def Let_def split: prod.splits option.splits sum.splits if_splits)

lemma finish_buffer_Next:
  assumes "finish_buffer i e m cnt ds l c = Next l' c'"
  shows "\<exists>ex dw. l' = wrap_file (l\<lparr>extra_io := ex, dummy_written := dw\<rparr>) \<and> conf c' = conf c"
  using assms
  by (auto simp: finish_buffer_def Let_def split: option.splits sum.splits dest!: balance_buffer_conf)

lemma finish_buffer_not_Break: "finish_buffer i e m cnt ds l c \<noteq> Break l' c'"
  by (auto simp: finish_buffer_def Let_def split: option.splits sum.splits)

text \<open>The listener that a buffer is processed with: only the shared memory, the metadata and the
  monitor differ from the one at the start of the iteration.\<close>

definition received_into :: "listen_env \<Rightarrow> 'ctx listener \<Rightarrow> 'ctx listener \<Rightarrow> bool" where
  "received_into e l lb \<longleftrightarrow>
     (\<exists>rd mon. lb = l\<lparr>extra_io := 0, shm := le_shm e, recv_data := rd, monitor := mon\<rparr>)"

lemma received_into_simps:
  assumes "received_into e l lb"
  shows "cctx lb = cctx l" "z_pending lb = z_pending l" "out_f lb = out_f l"
    "data_written lb = data_written l" "z_in_size lb = z_in_size l" "z_in_pos lb = z_in_pos l"
    "shm lb = le_shm e"
  using assms by (auto simp: received_into_def)

lemma process_keeps_recv:
  "process_compressed zs n w l = Some l' \<Longrightarrow> recv_data l' = recv_data l"
  "process_raw n w l = Some l' \<Longrightarrow> recv_data l' = recv_data l"
  by (auto simp: process_compressed_eq store_output_def process_raw_def Let_def split: if_splits)

lemma wrap_file_recv [simp]: "recv_data (wrap_file l) = recv_data l" "shm (wrap_file l) = shm l"
  by (simp_all add: wrap_file_def)

lemma listen_iter_Next:
  assumes "listen_iter zs i e l c = Next l' c'"
  obtains lb l2 ex dw where "received_into e l lb" and "recv_data lb = recv_data l'"
    and "if use_compression (conf (le_others e c))
         then process_compressed zs (data_size (meta_of (recv_data l'))) (le_written e) lb = Some l2
         else process_raw (data_size (meta_of (recv_data l'))) (le_written e) lb = Some l2"
    and "l' = wrap_file (l2\<lparr>extra_io := ex, dummy_written := dw\<rparr>)"
    and "conf c' = conf (le_others e c)"
proof -
  from assms obtain ws cnt mon where ws: "le_recv e = Recv_words ws"
      and cnt: "get_deltas (monitor l) (le_reads e) = Inr (Some cnt, mon)"
    by (auto simp: listen_iter_def Let_def split: send_result.splits recv_result.splits sum.splits
        prod.splits option.splits)
  define lb where "lb = l\<lparr>extra_io := 0, shm := le_shm e,
    recv_data := store_words ws (recv_data l), monitor := mon\<rparr>"
  have lb: "received_into e l lb" by (auto simp: received_into_def lb_def)
  define n where "n = data_size (meta_of (recv_data lb))"
  have eq: "(if use_compression (conf (le_others e c))
      then (case process_compressed zs n (le_written e) lb of None \<Rightarrow> Return (le_others e c)
            | Some l' \<Rightarrow> finish_buffer i e (meta_of (recv_data lb)) cnt n l' (le_others e c))
      else (case process_raw n (le_written e) lb of None \<Rightarrow> Return (le_others e c)
            | Some l' \<Rightarrow> finish_buffer i e (meta_of (recv_data lb)) cnt (of_nat CONSUMER_BUFFER_SIZE)
                l' (le_others e c)))
      = Next l' c'"
    using assms ws cnt
    by (simp add: listen_iter_def lb_def n_def Let_def cong: option.case_cong
        split: send_result.splits if_splits)
  then obtain l2 ds where l2: "if use_compression (conf (le_others e c))
      then process_compressed zs n (le_written e) lb = Some l2
      else process_raw n (le_written e) lb = Some l2"
    and fb: "finish_buffer i e (meta_of (recv_data lb)) cnt ds l2 (le_others e c) = Next l' c'"
    by (auto split: if_splits option.splits)
  obtain ex dw where l': "l' = wrap_file (l2\<lparr>extra_io := ex, dummy_written := dw\<rparr>)"
    and c': "conf c' = conf (le_others e c)"
    using finish_buffer_Next [OF fb] by blast
  have "recv_data l2 = recv_data lb"
    using l2 process_keeps_recv by (metis (full_types))
  then have rd: "recv_data lb = recv_data l'" by (simp add: l')
  show ?thesis
    by (rule that [OF lb rd l2[unfolded n_def rd] l' c'])
qed

lemma listen_iter_Break:
  assumes "listen_iter zs i e l c = Break l' c'"
  shows "cctx l' = cctx l \<and> z_pending l' = z_pending l \<and> out_f l' = out_f l
    \<and> data_written l' = data_written l \<and> z_in_size l' = z_in_size l \<and> z_in_pos l' = z_in_pos l
    \<and> (shm l' = shm l \<or> shm l' = le_shm e)"
  using assms
  by (auto simp: listen_iter_def Let_def finish_buffer_not_Break split: send_result.splits
      recv_result.splits sum.splits prod.splits option.splits if_splits)

section \<open>The whole loop\<close>

text \<open>The bytes received in each completed iteration.\<close>

fun loop_received ::
    "'ctx zstd_api \<Rightarrow> nat \<Rightarrow> listen_env list \<Rightarrow> 'ctx listener \<Rightarrow> consumer \<Rightarrow> byte list list" where
  "loop_received zs i [] l c = []"
| "loop_received zs i (e # es) l c =
     (if le_stop e then []
      else case listen_iter zs i e l c of
             Next l' c' \<Rightarrow> take (unat (data_size (meta_of (recv_data l')))) (le_shm e)
                           # loop_received zs i es l' c'
           | _ \<Rightarrow> [])"

text \<open>What zstd documents of a streaming context: output is appended, input is taken from the
  front, a flush or end with enough room (\<open>bound\<close>) takes everything, and a frame that was ended
  expands to what was fed.\<close>

definition zstd_ok ::
    "'ctx zstd_api \<Rightarrow> ('ctx \<Rightarrow> byte list) \<Rightarrow> ('ctx \<Rightarrow> byte list) \<Rightarrow> (nat \<Rightarrow> nat)
       \<Rightarrow> (byte list \<Rightarrow> byte list) \<Rightarrow> bool" where
  "zstd_ok zs fed emitted bound expand \<longleftrightarrow>
     fed (zstd_create zs) = [] \<and> emitted (zstd_create zs) = []
     \<and> (\<forall>ctx e inp room. let r = zstd_stream zs ctx e inp room in
          length (zr_out r) \<le> room
          \<and> emitted (zr_ctx r) = emitted ctx @ zr_out r
          \<and> fed (zr_ctx r) = fed ctx @ take (zr_consumed r) inp
          \<and> (bound (length inp) \<le> room \<longrightarrow> \<not> zstd_isError zs (zr_remaining r) \<longrightarrow>
               zr_consumed r = length inp)
          \<and> (e \<longrightarrow> zr_remaining r = 0 \<longrightarrow>
               zr_consumed r = length inp \<and> expand (emitted (zr_ctx r)) = fed (zr_ctx r)))"

lemma zstd_ok_call:
  assumes "zstd_ok zs fed emitted bound expand"
  defines "r ctx e inp room \<equiv> zstd_stream zs ctx e inp room"
  shows "length (zr_out (r ctx e inp room)) \<le> room"
    and "emitted (zr_ctx (r ctx e inp room)) = emitted ctx @ zr_out (r ctx e inp room)"
    and "fed (zr_ctx (r ctx e inp room)) = fed ctx @ take (zr_consumed (r ctx e inp room)) inp"
    and "bound (length inp) \<le> room \<Longrightarrow> \<not> zstd_isError zs (zr_remaining (r ctx e inp room)) \<Longrightarrow>
      zr_consumed (r ctx e inp room) = length inp"
    and "e \<Longrightarrow> zr_remaining (r ctx e inp room) = 0 \<Longrightarrow>
      expand (emitted (zr_ctx (r ctx e inp room))) = fed (zr_ctx (r ctx e inp room))"
    and "e \<Longrightarrow> zr_remaining (r ctx e inp room) = 0 \<Longrightarrow> zr_consumed (r ctx e inp room) = length inp"
  using assms(1) unfolding zstd_ok_def r_def Let_def by blast+

definition keeps_conf :: "listen_env \<Rightarrow> bool" where
  "keeps_conf e \<longleftrightarrow> (\<forall>c. conf (le_others e c) = conf c)"

text \<open>Agreement of a listener with the compressor it feeds, and that no input is left over.\<close>

definition in_step :: "('ctx \<Rightarrow> byte list) \<Rightarrow> 'ctx listener \<Rightarrow> bool" where
  "in_step emitted l \<longleftrightarrow> zstd_ready l \<and> emitted (cctx l) = zstd_stored l"

definition input_used :: "'ctx listener \<Rightarrow> bool" where
  "input_used l \<longleftrightarrow> z_in_size l \<le> z_in_pos l \<or> ALLOCATION_SIZE \<le> z_in_pos l"

lemma compressed_iter:
  assumes ok: "zstd_ok zs fed emitted bound expand"
    and p: "process_compressed zs n w l = Some l'" and st: "in_step emitted l"
    and room: "bound (length (take (unat n) (shm l))) \<le> ZSTD_BUFFER_SIZE - 4096"
    and mem: "length (shm l) = ALLOCATION_SIZE"
  shows "in_step emitted l'" and "fed (cctx l') = fed (cctx l) @ take (unat n) (shm l)"
    and "input_used l'" and "\<exists>k. k \<le> ZSTD_BUFFER_SIZE \<and> data_written l' = data_written l + of_nat k"
proof -
  let ?r = "zstd_call zs n l"
  have rdy: "zstd_ready l" and em: "emitted (cctx l) = zstd_stored l"
    using st by (simp_all add: in_step_def)
  have eof: "at_end (out_f l)" and pend: "length (z_pending l) < 4096"
    using rdy by (simp_all add: zstd_ready_def)
  note s = process_compressed_Some [OF p eof]
  have call: "length (zr_out ?r) \<le> ZSTD_BUFFER_SIZE - length (z_pending l)"
    "emitted (zr_ctx ?r) = emitted (cctx l) @ zr_out ?r"
    "fed (zr_ctx ?r) = fed (cctx l) @ take (zr_consumed ?r) (take (unat n) (shm l))"
    "bound (length (take (unat n) (shm l))) \<le> ZSTD_BUFFER_SIZE - length (z_pending l)
       \<Longrightarrow> zr_consumed ?r = length (take (unat n) (shm l))"
    using ok s(1) unfolding zstd_ok_def zstd_call_def Let_def by blast+
  have consumed: "zr_consumed ?r = length (take (unat n) (shm l))"
    using room pend by (intro call(4)) simp
  show "in_step emitted l'"
    using process_compressed_ready [OF p rdy] compressed.process_stored [OF p rdy] s(5) call(2) em
    by (simp add: in_step_def)
  show "fed (cctx l') = fed (cctx l) @ take (unat n) (shm l)"
    using s(5) call(3) unfolding consumed take_all_iff [THEN iffD2, OF order_refl] by simp
  show "input_used l'"
    using s(7,8) consumed mem by (auto simp: input_used_def min_def)
  show "\<exists>k. k \<le> ZSTD_BUFFER_SIZE \<and> data_written l' = data_written l + of_nat k"
  proof (intro exI conjI)
    show "data_written l' = data_written l
        + of_nat (length (z_pending l @ zr_out ?r) div 4096 * 4096)" by (rule s(6))
    have "length (z_pending l @ zr_out ?r) \<le> ZSTD_BUFFER_SIZE"
      using call(1) pend by (simp add: ZSTD_BUFFER_SIZE_def ALLOCATION_SIZE_def
          CONSUMER_BUFFER_MIN_def CONSUMER_BUFFER_SIZE_def)
    then show "length (z_pending l @ zr_out ?r) div 4096 * 4096 \<le> ZSTD_BUFFER_SIZE"
      using div_times_less_eq_dividend le_trans by blast
  qed
qed

text \<open>Over the loop: the compressor has been fed what was received, and few enough bytes are
  written that the 64 GB limit is not reached.\<close>

definition loop_inv ::
    "('ctx \<Rightarrow> byte list) \<Rightarrow> nat \<Rightarrow> 'ctx listener \<Rightarrow> consumer \<Rightarrow> bool" where
  "loop_inv emitted k l c \<longleftrightarrow> in_step emitted l \<and> use_compression (conf c)
     \<and> unat (data_written l) \<le> k * ZSTD_BUFFER_SIZE"

lemma no_wrap:
  assumes "unat (w :: u64) \<le> k * ZSTD_BUFFER_SIZE" and "k < 2 ^ 15"
  shows "\<not> 2 ^ 36 \<le> w"
proof -
  have "k * ZSTD_BUFFER_SIZE < 2 ^ 15 * 2 ^ 21"
    using assms(2) by (simp add: ZSTD_BUFFER_SIZE_def ALLOCATION_SIZE_def
        CONSUMER_BUFFER_MIN_def CONSUMER_BUFFER_SIZE_def)
  then have "unat w < 2 ^ 36" using assms(1) by simp
  then show ?thesis by (simp add: word_le_nat_alt)
qed

lemma in_step_frame:
  "in_step emitted (l\<lparr>extra_io := x, dummy_written := y\<rparr>) = in_step emitted l"
  by (simp add: in_step_def zstd_ready_def zstd_stored_def)

lemma in_step_received:
  "received_into e l lb \<Longrightarrow> in_step emitted lb = in_step emitted l"
  by (simp add: in_step_def zstd_ready_def zstd_stored_def received_into_simps)

lemma loop_iter:
  assumes ok: "zstd_ok zs fed emitted bound expand"
    and room: "\<And>n. n \<le> CONSUMER_BUFFER_SIZE \<Longrightarrow> bound n \<le> ZSTD_BUFFER_SIZE - 4096"
    and mem: "length (le_shm e) = ALLOCATION_SIZE" and kc: "keeps_conf e"
    and inv: "loop_inv emitted k l c" and k: "Suc k < 2 ^ 15"
    and it: "listen_iter zs i e l c = Next l' c'"
    and small: "length (take (unat (data_size (meta_of (recv_data l')))) (le_shm e))
      \<le> CONSUMER_BUFFER_SIZE"
  shows "loop_inv emitted (Suc k) l' c'" and "input_used l'" and "shm l' = le_shm e"
    and "fed (cctx l') = fed (cctx l) @ take (unat (data_size (meta_of (recv_data l')))) (le_shm e)"
proof -
  obtain lb l2 ex dw where lb: "received_into e l lb"
    and p: "if use_compression (conf (le_others e c))
         then process_compressed zs (data_size (meta_of (recv_data l'))) (le_written e) lb = Some l2
         else process_raw (data_size (meta_of (recv_data l'))) (le_written e) lb = Some l2"
    and l': "l' = wrap_file (l2\<lparr>extra_io := ex, dummy_written := dw\<rparr>)"
    and c': "conf c' = conf (le_others e c)"
    using listen_iter_Next [OF it] by metis
  have uc: "use_compression (conf (le_others e c))"
    using kc inv by (simp add: keeps_conf_def loop_inv_def)
  note p = p [simplified uc, simplified]
  have st: "in_step emitted lb" using inv lb by (simp add: loop_inv_def in_step_received)
  have shm: "shm lb = le_shm e" by (rule received_into_simps(7) [OF lb])
  note it = compressed_iter [OF ok p st room, unfolded shm, OF small mem]
  obtain j where j: "j \<le> ZSTD_BUFFER_SIZE" "data_written l2 = data_written lb + of_nat j"
    using it(4) mem by auto
  have dw: "unat (data_written l2) \<le> Suc k * ZSTD_BUFFER_SIZE"
  proof -
    have "unat (data_written l2) \<le> unat (data_written lb) + unat (of_nat j :: u64)"
      unfolding j(2) by (rule unat_add_le)
    also have "\<dots> \<le> k * ZSTD_BUFFER_SIZE + j"
      using inv received_into_simps(4) [OF lb] unat_of_nat_le [of j]
      by (simp add: loop_inv_def add_mono)
    finally show ?thesis using j(1) by simp
  qed
  then have l'2: "l' = l2\<lparr>extra_io := ex, dummy_written := dw\<rparr>"
    using no_wrap [OF _ k] by (simp add: l' wrap_file_def)
  show "loop_inv emitted (Suc k) l' c'"
    using it(1) mem dw uc c' by (simp add: l'2 loop_inv_def in_step_frame)
  show "input_used l'" using it(3) mem by (simp add: l'2 input_used_def)
  show "shm l' = le_shm e"
    using process_compressed_Some(9) [OF p] st shm by (simp add: l'2 in_step_def zstd_ready_def)
  show "fed (cctx l') = fed (cctx l) @ take (unat (data_size (meta_of (recv_data l')))) (le_shm e)"
    using it(2) mem received_into_simps(1) [OF lb] by (simp add: l'2)
qed

definition loop_state :: "'ctx listen_outcome \<Rightarrow> 'ctx listener \<Rightarrow> consumer \<Rightarrow> bool" where
  "loop_state out l c \<longleftrightarrow> out = Next l c \<or> out = Break l c"

lemma loop_state_iff [simp]:
  "loop_state (Next l c) l' c' \<longleftrightarrow> l' = l \<and> c' = c"
  "loop_state (Break l c) l' c' \<longleftrightarrow> l' = l \<and> c' = c"
  "\<not> loop_state (Return c) l' c'" "\<not> loop_state (Fault er) l' c'" "\<not> loop_state Sleeping l' c'"
  by (auto simp: loop_state_def)

text \<open>What a \<open>Break\<close> leaves as it was.\<close>

definition same_stream :: "'ctx listener \<Rightarrow> 'ctx listener \<Rightarrow> bool" where
  "same_stream l l' \<longleftrightarrow> cctx l' = cctx l \<and> z_pending l' = z_pending l \<and> out_f l' = out_f l
     \<and> z_in_size l' = z_in_size l \<and> z_in_pos l' = z_in_pos l"

lemma same_stream_simps:
  assumes "same_stream l l'"
  shows "in_step emitted l' = in_step emitted l" "input_used l' = input_used l" "cctx l' = cctx l"
  using assms
  by (simp_all add: same_stream_def in_step_def zstd_ready_def zstd_stored_def input_used_def)

lemma loop_fed:
  assumes "loop_state (listen_loop zs i es l c) l' c'"
    and ok: "zstd_ok zs fed emitted bound expand"
    and room: "\<And>n. n \<le> CONSUMER_BUFFER_SIZE \<Longrightarrow> bound n \<le> ZSTD_BUFFER_SIZE - 4096"
    and "\<And>e. e \<in> set es \<Longrightarrow> length (le_shm e) = ALLOCATION_SIZE \<and> keeps_conf e"
    and "length (shm l) = ALLOCATION_SIZE"
    and "loop_inv emitted k l c" and "k + length es < 2 ^ 15"
    and "\<And>b. b \<in> set (loop_received zs i es l c) \<Longrightarrow> length b \<le> CONSUMER_BUFFER_SIZE"
  shows "in_step emitted l' \<and> length (shm l') = ALLOCATION_SIZE
    \<and> fed (cctx l') = fed (cctx l) @ concat (loop_received zs i es l c)
    \<and> (if loop_received zs i es l c = [] then same_stream l l' else input_used l')"
  using assms(1,4-8)
proof (induction es arbitrary: l c k)
  case Nil
  then show ?case by (simp add: loop_inv_def same_stream_def)
next
  case (Cons e es)
  show ?case
  proof (cases "le_stop e")
    case True
    with Cons.prems show ?thesis by (simp add: loop_inv_def same_stream_def)
  next
    case go: False
    show ?thesis
    proof (cases "listen_iter zs i e l c")
      case (Next l1 c1)
      have e: "length (le_shm e) = ALLOCATION_SIZE" "keeps_conf e" using Cons.prems(2) by simp_all
      have k: "Suc k < 2 ^ 15" using Cons.prems(5) by simp
      have small: "length (take (unat (data_size (meta_of (recv_data l1)))) (le_shm e))
          \<le> CONSUMER_BUFFER_SIZE"
        by (rule Cons.prems(6)) (simp add: go Next)
      note n = loop_iter [OF ok room e Cons.prems(4) k Next small]
      have "in_step emitted l' \<and> length (shm l') = ALLOCATION_SIZE
          \<and> fed (cctx l') = fed (cctx l1) @ concat (loop_received zs i es l1 c1)
          \<and> (if loop_received zs i es l1 c1 = [] then same_stream l1 l' else input_used l')"
      proof (rule Cons.IH [OF _ _ _ n(1)])
        show "loop_state (listen_loop zs i es l1 c1) l' c'"
          using Cons.prems(1) go Next by simp
      qed (use Cons.prems n(3) e go Next in auto)
      moreover have "input_used l'" if "same_stream l1 l'"
        using n(2) same_stream_simps(2) [OF that] by simp
      ultimately show ?thesis using n(4) go Next by (auto split: if_splits)
    next
      case (Break l1 c1)
      have s: "same_stream l l1" and m: "shm l1 = shm l \<or> shm l1 = le_shm e"
        using listen_iter_Break [OF Break] by (auto simp: same_stream_def)
      show ?thesis
        using Break go Cons.prems s m same_stream_simps [OF s] by (auto simp: loop_inv_def)
    qed (use Cons.prems go in simp_all)
  qed
qed

section \<open>The finished trace\<close>

lemma reopen_at_end: "at_end (reopen True f)" "contents (reopen b f) = contents f"
  "contents (close_file f) = contents f" "at_end (close_file f) = at_end f"
  by (simp_all add: reopen_def at_end_def close_file_def)

lemma listen_post_expands:
  assumes ok: "zstd_ok zs fed emitted bound expand"
    and st: "in_step emitted l" and used: "input_used l" and mem: "length (shm l) = ALLOCATION_SIZE"
    and post: "listen_post zs True pe l = Some (lf, named)"
    and full: "pe_written2 pe = int (length (z_pending lf))"
  shows "expand (contents (out_f lf)) = fed (cctx l)"
proof -
  define f where "f = file_write (z_pending l) (pe_written1 pe) (reopen True (close_file (out_f l)))"
  define inp where "inp = take (z_in_size l - z_in_pos l) (drop (z_in_pos l) (shm l))"
  define r where "r = zstd_stream zs (cctx l) True inp ZSTD_BUFFER_SIZE"
  have p: "pe_written1 pe = int (length (z_pending l))" "zr_remaining r = 0"
    and lf: "z_pending lf = zr_out r" "out_f lf = close_file (file_write (zr_out r) (pe_written2 pe) f)"
    using post by (auto simp: listen_post_def Let_def f_def r_def inp_def split: if_splits)
  have drained: "inp = []"
    using used mem by (auto simp: input_used_def inp_def)
  have f: "contents f = zstd_stored l" "at_end f"
    unfolding f_def p(1) zstd_stored_def
    by (simp_all add: file_write_all reopen_at_end)
  have r_eq: "r = zstd_stream zs (cctx l) True [] ZSTD_BUFFER_SIZE"
    by (simp add: r_def drained)
  note call = zstd_ok_call [OF ok, where ctx = "cctx l" and e = True and inp = "[]"
      and room = ZSTD_BUFFER_SIZE, folded r_eq]
  have "contents (out_f lf) = zstd_stored l @ zr_out r"
    using full f by (simp add: lf file_write_all reopen_at_end)
  also have "\<dots> = emitted (zr_ctx r)"
    using call(2) st by (simp add: in_step_def)
  finally show ?thesis
    using call(3,5) p(2) by simp
qed

section \<open>The raw loop\<close>

fun loop_padded ::
    "'ctx zstd_api \<Rightarrow> nat \<Rightarrow> listen_env list \<Rightarrow> 'ctx listener \<Rightarrow> consumer \<Rightarrow> byte list list" where
  "loop_padded zs i [] l c = []"
| "loop_padded zs i (e # es) l c =
     (if le_stop e then []
      else case listen_iter zs i e l c of
             Next l' c' \<Rightarrow>
               (let n = unat (data_size (meta_of (recv_data l')))
                in take CONSUMER_BUFFER_SIZE
                     (take n (le_shm e) @ replicate (CONSUMER_BUFFER_SIZE - n) 0))
               # loop_padded zs i es l' c'
           | _ \<Rightarrow> [])"

definition raw_inv :: "nat \<Rightarrow> 'ctx listener \<Rightarrow> consumer \<Rightarrow> bool" where
  "raw_inv k l c \<longleftrightarrow> at_end (out_f l) \<and> \<not> use_compression (conf c)
     \<and> unat (data_written l) \<le> k * CONSUMER_BUFFER_SIZE"

lemma take_pad_buffer:
  assumes "length mem = ALLOCATION_SIZE"
  shows "take CONSUMER_BUFFER_SIZE (pad_buffer n mem)
    = take CONSUMER_BUFFER_SIZE (take n mem @ replicate (CONSUMER_BUFFER_SIZE - n) 0)"
proof (cases "n < CONSUMER_BUFFER_SIZE")
  case True
  then show ?thesis using assms
    by (simp add: pad_buffer_def ALLOCATION_SIZE_def CONSUMER_BUFFER_MIN_def CONSUMER_BUFFER_SIZE_def)
next
  case False
  then show ?thesis using assms
    by (simp add: pad_buffer_def ALLOCATION_SIZE_def CONSUMER_BUFFER_MIN_def CONSUMER_BUFFER_SIZE_def
        min_def)
qed

lemma raw_iter:
  assumes mem: "length (le_shm e) = ALLOCATION_SIZE" and kc: "keeps_conf e"
    and inv: "raw_inv k l c" and k: "Suc k < 2 ^ 15"
    and it: "listen_iter zs i e l c = Next l' c'"
  shows "raw_inv (Suc k) l' c'"
    and "contents (out_f l') = contents (out_f l)
      @ (let n = unat (data_size (meta_of (recv_data l')))
         in take CONSUMER_BUFFER_SIZE (take n (le_shm e) @ replicate (CONSUMER_BUFFER_SIZE - n) 0))"
proof -
  obtain lb l2 ex dw where lb: "received_into e l lb"
    and p: "if use_compression (conf (le_others e c))
         then process_compressed zs (data_size (meta_of (recv_data l'))) (le_written e) lb = Some l2
         else process_raw (data_size (meta_of (recv_data l'))) (le_written e) lb = Some l2"
    and l': "l' = wrap_file (l2\<lparr>extra_io := ex, dummy_written := dw\<rparr>)"
    and c': "conf c' = conf (le_others e c)"
    using listen_iter_Next [OF it] by metis
  have uc: "\<not> use_compression (conf (le_others e c))"
    using kc inv by (simp add: keeps_conf_def raw_inv_def)
  note p = p [simplified uc, simplified]
  note lbs = received_into_simps [OF lb]
  have rdy: "raw_ready lb"
    using inv mem
    by (simp add: raw_ready_def raw_inv_def lbs ALLOCATION_SIZE_def CONSUMER_BUFFER_MIN_def
        CONSUMER_BUFFER_SIZE_def)
  note st = process_raw_Some [OF p rdy]
  have "unat (data_written l2) \<le> unat (data_written lb) + CONSUMER_BUFFER_SIZE"
    using unat_add_le [of "data_written lb" "of_nat CONSUMER_BUFFER_SIZE"]
      unat_of_nat_le [of CONSUMER_BUFFER_SIZE] st by simp
  also have "\<dots> \<le> Suc k * CONSUMER_BUFFER_SIZE"
    using inv by (simp add: raw_inv_def lbs)
  finally have dw: "unat (data_written l2) \<le> Suc k * CONSUMER_BUFFER_SIZE" .
  also have "\<dots> \<le> Suc k * ZSTD_BUFFER_SIZE"
    by (simp add: ZSTD_BUFFER_SIZE_def ALLOCATION_SIZE_def CONSUMER_BUFFER_MIN_def
        CONSUMER_BUFFER_SIZE_def)
  finally have l'2: "l' = l2\<lparr>extra_io := ex, dummy_written := dw\<rparr>"
    using no_wrap [OF _ k] by (simp add: l' wrap_file_def)
  show "raw_inv (Suc k) l' c'"
    using raw.process_ready [OF p rdy] dw uc c' by (simp add: l'2 raw_inv_def raw_ready_def)
  show "contents (out_f l') = contents (out_f l)
      @ (let n = unat (data_size (meta_of (recv_data l')))
         in take CONSUMER_BUFFER_SIZE (take n (le_shm e) @ replicate (CONSUMER_BUFFER_SIZE - n) 0))"
    using raw.process_stored [OF p rdy]
    by (simp add: l'2 raw_stored_def raw_payload_def lbs Let_def take_pad_buffer [OF mem])
qed

lemma raw_loop:
  assumes "loop_state (listen_loop zs i es l c) l' c'"
    and "\<And>e. e \<in> set es \<Longrightarrow> length (le_shm e) = ALLOCATION_SIZE \<and> keeps_conf e"
    and "raw_inv k l c" and "k + length es < 2 ^ 15"
  shows "contents (out_f l') = contents (out_f l) @ concat (loop_padded zs i es l c)"
  using assms
proof (induction es arbitrary: l c k)
  case (Cons e es)
  show ?case
  proof (cases "le_stop e")
    case go: False
    show ?thesis
    proof (cases "listen_iter zs i e l c")
      case (Next l1 c1)
      have e: "length (le_shm e) = ALLOCATION_SIZE" "keeps_conf e" using Cons.prems(2) by simp_all
      have k: "Suc k < 2 ^ 15" using Cons.prems(4) by simp
      note n = raw_iter [OF e Cons.prems(3) k Next]
      have "contents (out_f l') = contents (out_f l1) @ concat (loop_padded zs i es l1 c1)"
      proof (rule Cons.IH [OF _ _ n(1)])
        show "loop_state (listen_loop zs i es l1 c1) l' c'"
          using Cons.prems(1) go Next by simp
      qed (use Cons.prems in auto)
      with n(2) go Next show ?thesis by (simp add: Let_def)
    next
      case (Break l1 c1)
      with listen_iter_Break [OF Break] Cons.prems(1) go show ?thesis by simp
    qed (use Cons.prems go in simp_all)
  qed (use Cons.prems in simp)
qed simp

lemma listen_iter_recv:
  assumes "listen_iter zs i e l c = Next l' c'"
  shows "\<exists>ws. le_recv e = Recv_words ws \<and> recv_data l' = store_words ws (recv_data l)"
proof -
  from assms obtain ws cnt mon where ws: "le_recv e = Recv_words ws"
      and cnt: "get_deltas (monitor l) (le_reads e) = Inr (Some cnt, mon)"
    by (auto simp: listen_iter_def Let_def split: send_result.splits recv_result.splits sum.splits
        prod.splits option.splits)
  then show ?thesis using assms
    by (auto simp: listen_iter_def Let_def split: send_result.splits option.splits if_splits
        dest!: finish_buffer_Next process_keeps_recv)
qed

lemma store_no_words [simp]: "store_words [] buf = buf"
  by (simp add: store_words_def)

section \<open>What a trace file holds\<close>

lemma session_expands:
  assumes "zstd_ok zs fed emitted bound expand"
    and "\<And>n. n \<le> CONSUMER_BUFFER_SIZE \<Longrightarrow> bound n \<le> ZSTD_BUFFER_SIZE - 4096"
    and "use_compression (conf c)" and "contents f = []" and "at_end f"
    and "length mem = ALLOCATION_SIZE" and "length es < 2 ^ 15"
    and "\<And>e. e \<in> set es \<Longrightarrow> length (le_shm e) = ALLOCATION_SIZE \<and> keeps_conf e"
    and "\<And>b. b \<in> set (loop_received zs i es (listener_start zs True mon mem f) c) \<Longrightarrow>
      length b \<le> CONSUMER_BUFFER_SIZE"
    and "loop_received zs i es (listener_start zs True mon mem f) c \<noteq> []"
    and "listen_loop zs i es (listener_start zs True mon mem f) c = Break l c'"
    and "listen_post zs True pe l = Some (lf, named)"
    and "pe_written2 pe = int (length (z_pending lf))"
  shows "expand (contents (out_f lf))
    = concat (loop_received zs i es (listener_start zs True mon mem f) c)"
proof -
  let ?l = "listener_start zs True mon mem f"
  have start: "fed (cctx ?l) = []" "emitted (cctx ?l) = []"
    using assms(1) by (simp_all add: zstd_ok_def listener_start_def)
  have "loop_inv emitted 0 ?l c"
    using assms(3,4,5) start(2)
    by (simp add: loop_inv_def in_step_def zstd_ready_def zstd_stored_def listener_start_def)
  moreover have "loop_state (listen_loop zs i es ?l c) l c'" using assms(11) by simp
  moreover have "length (shm ?l) = ALLOCATION_SIZE" "0 + length es < 2 ^ 15"
    using assms(6,7) by (simp_all add: listener_start_def)
  ultimately have loop: "in_step emitted l \<and> length (shm l) = ALLOCATION_SIZE
      \<and> fed (cctx l) = fed (cctx ?l) @ concat (loop_received zs i es ?l c)
      \<and> (if loop_received zs i es ?l c = [] then same_stream ?l l else input_used l)"
    using loop_fed [OF _ assms(1,2)] assms(8,9) by blast
  then have "expand (contents (out_f lf)) = fed (cctx l)"
    using assms(10) by (intro listen_post_expands [OF assms(1) _ _ _ assms(12,13)]) simp_all
  then show ?thesis using loop start by simp
qed

text \<open>C4. A finished compressed trace is complete: whatever sequence of buffers of at most 1 MB was
  received, in whatever pieces the compressor emitted its output, the file expands to exactly
  the received bytes in order, provided at least one buffer was received, the 64 GB limit was not
  reached and the last write was not cut short.\<close>

theorem trace_complete:
  assumes "zstd_ok zs fed emitted bound expand"
    and "\<And>n. n \<le> CONSUMER_BUFFER_SIZE \<Longrightarrow> bound n \<le> ZSTD_BUFFER_SIZE - 4096"
    and "use_compression (conf c)" and "contents f = []" and "at_end f"
    and "length mem = ALLOCATION_SIZE" and "length es < 2 ^ 15"
    and "\<And>e. e \<in> set es \<Longrightarrow> length (le_shm e) = ALLOCATION_SIZE \<and> keeps_conf e"
    and "\<And>b. b \<in> set (loop_received zs i es (listener_start zs True mon mem f) c) \<Longrightarrow>
      length b \<le> CONSUMER_BUFFER_SIZE"
    and "loop_received zs i es (listener_start zs True mon mem f) c \<noteq> []"
    and "listen_loop zs i es (listener_start zs True mon mem f) c = Break l c'"
    and "listen_post zs True pe l = Some (lf, named)"
    and "pe_written2 pe = int (length (z_pending lf))"
  shows "expand (contents (out_f lf))
    = concat (loop_received zs i es (listener_start zs True mon mem f) c)"
  by (rule session_expands [OF assms])

text \<open>An example compressor that stores its input, and a session of two buffers.\<close>

definition id_zstd :: "byte list zstd_api" where
  "id_zstd = \<lparr>zstd_create = [],
     zstd_stream = (\<lambda>ctx e inp room.
       \<lparr>zr_ctx = ctx @ take room inp, zr_out = take room inp,
        zr_consumed = min room (length inp), zr_remaining = of_bool (room < length inp)\<rparr>),
     zstd_isError = (\<lambda>r. False)\<rparr>"

lemma id_zstd_ok: "zstd_ok id_zstd id id id id"
  by (auto simp: zstd_ok_def id_zstd_def Let_def min_def split: if_splits)

definition example_settings_z :: settings where
  "example_settings_z = settings_init\<lparr>use_compression := True\<rparr>"

definition example_one :: consumer where
  "example_one = InitThreadData (consumer_init example_settings_z)"

definition example_mem :: "nat \<Rightarrow> byte \<Rightarrow> byte list" where
  "example_mem n b = replicate n b @ replicate (ALLOCATION_SIZE - n) 0"

definition example_file :: out_file where
  "example_file = \<lparr>contents = [], offset = 0, append_mode = False, is_open = True\<rparr>"

definition example_iter :: "u64 \<Rightarrow> byte \<Rightarrow> listen_env" where
  "example_iter n b = \<lparr>le_stop = False, le_send = Send_ok, le_recv = Recv_words [n, 0, 0, 4, 2, 1, 0],
     le_recv_start = 0, le_recv_end = 5, le_shm = example_mem (unat n) b,
     le_reads = example_reads n, le_start = 5, le_written = 0, le_write_done = 9,
     le_dummy = example_env, le_end = 10, le_others = id\<rparr>"

definition example_listener :: "byte list listener" where
  "example_listener = listener_start id_zstd True example_monitor (example_mem 0 0) example_file"

lemma sizes [simp]:
  "CONSUMER_BUFFER_SIZE = 1048576" "ALLOCATION_SIZE = 2097152" "ZSTD_BUFFER_SIZE = 2097152"
  by (simp_all add: CONSUMER_BUFFER_SIZE_def ALLOCATION_SIZE_def CONSUMER_BUFFER_MIN_def
      ZSTD_BUFFER_SIZE_def)

lemma example_mem_simps [simp]:
  "n \<le> 2097152 \<Longrightarrow> length (example_mem n b) = 2097152"
  "k \<le> n \<Longrightarrow> take k (example_mem n b) = replicate k b"
  by (simp_all add: example_mem_def min_def)

lemmas listen_eval = listen_iter_def process_compressed_def process_raw_def finish_buffer_def
  account_write_def account_insertion_def balance_buffer_def meta_of_def store_words_def
  wrap_file_def get_deltas_def gone_def calculate_scaled_delta_def f64_to_u64_def
  f64_of_u64_exact vec_upd_def f64_ops

lemmas session_defs = example_iter_def example_listener_def listener_start_def example_monitor_def
  cpu_monitor_of_def example_reads_def example_read_def perf_read_zero_def id_zstd_def
  example_one_def example_settings_z_def

definition example_after :: "byte list listener" where
  "example_after = example_listener\<lparr>cctx := replicate 24 7, z_pending := replicate 24 7,
     z_in_size := 24, z_in_pos := 24,
     monitor := example_monitor\<lparr>last_user_instr := read_buf (example_read 24),
       last_kernel_instr := read_buf (example_read 48), last_user_cycles := read_buf (example_read 72),
       last_kernel_cycles := read_buf (example_read 96)\<rparr>,
     recv_data := [24, 0, 0, 4, 2, 1, 0], in_data := 24, shm := example_mem 24 7\<rparr>"

lemma example_first:
  "\<exists>c'. listen_iter id_zstd 0 (example_iter 24 7) example_listener example_one = Next example_after c'"
  by (simp add: listen_eval session_defs example_after_def example_defs)

definition example_session :: "listen_env list" where
  "example_session = [example_iter 24 7, (example_iter 24 7)\<lparr>le_stop := True\<rparr>]"

lemma example_loop:
  "\<exists>c'. listen_loop id_zstd 0 example_session example_listener example_one = Break example_after c'"
  "loop_received id_zstd 0 example_session example_listener example_one = [replicate 24 7]"
  using example_first
  by (auto simp: example_session_def example_iter_def example_after_def meta_of_def)

definition example_final :: "byte list listener" where
  "example_final = example_after\<lparr>out_f := \<lparr>contents = replicate 24 7, offset = 24,
     append_mode = True, is_open = False\<rparr>, out_data := 24, z_pending := []\<rparr>"

lemma example_finish:
  "listen_post id_zstd True \<lparr>pe_reopened = True, pe_written1 = 24, pe_written2 = 0, pe_renamed = True\<rparr>
     example_after = Some (example_final, True)"
  by (simp add: listen_post_def example_after_def example_final_def example_listener_def
      listener_start_def example_file_def reopen_def close_file_def file_write_def file_put_def
      id_zstd_def Let_def)

lemma trace_complete_witness:
  "contents (out_f example_final)
     = concat (loop_received id_zstd 0 example_session example_listener example_one)
   \<and> contents (out_f example_final) = replicate 24 7"
proof -
  obtain c' where loop: "listen_loop id_zstd 0 example_session
      (listener_start id_zstd True example_monitor (example_mem 0 0) example_file) example_one
      = Break example_after c'"
    using example_loop(1) unfolding example_listener_def by blast
  note rec = example_loop(2) [unfolded example_listener_def]
  have "id (contents (out_f example_final))
      = concat (loop_received id_zstd 0 example_session
          (listener_start id_zstd True example_monitor (example_mem 0 0) example_file) example_one)"
  proof (rule trace_complete [OF id_zstd_ok _ _ _ _ _ _ _ _ _ loop example_finish])
    show "use_compression (conf example_one)"
      by (simp add: example_one_def InitThreadData_def consumer_init_def example_settings_z_def Let_def)
    show "length (le_shm e) = ALLOCATION_SIZE \<and> keeps_conf e" if "e \<in> set example_session" for e
      using that by (auto simp: example_session_def example_iter_def keeps_conf_def)
  qed (simp_all add: rec, simp_all add: example_final_def example_file_def at_end_def example_session_def)
  then show ?thesis by (simp add: rec example_listener_def)
qed

text \<open>C17. Direct I/O stays aligned: however much the compressor emits, the file only ever grows by
  whole 4096-byte blocks, less than one block stays pending in the buffer, and together they hold
  everything emitted so far, in order.\<close>

theorem compressed_writes_aligned:
  assumes "process_compressed zs n w l = Some l'" and "zstd_ready l"
  shows "4096 dvd length (contents (out_f l')) \<and> length (z_pending l') < 4096
    \<and> contents (out_f l') @ z_pending l'
      = contents (out_f l) @ z_pending l @ zr_out (zstd_call zs n l)"
  using compressed.process_stored [OF assms] process_compressed_ready [OF assms]
  by (simp add: zstd_ready_def zstd_stored_def)

lemma compressed_writes_aligned_witness:
  defines "l \<equiv> example_listener\<lparr>shm := example_mem 5000 3\<rparr>"
  shows "\<exists>l'. process_compressed id_zstd 5000 4096 l = Some l'
    \<and> length (contents (out_f l')) = 4096 \<and> length (z_pending l') = 904"
proof -
  have "\<exists>l'. process_compressed id_zstd 5000 4096 l = Some l'"
    by (simp add: process_compressed_def l_def example_listener_def listener_start_def id_zstd_def
        Let_def)
  then obtain l' where p: "process_compressed id_zstd 5000 4096 l = Some l'" by blast
  have r: "zstd_ready l"
    by (simp add: l_def example_listener_def listener_start_def zstd_ready_def example_file_def at_end_def)
  from compressed_writes_aligned [OF p r]
  have "4096 dvd length (contents (out_f l')) \<and> length (z_pending l') < 4096
      \<and> length (contents (out_f l') @ z_pending l') = 5000"
    by (simp add: l_def example_listener_def listener_start_def zstd_call_def id_zstd_def
        example_file_def)
  then have "length (contents (out_f l')) = 4096 \<and> length (z_pending l') = 904"
  proof -
    assume a: "4096 dvd length (contents (out_f l')) \<and> length (z_pending l') < 4096
      \<and> length (contents (out_f l') @ z_pending l') = 5000"
    then obtain q where q: "length (contents (out_f l')) = 4096 * q" by (auto simp: dvd_def)
    have "q = 1" using a q by (cases "q = 0"; cases "q = 1") auto
    with a q show ?thesis by simp
  qed
  with p show ?thesis by blast
qed

text \<open>C25. A raw trace is the concatenation of the received buffers, each padded with zeroes (or
  cut) to exactly 1 MB: nothing is lost below 1 MB, but the records of different buffers are
  separated by padding.\<close>

theorem raw_trace_contents:
  assumes "loop_state (listen_loop zs i es l c) l' c'"
    and "\<And>e. e \<in> set es \<Longrightarrow> length (le_shm e) = ALLOCATION_SIZE \<and> keeps_conf e"
    and "\<not> use_compression (conf c)" and "at_end (out_f l)" and "contents (out_f l) = []"
    and "data_written l = 0" and "length es < 2 ^ 15"
  shows "contents (out_f l') = concat (loop_padded zs i es l c)
    \<and> (\<forall>b. b \<notin> set (loop_padded zs i es l c) \<or> length b = CONSUMER_BUFFER_SIZE)"
proof -
  have "raw_inv 0 l c" using assms by (simp add: raw_inv_def)
  moreover have "0 + length es < 2 ^ 15" using assms(7) by simp
  ultimately have "contents (out_f l') = contents (out_f l) @ concat (loop_padded zs i es l c)"
    using raw_loop [OF assms(1,2)] by blast
  moreover have "length b = CONSUMER_BUFFER_SIZE" if "b \<in> set (loop_padded zs i es l c)" for b
    using that assms(2)
  proof (induction zs i es l c rule: loop_padded.induct)
    case (2 zs i e es l c)
    have "length (le_shm e) = ALLOCATION_SIZE" using 2(3) by simp
    then have "length (take CONSUMER_BUFFER_SIZE (take n (le_shm e)
        @ replicate (CONSUMER_BUFFER_SIZE - n) 0)) = CONSUMER_BUFFER_SIZE" for n
      by (simp add: min_def)
    with 2 show ?case
      by (cases "listen_iter zs i e l c") (auto simp: Let_def split: if_splits)
  qed simp
  ultimately show ?thesis using assms(5) by auto
qed


text \<open>A thread that never sent a buffer gets a trace all the same: the input descriptor still
  covers the whole shared memory when the frame is ended, so the file expands to the 2 MB that the
  shared memory happens to hold.\<close>

lemma empty_trace_holds_shared_memory:
  assumes "zstd_ok zs fed emitted bound expand"
    and "length mem = ALLOCATION_SIZE" and "contents f = []"
    and "listen_post zs True pe (listener_start zs True mon mem f) = Some (lf, named)"
    and "pe_written2 pe = int (length (z_pending lf))"
  shows "expand (contents (out_f lf)) = mem"
proof -
  let ?l = "listener_start zs True mon mem f"
  define r where "r = zstd_stream zs (zstd_create zs) True mem ZSTD_BUFFER_SIZE"
  define g where "g = file_write [] 0 (reopen True (close_file f))"
  have g: "contents g = []" "at_end g"
    using assms(3) by (simp_all add: g_def file_write_def reopen_at_end)
  have "zr_remaining r = 0 \<and> z_pending lf = zr_out r
      \<and> out_f lf = close_file (file_write (zr_out r) (pe_written2 pe) g)"
    using assms(2,4) unfolding r_def g_def
    by (auto simp: listen_post_def listener_start_def Let_def simp del: sizes split: if_splits)
  then have lf: "contents (out_f lf) = zr_out r" and rem: "zr_remaining r = 0"
    using g assms(5) by (simp_all add: file_write_all reopen_at_end)
  note call = zstd_ok_call [OF assms(1), where ctx = "zstd_create zs" and e = True and inp = mem
      and room = ZSTD_BUFFER_SIZE, folded r_def]
  have "emitted (zstd_create zs) = []" "fed (zstd_create zs) = []"
    using assms(1) by (simp_all add: zstd_ok_def)
  then show ?thesis using call(2,3,5,6) rem lf by simp
qed

lemma empty_trace_holds_shared_memory_witness:
  "\<exists>lf. listen_post id_zstd True \<lparr>pe_reopened = True, pe_written1 = 0, pe_written2 = 2097152,
       pe_renamed = True\<rparr> example_listener = Some (lf, True)
     \<and> contents (out_f lf) = example_mem 0 0"
proof -
  let ?pe = "\<lparr>pe_reopened = True, pe_written1 = 0, pe_written2 = 2097152, pe_renamed = True\<rparr>"
  have "\<exists>lf. listen_post id_zstd True ?pe example_listener = Some (lf, True)
      \<and> z_pending lf = take 2097152 (example_mem 0 0)"
    by (simp add: listen_post_def example_listener_def listener_start_def id_zstd_def Let_def)
  then obtain lf where lf: "listen_post id_zstd True ?pe example_listener = Some (lf, True)"
    and pend: "z_pending lf = take 2097152 (example_mem 0 0)" by blast
  have "id (contents (out_f lf)) = example_mem 0 0"
    by (rule empty_trace_holds_shared_memory [OF id_zstd_ok _ _ lf[unfolded example_listener_def]])
      (simp_all add: example_file_def pend)
  with lf show ?thesis by simp
qed

lemma raw_trace_contents_witness:
  defines "l \<equiv> listener_start id_zstd False example_monitor (example_mem 0 0) example_file"
    and "e \<equiv> (example_iter 24 7)\<lparr>le_written := 1048576\<rparr>"
    and "c \<equiv> InitThreadData (consumer_init settings_init)"
  shows "\<exists>l' c'. loop_state (listen_loop id_zstd 0 [e] l c) l' c'
    \<and> contents (out_f l') = concat (loop_padded id_zstd 0 [e] l c)"
proof -
  have "\<exists>l' c'. listen_iter id_zstd 0 e l c = Next l' c'"
    by (simp add: listen_eval session_defs l_def e_def c_def example_defs)
  then obtain l' c' where it: "listen_iter id_zstd 0 e l c = Next l' c'" by blast
  then have st: "loop_state (listen_loop id_zstd 0 [e] l c) l' c'"
    by (simp add: e_def example_iter_def)
  have "contents (out_f l') = concat (loop_padded id_zstd 0 [e] l c)
      \<and> (\<forall>b. b \<notin> set (loop_padded id_zstd 0 [e] l c) \<or> length b = CONSUMER_BUFFER_SIZE)"
    by (rule raw_trace_contents [OF st])
      (auto simp: l_def e_def c_def example_iter_def keeps_conf_def listener_start_def
        example_file_def at_end_def InitThreadData_def consumer_init_def settings_init_def Let_def)
  with st show ?thesis by blast
qed




end
