(* ===== verification/Buffer_Manager.thy ===== *)
theory Buffer_Manager
  imports Prelude
begin

text \<open>
  \<open>BUFFER_LIST_MANAGER\<close> of \<open>src/pintool/buffer_manager.cpp\<close> and \<open>buffers.h\<close>: a list of buffers,
  a semaphore that is set while buffers may be there, and an optional exit event.

  Pin's semaphores are a parameter (\<open>sem_api\<close>, with \<open>sem_ok\<close> their documented behaviour); its
  lock makes a critical section one step. The operations are given twice: as functions of one
  thread that runs alone (\<open>None\<close> where the call never returns), with the queue contract of the
  locale \<open>buffer_queue\<close>, and as the steps of several threads (\<open>bm_step\<close>), with what every
  interleaving guarantees.
\<close>

section \<open>State\<close>

record 's sem_api =
  SemaphoreInit :: "'s option"         \<comment> \<open>\<open>None\<close> where initialisation fails\<close>
  SemaphoreSet :: "'s \<Rightarrow> 's"
  SemaphoreClear :: "'s \<Rightarrow> 's"
  SemaphoreIsSet :: "'s \<Rightarrow> bool"

definition sem_ok :: "'s sem_api \<Rightarrow> bool" where
  "sem_ok api \<longleftrightarrow> (\<forall>s. SemaphoreIsSet api (SemaphoreSet api s))
     \<and> (\<forall>s. \<not> SemaphoreIsSet api (SemaphoreClear api s))
     \<and> (\<forall>s. SemaphoreInit api = Some s \<longrightarrow> \<not> SemaphoreIsSet api s)"

record buffer_element =
  be_buf :: u64
  numElements :: u64
  appThread :: nat          \<comment> \<open>the thread representative that owns the buffer\<close>
  be_index :: u32
  buf_field :: u32

record 's buffer_manager =
  exitEvent :: "'s option"  \<comment> \<open>\<open>None\<close> for the null pointer\<close>
  bufferSem :: 's
  bufferList :: "buffer_element list"

definition buffer_manager_ctor :: "'s sem_api \<Rightarrow> bool \<Rightarrow> fault + 's buffer_manager" where
  "buffer_manager_ctor api notifyExitRequired =
     (case SemaphoreInit api of
        None \<Rightarrow> Inl Exit_called
      | Some s \<Rightarrow>
         if notifyExitRequired
         then (case SemaphoreInit api of
                 None \<Rightarrow> Inl Exit_called
               | Some x \<Rightarrow> Inr \<lparr>exitEvent = Some x, bufferSem = s, bufferList = []\<rparr>)
         else Inr \<lparr>exitEvent = None, bufferSem = s, bufferList = []\<rparr>)"

definition exit_signaled :: "'s sem_api \<Rightarrow> 's buffer_manager \<Rightarrow> bool" where
  "exit_signaled api m = (case exitEvent m of None \<Rightarrow> False | Some x \<Rightarrow> SemaphoreIsSet api x)"

section \<open>The operations of one thread\<close>

text \<open>\<open>clock\<close> holds the two clock readings; the difference is stored where \<open>sync_time\<close> is given.\<close>

definition PutBufferOnList ::
    "'s sem_api \<Rightarrow> buffer_element \<Rightarrow> u64 \<times> u64 \<Rightarrow> 's buffer_manager
       \<Rightarrow> bool \<times> u64 \<times> 's buffer_manager" where
  "PutBufferOnList api e clock m =
     (if exit_signaled api m then (False, 0, m)
      else (let m = m\<lparr>bufferList := bufferList m @ [e]\<rparr>
            in (True, snd clock - fst clock, m\<lparr>bufferSem := SemaphoreSet api (bufferSem m)\<rparr>)))"

text \<open>\<open>Some (None, _)\<close> is the null pointer. Alone, a thread waits forever where the semaphore is
  clear, and polls forever where it is set over an empty list.\<close>

definition GetBufferFromList ::
    "'s sem_api \<Rightarrow> 's buffer_manager \<Rightarrow> (buffer_element option \<times> 's buffer_manager) option" where
  "GetBufferFromList api m =
     (if exit_signaled api m \<and> bufferList m = [] then Some (None, m)
      else if \<not> SemaphoreIsSet api (bufferSem m) then None
      else case bufferList m of
             e # es \<Rightarrow>
               (let m = m\<lparr>bufferList := es\<rparr>;
                    m = (if es = [] then m\<lparr>bufferSem := SemaphoreClear api (bufferSem m)\<rparr> else m)
                in Some (Some e, m))
           | [] \<Rightarrow> if exit_signaled api m then Some (None, m) else None)"

text \<open>With an exit event and a list that nobody empties, the loop does not end.\<close>

definition NotifyExit :: "'s sem_api \<Rightarrow> 's buffer_manager \<Rightarrow> 's buffer_manager option" where
  "NotifyExit api m =
     (case exitEvent m of
        None \<Rightarrow> Some m
      | Some x \<Rightarrow>
         (let m = m\<lparr>exitEvent := Some (SemaphoreSet api x)\<rparr>
          in if bufferList m \<noteq> [] then None
             else Some (m\<lparr>bufferSem := SemaphoreSet api (bufferSem m)\<rparr>)))"

section \<open>The contract of the free list\<close>

text \<open>A thread's own free list: what is put is got back in order, and a get returns as long as
  something is there.\<close>

locale buffer_queue =
  fixes put :: "'e \<Rightarrow> 'm \<Rightarrow> 'm"
    and get :: "'m \<Rightarrow> ('e \<times> 'm) option"
    and elems :: "'m \<Rightarrow> 'e list"
    and inv :: "'m \<Rightarrow> bool"
  assumes put_elems: "inv m \<Longrightarrow> elems (put e m) = elems m @ [e]"
    and put_inv: "inv m \<Longrightarrow> inv (put e m)"
    and get_elems: "inv m \<Longrightarrow> elems m = e # es \<Longrightarrow> \<exists>m'. get m = Some (e, m') \<and> elems m' = es \<and> inv m'"
    and get_empty: "inv m \<Longrightarrow> elems m = [] \<Longrightarrow> get m = None"
begin

definition put_all :: "'e list \<Rightarrow> 'm \<Rightarrow> 'm" where
  "put_all es m = fold put es m"

primrec get_n :: "nat \<Rightarrow> 'm \<Rightarrow> ('e list \<times> 'm) option" where
  "get_n 0 m = Some ([], m)"
| "get_n (Suc n) m = (case get m of None \<Rightarrow> None | Some (e, m') \<Rightarrow>
     (case get_n n m' of None \<Rightarrow> None | Some (es, m'') \<Rightarrow> Some (e # es, m'')))"

lemma put_all_elems: "inv m \<Longrightarrow> elems (put_all es m) = elems m @ es \<and> inv (put_all es m)"
  unfolding put_all_def by (induction es arbitrary: m) (simp_all add: put_elems put_inv)

lemma get_n_elems:
  "inv m \<Longrightarrow> elems m = xs @ ys \<Longrightarrow>
     \<exists>m'. get_n (length xs) m = Some (xs, m') \<and> elems m' = ys \<and> inv m'"
proof (induction xs arbitrary: m)
  case (Cons x xs)
  then obtain m1 where m1: "get m = Some (x, m1)" "elems m1 = xs @ ys" "inv m1"
    using get_elems [of m x "xs @ ys"] by auto
  with Cons.IH [OF m1(3,2)] show ?case by auto
qed simp

lemma put_all_get_n:
  assumes "inv m" and "elems m = []"
  shows "\<exists>m'. get_n (length es) (put_all es m) = Some (es, m') \<and> elems m' = [] \<and> inv m'"
  using get_n_elems [of "put_all es m" es "[]"] put_all_elems [of m es] assms by simp

end

definition put_free :: "'s sem_api \<Rightarrow> buffer_element \<Rightarrow> 's buffer_manager \<Rightarrow> 's buffer_manager" where
  "put_free api e m = snd (snd (PutBufferOnList api e (0, 0) m))"

definition get_free ::
    "'s sem_api \<Rightarrow> 's buffer_manager \<Rightarrow> (buffer_element \<times> 's buffer_manager) option" where
  "get_free api m = (case GetBufferFromList api m of Some (Some e, m') \<Rightarrow> Some (e, m') | _ \<Rightarrow> None)"

text \<open>A free list has no exit event, and its semaphore is set exactly while something is there.\<close>

definition free_list_ok :: "'s sem_api \<Rightarrow> 's buffer_manager \<Rightarrow> bool" where
  "free_list_ok api m \<longleftrightarrow> sem_ok api \<and> exitEvent m = None
     \<and> (SemaphoreIsSet api (bufferSem m) \<longleftrightarrow> bufferList m \<noteq> [])"

lemma exit_signaled_None [simp]: "exitEvent m = None \<Longrightarrow> \<not> exit_signaled api m"
  by (simp add: exit_signaled_def)

interpretation free_list: buffer_queue "put_free api" "get_free api" bufferList "free_list_ok api"
  for api :: "'s sem_api"
proof unfold_locales
  fix m :: "'s buffer_manager" and e es
  assume ok: "free_list_ok api m"
  show "bufferList (put_free api e m) = bufferList m @ [e]"
    using ok by (simp add: free_list_ok_def put_free_def PutBufferOnList_def Let_def)
  show "free_list_ok api (put_free api e m)"
    using ok by (simp add: free_list_ok_def put_free_def PutBufferOnList_def sem_ok_def
        exit_signaled_def Let_def)
  show "\<exists>m'. get_free api m = Some (e, m') \<and> bufferList m' = es \<and> free_list_ok api m'"
    if "bufferList m = e # es"
    using ok that by (auto simp: free_list_ok_def get_free_def GetBufferFromList_def sem_ok_def Let_def)
  show "get_free api m = None" if "bufferList m = []"
    using ok that by (simp add: free_list_ok_def get_free_def GetBufferFromList_def)
qed

section \<open>Several threads\<close>

text \<open>What the threads are doing: putters that passed the exit test, putters that pushed but did not
  yet set the semaphore, getters in the semaphore wait, getters that left it, a getter that took
  the last buffer and still has to clear the semaphore (it holds the lock), and the thread in
  \<open>NotifyExit\<close>. \<open>pushed\<close> and \<open>taken\<close> record the history.\<close>

datatype notifier = Not_notified | Testing | Leaving | Notified

record 's bm_conf =
  bm :: "'s buffer_manager"
  entered :: nat
  pending :: nat
  waiting :: nat
  woken :: nat
  clearing :: bool
  notifying :: notifier
  pushed :: "buffer_element list"
  taken :: "buffer_element list"

definition bm_start :: "'s buffer_manager \<Rightarrow> 's bm_conf" where
  "bm_start m = \<lparr>bm = m, entered = 0, pending = 0, waiting = 0, woken = 0, clearing = False,
     notifying = Not_notified, pushed = [], taken = []\<rparr>"

definition set_sem :: "'s sem_api \<Rightarrow> 's buffer_manager \<Rightarrow> 's buffer_manager" where
  "set_sem api m = m\<lparr>bufferSem := SemaphoreSet api (bufferSem m)\<rparr>"

definition clear_sem :: "'s sem_api \<Rightarrow> 's buffer_manager \<Rightarrow> 's buffer_manager" where
  "clear_sem api m = m\<lparr>bufferSem := SemaphoreClear api (bufferSem m)\<rparr>"

inductive bm_step :: "'s sem_api \<Rightarrow> 's bm_conf \<Rightarrow> 's bm_conf \<Rightarrow> bool" for api where
  put_enter: "\<not> exit_signaled api (bm c) \<Longrightarrow> bm_step api c (c\<lparr>entered := Suc (entered c)\<rparr>)"
| put_push: "entered c = Suc n \<Longrightarrow> \<not> clearing c \<Longrightarrow>
    bm_step api c (c\<lparr>entered := n, pending := Suc (pending c), pushed := pushed c @ [e],
      bm := (bm c)\<lparr>bufferList := bufferList (bm c) @ [e]\<rparr>\<rparr>)"
| put_set: "pending c = Suc n \<Longrightarrow>
    bm_step api c (c\<lparr>pending := n, bm := set_sem api (bm c)\<rparr>)"
| get_enter: "\<not> (exit_signaled api (bm c) \<and> bufferList (bm c) = []) \<Longrightarrow>
    bm_step api c (c\<lparr>waiting := Suc (waiting c)\<rparr>)"
| get_wake: "waiting c = Suc n \<Longrightarrow> SemaphoreIsSet api (bufferSem (bm c)) \<Longrightarrow>
    bm_step api c (c\<lparr>waiting := n, woken := Suc (woken c)\<rparr>)"
| get_pop: "woken c = Suc n \<Longrightarrow> \<not> clearing c \<Longrightarrow> bufferList (bm c) = e # es \<Longrightarrow>
    bm_step api c (c\<lparr>woken := n, clearing := (es = []), taken := taken c @ [e],
      bm := (bm c)\<lparr>bufferList := es\<rparr>\<rparr>)"
| get_clear: "clearing c \<Longrightarrow>
    bm_step api c (c\<lparr>clearing := False, bm := clear_sem api (bm c)\<rparr>)"
| get_leave: "woken c = Suc n \<Longrightarrow> \<not> clearing c \<Longrightarrow> bufferList (bm c) = [] \<Longrightarrow>
    bm_step api c (c\<lparr>woken := n\<rparr>)"   \<comment> \<open>the null pointer after the exit event, else another poll\<close>
| notify_start: "exitEvent (bm c) = Some x \<Longrightarrow> notifying c = Not_notified \<Longrightarrow>
    bm_step api c (c\<lparr>notifying := Testing, bm := (bm c)\<lparr>exitEvent := Some (SemaphoreSet api x)\<rparr>\<rparr>)"
| notify_spin: "notifying c = Testing \<Longrightarrow> bufferList (bm c) \<noteq> [] \<Longrightarrow>
    bm_step api c (c\<lparr>bm := set_sem api (bm c)\<rparr>)"
| notify_empty: "notifying c = Testing \<Longrightarrow> bufferList (bm c) = [] \<Longrightarrow>
    bm_step api c (c\<lparr>notifying := Leaving\<rparr>)"
| notify_final: "notifying c = Leaving \<Longrightarrow>
    bm_step api c (c\<lparr>notifying := Notified, bm := set_sem api (bm c)\<rparr>)"

inductive_cases bm_stepE: "bm_step api c c'"

abbreviation bm_reachable :: "'s sem_api \<Rightarrow> 's buffer_manager \<Rightarrow> 's bm_conf \<Rightarrow> bool" where
  "bm_reachable api m0 \<equiv> runs (bm_step api) (bm_start m0)"

lemmas bm_next [trans] = runs_step [where step = "bm_step api"] for api

definition bm_inv :: "'s sem_api \<Rightarrow> 's bm_conf \<Rightarrow> bool" where
  "bm_inv api c \<longleftrightarrow> pushed c = taken c @ bufferList (bm c)
     \<and> (clearing c \<longrightarrow> bufferList (bm c) = [])
     \<and> (bufferList (bm c) \<noteq> [] \<longrightarrow> SemaphoreIsSet api (bufferSem (bm c)) \<or> 0 < pending c)"

lemmas sem_defs = set_sem_def clear_sem_def

lemma bm_step_inv: "bm_step api c c' \<Longrightarrow> sem_ok api \<Longrightarrow> bm_inv api c \<Longrightarrow> bm_inv api c'"
  by (induction rule: bm_step.induct) (auto simp: bm_inv_def sem_defs sem_ok_def)

interpretation bm_safe: preserved "bm_step api" "\<lambda>c. sem_ok api \<and> bm_inv api c" for api
  by unfold_locales (simp add: bm_step_inv)

lemma bm_reachable_inv:
  "bm_reachable api m0 c \<Longrightarrow> sem_ok api \<Longrightarrow> bufferList m0 = [] \<Longrightarrow> bm_inv api c"
  by (drule bm_safe.runs_keep) (simp_all add: bm_inv_def bm_start_def)

text \<open>Stuck after \<open>NotifyExit\<close> has returned, with a getter still waiting.\<close>

definition exit_deadlock :: "'s sem_api \<Rightarrow> 's bm_conf \<Rightarrow> bool" where
  "exit_deadlock api c \<longleftrightarrow> notifying c = Notified \<and> exit_signaled api (bm c) \<and> 0 < waiting c
     \<and> (\<forall>c'. \<not> bm_step api c c')"

subsection \<open>The race of \<open>NotifyExit\<close>\<close>

definition race ::
    "'s \<Rightarrow> 's \<Rightarrow> buffer_element list \<Rightarrow> nat list \<Rightarrow> bool \<Rightarrow> notifier \<Rightarrow> buffer_element list
       \<Rightarrow> buffer_element list \<Rightarrow> 's bm_conf" where
  "race x s l ns cl no pu ta = \<lparr>bm = \<lparr>exitEvent = Some x, bufferSem = s, bufferList = l\<rparr>,
     entered = ns ! 0, pending = ns ! 1, waiting = ns ! 2, woken = ns ! 3, clearing = cl,
     notifying = no, pushed = pu, taken = ta\<rparr>"

lemmas race_defs = race_def exit_signaled_def sem_defs bm_start_def

text \<open>A buffer is put, two getters wait, one of them takes the buffer and is about to clear.\<close>

lemma race_setup:
  assumes "sem_ok api" and "\<not> SemaphoreIsSet api x"
  shows "bm_reachable api \<lparr>exitEvent = Some x, bufferSem = s, bufferList = []\<rparr>
    (race x (SemaphoreSet api s) [] [0, 0, 1, 0] True Not_notified [e] [e])"
proof -
  let ?S = "SemaphoreSet api" and ?r = "\<lambda>s l ns. race x s l ns False Not_notified"
  have s: "SemaphoreIsSet api (?S y)" for y using assms(1) by (simp add: sem_ok_def)
  have "bm_reachable api \<lparr>exitEvent = Some x, bufferSem = s, bufferList = []\<rparr> (?r s [] [0, 0, 0, 0] [] [])"
    using runs_refl by (simp add: race_defs)
  also have "bm_step api (?r s [] [0, 0, 0, 0] [] []) (?r s [] [1, 0, 0, 0] [] [])"
    using put_enter [of api "?r s [] [0, 0, 0, 0] [] []"] assms(2) by (simp add: race_defs)
  also have "bm_step api (?r s [] [1, 0, 0, 0] [] []) (?r s [e] [0, 1, 0, 0] [e] [])"
    using put_push [of "?r s [] [1, 0, 0, 0] [] []" 0 api e] by (simp add: race_defs)
  also have "bm_step api (?r s [e] [0, 1, 0, 0] [e] []) (?r (?S s) [e] [0, 0, 0, 0] [e] [])"
    using put_set [of "?r s [e] [0, 1, 0, 0] [e] []" 0 api] by (simp add: race_defs)
  also have "bm_step api (?r (?S s) [e] [0, 0, 0, 0] [e] []) (?r (?S s) [e] [0, 0, 1, 0] [e] [])"
    using get_enter [of api "?r (?S s) [e] [0, 0, 0, 0] [e] []"] by (simp add: race_defs)
  also have "bm_step api (?r (?S s) [e] [0, 0, 1, 0] [e] []) (?r (?S s) [e] [0, 0, Suc 1, 0] [e] [])"
    using get_enter [of api "?r (?S s) [e] [0, 0, 1, 0] [e] []"] by (simp add: race_defs)
  also have "bm_step api (?r (?S s) [e] [0, 0, Suc 1, 0] [e] []) (?r (?S s) [e] [0, 0, 1, 1] [e] [])"
    using get_wake [of "?r (?S s) [e] [0, 0, Suc 1, 0] [e] []" 1 api] s by (simp add: race_defs)
  also have "bm_step api (?r (?S s) [e] [0, 0, 1, 1] [e] [])
      (race x (?S s) [] [0, 0, 1, 0] True Not_notified [e] [e])"
    using get_pop [of "?r (?S s) [e] [0, 0, 1, 1] [e] []" 0 e "[]" api] by (simp add: race_defs)
  finally show ?thesis .
qed

text \<open>\<open>NotifyExit\<close> runs in between, then the getter clears.\<close>

lemma race_end:
  assumes "bm_reachable api m0 (race x s [] [0, 0, 1, 0] True Not_notified [e] [e])"
  shows "bm_reachable api m0 (race (SemaphoreSet api x) (SemaphoreClear api (SemaphoreSet api s)) []
    [0, 0, 1, 0] False Notified [e] [e])"
proof -
  let ?S = "SemaphoreSet api" and ?r = "\<lambda>x s cl no. race x s [] [0, 0, 1, 0] cl no [e] [e]"
  note assms
  also have "bm_step api (?r x s True Not_notified) (?r (?S x) s True Testing)"
    using notify_start [of "?r x s True Not_notified" x api] by (simp add: race_defs)
  also have "bm_step api (?r (?S x) s True Testing) (?r (?S x) s True Leaving)"
    using notify_empty [of "?r (?S x) s True Testing" api] by (simp add: race_defs)
  also have "bm_step api (?r (?S x) s True Leaving) (?r (?S x) (?S s) True Notified)"
    using notify_final [of "?r (?S x) s True Leaving" api] by (simp add: race_defs)
  also have "bm_step api (?r (?S x) (?S s) True Notified)
      (?r (?S x) (SemaphoreClear api (?S s)) False Notified)"
    using get_clear [of "?r (?S x) (?S s) True Notified" api] by (simp add: race_defs)
  finally show ?thesis .
qed

section \<open>What every interleaving guarantees\<close>

text \<open>An example of semaphores: a flag.\<close>

definition flag_sem :: "bool sem_api" where
  "flag_sem = \<lparr>SemaphoreInit = Some False, SemaphoreSet = (\<lambda>_. True), SemaphoreClear = (\<lambda>_. False),
     SemaphoreIsSet = id\<rparr>"

lemma flag_sem_ok: "sem_ok flag_sem"
  by (simp add: sem_ok_def flag_sem_def)

definition example_bm :: "bool buffer_manager" where
  "example_bm = \<lparr>exitEvent = Some False, bufferSem = False, bufferList = []\<rparr>"

text \<open>The specification: a queue with the history of what was put and what was taken.\<close>

type_synonym queue_state = "buffer_element list \<times> buffer_element list \<times> buffer_element list"

inductive queue_step :: "queue_state \<Rightarrow> queue_state \<Rightarrow> bool" where
  q_put: "queue_step (p, t, q) (p @ [e], t, q @ [e])"
| q_take: "queue_step (p, t, e # q) (p, t @ [e], q)"
| q_stutter: "queue_step s s"

definition bm_abs :: "'s bm_conf \<Rightarrow> queue_state" where
  "bm_abs c = (pushed c, taken c, bufferList (bm c))"

lemma bm_step_simulates: "bm_step api c c' \<Longrightarrow> queue_step (bm_abs c) (bm_abs c')"
  by (induction rule: bm_step.induct) (auto simp: bm_abs_def sem_defs intro: queue_step.intros)

text \<open>C33. The buffer manager refines a queue: under every interleaving of putters, getters and
  \<open>NotifyExit\<close>, each step puts one buffer at the end, takes the one at the front, or leaves the
  queue alone; so the buffers handed out, followed by those on the list, are exactly the buffers
  put, in order.\<close>

theorem buffer_manager_refines_queue:
  assumes "sem_ok api" and "bufferList m0 = []" and "bm_reachable api m0 c" and "bm_step api c c'"
  shows "queue_step (bm_abs c) (bm_abs c') \<and> pushed c' = taken c' @ bufferList (bm c')"
  using bm_step_simulates [OF assms(4)] bm_reachable_inv [OF bm_next [OF assms(3,4)] assms(1,2)]
  by (simp add: bm_inv_def)

lemma example_put:
  "bm_reachable flag_sem example_bm ((bm_start example_bm)\<lparr>bm := \<lparr>exitEvent = Some False,
     bufferSem = True, bufferList = [e]\<rparr>, waiting := 1, pushed := [e]\<rparr>)"
proof -
  let ?r = "\<lambda>s l ns pu. race False s l ns False Not_notified pu []"
  have "bm_reachable flag_sem example_bm (?r False [] [0, 0, 0, 0] [])"
    using runs_refl [of "bm_step flag_sem" "bm_start example_bm"] by (simp add: race_defs example_bm_def)
  also have "bm_step flag_sem (?r False [] [0, 0, 0, 0] []) (?r False [] [1, 0, 0, 0] [])"
    using put_enter [of flag_sem "?r False [] [0, 0, 0, 0] []"] by (simp add: race_defs flag_sem_def)
  also have "bm_step flag_sem (?r False [] [1, 0, 0, 0] []) (?r False [e] [0, 1, 0, 0] [e])"
    using put_push [of "?r False [] [1, 0, 0, 0] []" 0 flag_sem e] by (simp add: race_defs)
  also have "bm_step flag_sem (?r False [e] [0, 1, 0, 0] [e]) (?r True [e] [0, 0, 0, 0] [e])"
    using put_set [of "?r False [e] [0, 1, 0, 0] [e]" 0 flag_sem] by (simp add: race_defs flag_sem_def)
  also have "bm_step flag_sem (?r True [e] [0, 0, 0, 0] [e]) (?r True [e] [0, 0, 1, 0] [e])"
    using get_enter [of flag_sem "?r True [e] [0, 0, 0, 0] [e]"] by (simp add: race_defs flag_sem_def)
  finally have "bm_reachable flag_sem example_bm (?r True [e] [0, 0, 1, 0] [e])"
    .
  then show ?thesis by (simp add: race_defs)
qed

definition example_element :: buffer_element where
  "example_element = \<lparr>be_buf = 4096, numElements = 0, appThread = 1, be_index = 0, buf_field = 0\<rparr>"

definition example_waiting :: "bool bm_conf" where
  "example_waiting = (bm_start example_bm)\<lparr>bm := \<lparr>exitEvent = Some False, bufferSem = True,
     bufferList = [example_element]\<rparr>, waiting := 1, pushed := [example_element]\<rparr>"

lemma buffer_manager_refines_queue_witness:
  "queue_step (bm_abs example_waiting) (bm_abs (example_waiting\<lparr>waiting := 0, woken := 1\<rparr>))
   \<and> bufferList (bm (example_waiting\<lparr>waiting := 0, woken := 1\<rparr>)) = [example_element]"
proof -
  have "bm_step flag_sem example_waiting (example_waiting\<lparr>waiting := 0, woken := Suc (woken example_waiting)\<rparr>)"
    by (rule get_wake) (simp_all add: example_waiting_def bm_start_def flag_sem_def)
  then show ?thesis
    using buffer_manager_refines_queue [OF flag_sem_ok _ example_put [of example_element, folded example_waiting_def]]
    by (simp add: example_bm_def example_waiting_def bm_start_def)
qed

text \<open>C34. No wake-up is lost while buffers are there: under every interleaving, when the list is not
  empty and no putter is between its push and its signal, the semaphore is set, so a waiting
  getter can go on, take a buffer, and only the getter that empties the list clears it.\<close>

theorem no_lost_wakeup:
  assumes "sem_ok api" and "bufferList m0 = []" and "bm_reachable api m0 c"
    and "bufferList (bm c) \<noteq> []" and "pending c = 0" and "waiting c \<noteq> 0"
  shows "\<exists>c1 c2 e. bm_step api c c1 \<and> bm_step api c1 c2 \<and> taken c2 = taken c @ [e]
    \<and> bufferList (bm c) = e # bufferList (bm c2)"
proof -
  have inv: "bm_inv api c" by (rule bm_reachable_inv [OF assms(3,1,2)])
  obtain n where n: "waiting c = Suc n" using assms(6) not0_implies_Suc by blast
  obtain e es where es: "bufferList (bm c) = e # es" using assms(4) by (cases "bufferList (bm c)") auto
  let ?c1 = "c\<lparr>waiting := n, woken := Suc (woken c)\<rparr>"
  let ?c2 = "?c1\<lparr>woken := woken c, clearing := (es = []), taken := taken ?c1 @ [e],
      bm := (bm ?c1)\<lparr>bufferList := es\<rparr>\<rparr>"
  have "bm_step api c ?c1"
    using inv assms(4,5) by (intro get_wake [OF n]) (simp add: bm_inv_def)
  moreover have "bm_step api ?c1 ?c2"
    using inv es by (intro get_pop) (auto simp: bm_inv_def)
  moreover have "taken ?c2 = taken c @ [e] \<and> bufferList (bm c) = e # bufferList (bm ?c2)"
    using es by simp
  ultimately show ?thesis by blast
qed

lemma no_lost_wakeup_witness:
  "\<exists>c c1 c2. bm_reachable flag_sem example_bm c \<and> bm_step flag_sem c c1 \<and> bm_step flag_sem c1 c2
     \<and> taken c2 = [example_element]"
proof -
  let ?c = "(bm_start example_bm)\<lparr>bm := \<lparr>exitEvent = Some False, bufferSem = True,
     bufferList = [example_element]\<rparr>, waiting := 1, pushed := [example_element]\<rparr>"
  have "\<exists>c1 c2 e. bm_step flag_sem ?c c1 \<and> bm_step flag_sem c1 c2 \<and> taken c2 = taken ?c @ [e]
      \<and> bufferList (bm ?c) = e # bufferList (bm c2)"
    by (rule no_lost_wakeup [OF flag_sem_ok _ example_put])
      (simp_all add: example_bm_def bm_start_def)
  then show ?thesis using example_put by (fastforce simp: bm_start_def)
qed

text \<open>C35. The exit protocol can lose the wake-up of \<open>NotifyExit\<close>: a getter that took the last buffer
  clears the semaphore after \<open>NotifyExit\<close> saw the empty list and set it for the last time; another
  getter then waits forever, although the exit event is signaled and the comment says that the
  semaphore stays set.\<close>

theorem exit_wakeup_can_be_lost:
  assumes "sem_ok api" and "bufferList m0 = []" and "exitEvent m0 = Some x"
    and "\<not> SemaphoreIsSet api x"
  shows "\<exists>c. bm_reachable api m0 c \<and> exit_deadlock api c"
proof -
  let ?c = "race (SemaphoreSet api x) (SemaphoreClear api (SemaphoreSet api (SemaphoreSet api (bufferSem m0))))
    [] [0, 0, 1, 0] False Notified [undefined] [undefined]"
  have "m0 = \<lparr>exitEvent = Some x, bufferSem = bufferSem m0, bufferList = []\<rparr>"
    using assms(2,3) by simp
  then have "bm_reachable api m0 ?c"
    using race_end [OF race_setup [OF assms(1,4)]] by metis
  moreover have "exit_deadlock api ?c"
    using assms(1) by (auto simp: exit_deadlock_def race_defs sem_ok_def elim!: bm_stepE)
  ultimately show ?thesis by blast
qed

lemma exit_wakeup_can_be_lost_witness: "\<exists>c. bm_reachable flag_sem example_bm c \<and> exit_deadlock flag_sem c"
  by (rule exit_wakeup_can_be_lost [OF flag_sem_ok, where x = False])
    (simp_all add: example_bm_def flag_sem_def)

end
