(* ===== verification/Statistics.thy ===== *)
theory Statistics
  imports Float64 "HOL-Library.Multiset"
begin

text \<open>
  \<open>src/pintool/statistics.cpp\<close> and \<open>statistics.h\<close>: the per-thread and the overall counters of the
  tool. The \<open>std::map\<close> of instruction frequencies is the list of its entries in key order. The
  clock and the output file are arguments and results; the mutexes make each call one step.
\<close>

section \<open>Instruction frequencies\<close>

type_synonym freqs = "(u64 \<times> u64) list"

fun add_freq :: "u64 \<Rightarrow> u64 \<Rightarrow> freqs \<Rightarrow> freqs" where
  "add_freq pc n [] = [(pc, n)]"
| "add_freq pc n ((q, k) # m) =
     (if pc < q then (pc, n) # (q, k) # m
      else if pc = q then (q, k + n) # m
      else (q, k) # add_freq pc n m)"

definition freqs_ok :: "freqs \<Rightarrow> bool" where
  "freqs_ok m \<longleftrightarrow> sorted (map fst m) \<and> distinct (map fst m)"

definition count_of :: "u64 \<Rightarrow> freqs \<Rightarrow> u64" where
  "count_of q m = (case map_of m q of None \<Rightarrow> 0 | Some n \<Rightarrow> n)"

lemma count_of_simps [simp]:
  "count_of q [] = 0" "count_of q ((p, n) # m) = (if q = p then n else count_of q m)"
  by (simp_all add: count_of_def)

lemma count_of_absent [simp]: "q \<notin> fst ` set m \<Longrightarrow> count_of q m = 0"
  by (simp add: count_of_def map_of_eq_None_iff [symmetric])

lemma keys_add_freq [simp]: "fst ` set (add_freq pc n m) = insert pc (fst ` set m)"
  by (induction pc n m rule: add_freq.induct) auto

lemma add_freq_ok: "freqs_ok m \<Longrightarrow> freqs_ok (add_freq pc n m)"
proof (induction pc n m rule: add_freq.induct)
  case (2 pc n q k m)
  then have IH: "\<not> pc < q \<Longrightarrow> pc \<noteq> q \<Longrightarrow> freqs_ok (add_freq pc n m)"
    by (simp add: freqs_ok_def)
  show ?case
    using 2(2) IH keys_add_freq [of pc n m] by (auto simp: freqs_ok_def)
qed (simp add: freqs_ok_def)

lemma count_add_freq:
  "freqs_ok m \<Longrightarrow> count_of q (add_freq pc n m) = count_of q m + (if q = pc then n else 0)"
proof (induction pc n m rule: add_freq.induct)
  case (2 pc n p k m)
  then have "pc \<notin> fst ` set m" if "pc < p"
    using that by (fastforce simp: freqs_ok_def)
  with 2 show ?case by (auto simp: freqs_ok_def)
qed simp

definition add_freqs :: "freqs \<Rightarrow> freqs \<Rightarrow> freqs" where
  "add_freqs new m = fold (\<lambda>(pc, n). add_freq pc n) new m"

lemma add_freqs_ok: "freqs_ok m \<Longrightarrow> freqs_ok (add_freqs new m)"
  unfolding add_freqs_def by (induction new arbitrary: m) (auto simp: add_freq_ok)

lemma count_add_freqs:
  "freqs_ok m \<Longrightarrow> distinct (map fst new) \<Longrightarrow>
     count_of q (add_freqs new m) = count_of q m + count_of q new"
  unfolding add_freqs_def
  by (induction new arbitrary: m) (auto simp: add_freq_ok count_add_freq)

section \<open>Statistics of an application thread\<close>

record app_stats =
  st_elements :: u64
  st_filled :: u32
  st_processed :: u32
  st_pause :: u64
  st_lock_time :: u64
  st_ins :: u64
  st_mem_ins :: u64
  st_ins_freqs :: freqs
  st_timer :: u64

definition app_stats_init :: app_stats where
  "app_stats_init = \<lparr>st_elements = 0, st_filled = 0, st_processed = 0, st_pause = 0,
     st_lock_time = 0, st_ins = 0, st_mem_ins = 0, st_ins_freqs = [], st_timer = 0\<rparr>"

definition AddNumElementsProcessed :: "u64 \<Rightarrow> app_stats \<Rightarrow> app_stats" where
  "AddNumElementsProcessed n s = s\<lparr>st_elements := st_elements s + n\<rparr>"

definition IncPauseInstructions :: "app_stats \<Rightarrow> app_stats" where
  "IncPauseInstructions s = s\<lparr>st_pause := st_pause s + 1\<rparr>"

definition AddPthreadLockTime :: "u64 \<Rightarrow> app_stats \<Rightarrow> app_stats" where
  "AddPthreadLockTime t s = s\<lparr>st_lock_time := st_lock_time s + t\<rparr>"

definition IncrementInsFreq :: "u64 \<Rightarrow> app_stats \<Rightarrow> app_stats" where
  "IncrementInsFreq pc s = s\<lparr>st_ins_freqs := add_freq pc 1 (st_ins_freqs s)\<rparr>"

definition IncrementInsExecuted :: "u64 \<Rightarrow> u64 \<Rightarrow> app_stats \<Rightarrow> app_stats" where
  "IncrementInsExecuted ins mem_ins s =
     s\<lparr>st_ins := st_ins s + ins, st_mem_ins := st_mem_ins s + mem_ins\<rparr>"

definition IncrementNumBuffersProcessedInAppThread :: "app_stats \<Rightarrow> app_stats" where
  "IncrementNumBuffersProcessedInAppThread s = s\<lparr>st_processed := st_processed s + 1\<rparr>"

definition IncrementNumBuffersFilled :: "app_stats \<Rightarrow> app_stats" where
  "IncrementNumBuffersFilled s = s\<lparr>st_filled := st_filled s + 1\<rparr>"

section \<open>Overall statistics\<close>

record overall_stats =
  o_elements :: u64
  o_filled :: u32
  o_processed :: u32
  o_pause :: u64
  o_lock_time :: u64
  o_progTime :: u64
  o_ins :: u64
  o_mem_ins :: u64
  o_timeSet :: bool
  o_to_stderr :: bool       \<comment> \<open>no statistics file was given\<close>
  o_ins_freqs :: freqs
  o_per_thread :: "freqs list"

text \<open>\<open>Init\<close> does not touch the instruction counters, which start at 0.\<close>

definition overall_init :: "string \<Rightarrow> u64 \<Rightarrow> overall_stats \<Rightarrow> overall_stats" where
  "overall_init outfile now s =
     s\<lparr>o_to_stderr := (outfile = []), o_elements := 0, o_filled := 0, o_processed := 0, o_pause := 0,
       o_lock_time := 0, o_timeSet := False, o_ins_freqs := [], o_per_thread := [],
       o_progTime := now\<rparr>"

definition AccumulateAppThreadStatistics :: "app_stats \<Rightarrow> overall_stats \<Rightarrow> overall_stats" where
  "AccumulateAppThreadStatistics t s =
     (let s = s\<lparr>o_ins := o_ins s + st_ins t, o_mem_ins := o_mem_ins s + st_mem_ins t,
                o_elements := o_elements s + st_elements t, o_filled := o_filled s + st_filled t,
                o_processed := o_processed s + st_processed t, o_pause := o_pause s + st_pause t,
                o_lock_time := o_lock_time s + st_lock_time t\<rparr>
      in if st_ins_freqs t \<noteq> []
         then s\<lparr>o_per_thread := o_per_thread s @ [st_ins_freqs t],
                o_ins_freqs := add_freqs (st_ins_freqs t) (o_ins_freqs s)\<rparr>
         else s)"

definition StartTime :: "u64 \<Rightarrow> overall_stats \<Rightarrow> overall_stats" where
  "StartTime now s = s\<lparr>o_progTime := now\<rparr>"

definition EndTime :: "u64 \<Rightarrow> overall_stats \<Rightarrow> overall_stats" where
  "EndTime now s =
     (if o_timeSet s then s else s\<lparr>o_progTime := now - o_progTime s, o_timeSet := True\<rparr>)"

datatype stat_value = StatU u64 | StatF f64

definition MEMREF_SIZE :: u64 where
  "MEMREF_SIZE = 24"

definition Dump :: "overall_stats \<Rightarrow> (string \<times> stat_value) list" where
  "Dump s =
     (let data_rate = f64_of_u64 (o_elements s * MEMREF_SIZE) / f64_of_u64 (o_progTime s) / fl 1000;
          total_time = f64_of_u64 (o_progTime s) / fl 1000000;
          pthread_lock_e9 = f64_of_u64 (o_lock_time s) / fl 1000000000
      in [(''Total Time Profiled (s)'', StatF total_time),
          (''Memory Accesses Processed'', StatU (o_elements s)),
          (''Raw Data Rate (GB/s)'', StatF data_rate),
          (''Non-Memory Instructions Executed'', StatU (o_ins s)),
          (''Memory Instructions Executed'', StatU (o_elements s)),
          (''Pause Instructions'', StatU (o_pause s)),
          (''Pthread Lock Time (1e9 cycles)'', StatF pthread_lock_e9)])"

section \<open>What the statistics guarantee\<close>

lemma fold_accumulate:
  assumes "freqs_ok (o_ins_freqs s)" and "\<forall>t\<in>set ts. freqs_ok (st_ins_freqs t)"
  defines "s' \<equiv> fold AccumulateAppThreadStatistics ts s"
  shows "o_elements s' = o_elements s + sum_list (map st_elements ts)
    \<and> o_filled s' = o_filled s + sum_list (map st_filled ts)
    \<and> o_ins s' = o_ins s + sum_list (map st_ins ts)
    \<and> o_mem_ins s' = o_mem_ins s + sum_list (map st_mem_ins ts)
    \<and> o_pause s' = o_pause s + sum_list (map st_pause ts)
    \<and> o_lock_time s' = o_lock_time s + sum_list (map st_lock_time ts)
    \<and> (\<forall>pc. count_of pc (o_ins_freqs s')
         = count_of pc (o_ins_freqs s) + sum_list (map (\<lambda>t. count_of pc (st_ins_freqs t)) ts))
    \<and> freqs_ok (o_ins_freqs s')"
  unfolding s'_def using assms(1,2)
proof (induction ts arbitrary: s)
  case (Cons t ts)
  have t: "freqs_ok (st_ins_freqs t)" using Cons.prems by simp
  then have "distinct (map fst (st_ins_freqs t))" by (simp add: freqs_ok_def)
  note c = count_add_freqs [OF Cons.prems(1) this]
  have "freqs_ok (o_ins_freqs (AccumulateAppThreadStatistics t s))"
    using Cons.prems(1) by (simp add: AccumulateAppThreadStatistics_def add_freqs_ok Let_def)
  from Cons.IH [OF this] Cons.prems(2) show ?case
    by (simp add: AccumulateAppThreadStatistics_def c Let_def)
qed simp


definition example_stats :: "u64 \<Rightarrow> app_stats" where
  "example_stats n = IncrementInsFreq n (IncrementInsFreq 7
     (IncrementInsExecuted (2 * n) n (AddNumElementsProcessed n app_stats_init)))"

definition overall_zero :: overall_stats where
  "overall_zero = \<lparr>o_elements = 0, o_filled = 0, o_processed = 0, o_pause = 0, o_lock_time = 0,
     o_progTime = 0, o_ins = 0, o_mem_ins = 0, o_timeSet = False, o_to_stderr = True,
     o_ins_freqs = [], o_per_thread = []\<rparr>"

lemmas example_stats_defs = example_stats_def IncrementInsFreq_def IncrementInsExecuted_def
  AddNumElementsProcessed_def app_stats_init_def overall_zero_def


text \<open>The time profiled is the span from the last start to the first end: a second
  \<open>EndTime\<close> (the tool calls it for an early end of the trace and again at exit) changes nothing.\<close>

lemma EndTime_once:
  "EndTime later (EndTime now (StartTime start (overall_init outfile t s)))
     = EndTime now (StartTime start (overall_init outfile t s))
   \<and> o_progTime (EndTime now (StartTime start (overall_init outfile t s))) = now - start"
  by (simp add: EndTime_def StartTime_def overall_init_def)

end
