(* ===== verification/App_Representative.thy ===== *)
theory App_Representative
  imports Buffer_Manager Statistics
begin

text \<open>
  \<open>APP_THREAD_REPRESENTITVE\<close> of \<open>src/pintool/app_representative.cpp\<close> and \<open>buffers.h\<close>: the state of
  one traced thread and the life of its buffers. The calls of Pin that allocate, protect and free
  memory are recorded as \<open>pin_event\<close>s; the addresses Pin returns are arguments. A null pointer is 0,
  the shared memory is its contents. \<open>EnqueueFullAndGetNextToFill\<close>, which hands a buffer to the
  consumer, is in the theory of \<open>bullettime.cpp\<close>.
\<close>

section \<open>State\<close>

definition NUM_BUF_TYPES :: nat where
  "NUM_BUF_TYPES = 1"

definition APP_BUFFERS :: nat where
  "APP_BUFFERS = 2"

record 's app_thread =
  thread_ref :: nat            \<comment> \<open>the identity of the object\<close>
  myTid :: u32
  currentBufs :: "u64 list"
  numBufferElements :: u64
  shared_mem :: "byte list option"
  shared_mem_size :: u64
  shm_fd :: int
  sock_rdy :: int
  sock_size :: int
  last_ins_executed :: u64
  last_mem_ins_executed :: u64
  last_bblocks_executed :: u64
  fcalls_executed :: u64
  last_fcalls_executed :: u64
  buf_gen_time :: "u64 list"
  free_lists :: "'s buffer_manager list"
  allocated :: "u32 list"
  stats :: app_stats

datatype pin_event = Allocated u64 | Protected u64 u64 | Deallocated u64

definition app_thread_ctor :: "'s sem_api \<Rightarrow> nat \<Rightarrow> u32 \<Rightarrow> fault + 's app_thread" where
  "app_thread_ctor api this tid =
     (case map_fault (\<lambda>i. buffer_manager_ctor api False) [0..<NUM_BUF_TYPES] of
        Inl e \<Rightarrow> Inl e
      | Inr managers \<Rightarrow> Inr
          \<lparr>thread_ref = this, myTid = tid, currentBufs = replicate NUM_BUF_TYPES 0,
           numBufferElements = 0, shared_mem = None, shared_mem_size = 0, shm_fd = 0,
           sock_rdy = - 1, sock_size = - 1, last_ins_executed = 0, last_mem_ins_executed = 0,
           last_bblocks_executed = 0, fcalls_executed = 0, last_fcalls_executed = 0,
           buf_gen_time = replicate NUM_BUF_TYPES 0, free_lists = managers,
           allocated = replicate NUM_BUF_TYPES 0, stats = app_stats_init\<rparr>)"

section \<open>Allocating the free buffers\<close>

definition free_element :: "nat \<Rightarrow> nat \<Rightarrow> u64 \<Rightarrow> buffer_element" where
  "free_element this buf_type buf = \<lparr>be_buf = buf, numElements = 0, appThread = this, be_index = 0,
     buf_field = of_nat buf_type\<rparr>"

definition alloc_one ::
    "'s sem_api \<Rightarrow> u64 \<Rightarrow> nat \<Rightarrow> u64 \<Rightarrow> pin_event list \<times> 's app_thread \<Rightarrow> pin_event list \<times> 's app_thread" where
  "alloc_one api buf_size buf_type buf = (\<lambda>(es, a).
     (es @ [Allocated buf, Protected buf buf_size],
      a\<lparr>free_lists := vec_upd buf_type (put_free api (free_element (thread_ref a) buf_type buf))
                        (free_lists a),
        allocated := vec_upd buf_type (\<lambda>n. n + 1) (allocated a)\<rparr>))"

text \<open>\<open>bufs i\<close> is what the \<open>i\<close>-th \<open>PIN_AllocateBuffer\<close> returns.\<close>

definition AllocateBuffers ::
    "'s sem_api \<Rightarrow> u64 \<Rightarrow> (nat \<Rightarrow> u64) \<Rightarrow> nat \<Rightarrow> 's app_thread \<Rightarrow> pin_event list \<times> 's app_thread" where
  "AllocateBuffers api buf_size bufs buf_type a =
     (if allocated a ! buf_type \<noteq> 0 then ([], a)
      else fold (alloc_one api buf_size buf_type) (map bufs [0..<APP_BUFFERS]) ([], a))"

section \<open>Giving the buffers back\<close>

text \<open>The inner loop for one buffer type: \<open>None\<close> where a get never returns.\<close>

fun reclaim ::
    "'s sem_api \<Rightarrow> nat \<Rightarrow> nat \<Rightarrow> nat \<Rightarrow> 's buffer_manager
       \<Rightarrow> (fault + pin_event list \<times> 's buffer_manager) option" where
  "reclaim api this buf_type 0 m = Some (Inr ([], m))"
| "reclaim api this buf_type (Suc n) m =
     (case GetBufferFromList api m of
        None \<Rightarrow> None
      | Some (None, m') \<Rightarrow> Some (Inl Assert_failed)
      | Some (Some e, m') \<Rightarrow>
          if be_buf e = 0 \<or> buf_field e \<noteq> of_nat buf_type \<or> appThread e \<noteq> this
          then Some (Inl Assert_failed)
          else (case reclaim api this buf_type n m' of
                  None \<Rightarrow> None
                | Some (Inl er) \<Rightarrow> Some (Inl er)
                | Some (Inr (es, m'')) \<Rightarrow> Some (Inr (Deallocated (be_buf e) # es, m''))))"

text \<open>The outer loop over the buffer types.\<close>

fun reclaim_types ::
    "'s sem_api \<Rightarrow> nat list \<Rightarrow> 's app_thread \<Rightarrow> (fault + pin_event list \<times> 's app_thread) option" where
  "reclaim_types api [] a = Some (Inr ([], a))"
| "reclaim_types api (i # is) a =
     (case reclaim api (thread_ref a) i (unat (allocated a ! i)) (free_lists a ! i) of
        None \<Rightarrow> None
      | Some (Inl er) \<Rightarrow> Some (Inl er)
      | Some (Inr (es, m)) \<Rightarrow>
          (case reclaim_types api is (a\<lparr>free_lists := vec_upd i (\<lambda>_. m) (free_lists a),
                                      allocated := vec_upd i (\<lambda>_. 0) (allocated a)\<rparr>) of
             None \<Rightarrow> None
           | Some (Inl er) \<Rightarrow> Some (Inl er)
           | Some (Inr (es', a')) \<Rightarrow> Some (Inr (es @ es', a'))))"

definition AllBuffersProcessed ::
    "'s sem_api \<Rightarrow> 's app_thread \<Rightarrow> (fault + pin_event list \<times> 's app_thread) option" where
  "AllBuffersProcessed api a =
     (if list_all (\<lambda>n. n = 0) (allocated a) then Some (Inr ([], a))
      else if \<not> list_all (\<lambda>b. b \<noteq> 0) (currentBufs a) then Some (Inl Assert_failed)
      else (case reclaim_types api [0..<NUM_BUF_TYPES] a of
              None \<Rightarrow> None
            | Some (Inl er) \<Rightarrow> Some (Inl er)
            | Some (Inr (es, a')) \<Rightarrow> Some (Inr (es @ map Deallocated (currentBufs a'), a'))))"

section \<open>The life of the buffers\<close>

lemma reclaim_get_n:
  "buffer_queue.get_n (get_free api) n m = Some (es, m') \<Longrightarrow>
     list_all (\<lambda>e. be_buf e \<noteq> 0 \<and> buf_field e = of_nat t \<and> appThread e = this) es \<Longrightarrow>
     reclaim api this t n m = Some (Inr (map (Deallocated \<circ> be_buf) es, m'))"
proof (induction n arbitrary: m es)
  case 0
  then show ?case by simp
next
  case (Suc n)
  from Suc.prems(1) obtain e m1 es1 where e: "get_free api m = Some (e, m1)"
      "buffer_queue.get_n (get_free api) n m1 = Some (es1, m')" "es = e # es1"
    by (auto split: option.splits)
  have g: "GetBufferFromList api m = Some (Some e, m1)"
    using e(1) by (auto simp: get_free_def split: option.splits)
  have "reclaim api this t n m1 = Some (Inr (map (Deallocated \<circ> be_buf) es1, m'))"
    using Suc.prems(2) e by (intro Suc.IH) simp_all
  with g Suc.prems(2) e(3) show ?case by simp
qed

lemma free_list_ok_ctor:
  "sem_ok api \<Longrightarrow> buffer_manager_ctor api False = Inr m \<Longrightarrow> free_list_ok api m \<and> bufferList m = []"
  by (auto simp: buffer_manager_ctor_def free_list_ok_def sem_ok_def split: option.splits)

lemma app_thread_ctor_Inr:
  assumes "app_thread_ctor api this tid = Inr a" and "sem_ok api"
  obtains m where "free_lists a = [m]" and "free_list_ok api m" and "bufferList m = []"
    and "allocated a = [0]" and "thread_ref a = this" and "currentBufs a = [0]"
  using assms free_list_ok_ctor
  by (fastforce simp: app_thread_ctor_def NUM_BUF_TYPES_def split: sum.splits)

lemma AllocateBuffers_effect:
  fixes bufs :: "nat \<Rightarrow> u64"
  assumes "free_lists a = [m]" and "allocated a = [0]"
  defines "e \<equiv> \<lambda>i. free_element (thread_ref a) 0 (bufs i)"
  shows "AllocateBuffers api sz bufs 0 a =
    ([Allocated (bufs 0), Protected (bufs 0) sz, Allocated (bufs 1), Protected (bufs 1) sz],
     a\<lparr>free_lists := [buffer_queue.put_all (put_free api) [e 0, e 1] m], allocated := [2]\<rparr>)"
  using assms(1,2)
  by (simp add: AllocateBuffers_def APP_BUFFERS_def alloc_one_def numeral_2_eq_2 vec_upd_def e_def
      buffer_queue.put_all_def [OF free_list.buffer_queue_axioms])

text \<open>C36. No buffer of a thread is leaked and none is freed twice: the two free buffers that were
  allocated at the start of the thread and the one being filled at its end are deallocated, each
  exactly once, none of the assertions fails and no get blocks, whatever the thread did to its
  other state in between.\<close>

theorem buffers_freed_exactly_once:
  assumes "sem_ok api" and "app_thread_ctor api this tid = Inr a0" and "bufs 0 \<noteq> 0" and "bufs 1 \<noteq> 0"
    and "AllocateBuffers api sz bufs 0 a0 = (es, a1)"
    and "free_lists a = free_lists a1" and "allocated a = allocated a1"
    and "thread_ref a = thread_ref a1" and "currentBufs a = [cur]" and "cur \<noteq> 0"
  shows "\<exists>a'. AllBuffersProcessed api a
      = Some (Inr ([Deallocated (bufs 0), Deallocated (bufs 1), Deallocated cur], a'))
    \<and> allocated a' = [0] \<and> currentBufs a' = [cur]
    \<and> es = [Allocated (bufs 0), Protected (bufs 0) sz, Allocated (bufs 1), Protected (bufs 1) sz]"
proof -
  obtain m where m: "free_lists a0 = [m]" "free_list_ok api m" "bufferList m = []"
      "allocated a0 = [0]" "thread_ref a0 = this"
    using app_thread_ctor_Inr [OF assms(2,1)] by metis
  let ?e = "\<lambda>i. free_element this 0 (bufs i)"
  note alloc = AllocateBuffers_effect [OF m(1,4), of api sz bufs, unfolded assms(5) m(5)]
  then have a: "free_lists a = [buffer_queue.put_all (put_free api) [?e 0, ?e 1] m]"
      "allocated a = [2]" "thread_ref a = this"
    using assms(6-8) m(5) by simp_all
  obtain m' where m': "buffer_queue.get_n (get_free api) 2
      (buffer_queue.put_all (put_free api) [?e 0, ?e 1] m) = Some ([?e 0, ?e 1], m')"
    using free_list.put_all_get_n [OF m(2,3), of "[?e 0, ?e 1]"] by (auto simp: numeral_2_eq_2)
  have "reclaim api this 0 2 (buffer_queue.put_all (put_free api) [?e 0, ?e 1] m)
      = Some (Inr ([Deallocated (bufs 0), Deallocated (bufs 1)], m'))"
    using reclaim_get_n [OF m', of 0 this] assms(3,4) by (simp add: free_element_def)
  then show ?thesis
    using a assms(9,10) alloc
    by (simp add: AllBuffersProcessed_def NUM_BUF_TYPES_def vec_upd_def)
qed

definition example_thread :: "bool app_thread" where
  "example_thread = \<lparr>thread_ref = 3, myTid = 1, currentBufs = [0], numBufferElements = 0,
     shared_mem = None, shared_mem_size = 0, shm_fd = 0, sock_rdy = - 1, sock_size = - 1,
     last_ins_executed = 0, last_mem_ins_executed = 0, last_bblocks_executed = 0,
     fcalls_executed = 0, last_fcalls_executed = 0, buf_gen_time = [0],
     free_lists = [\<lparr>exitEvent = None, bufferSem = False, bufferList = []\<rparr>], allocated = [0],
     stats = app_stats_init\<rparr>"

lemma example_thread_ctor: "app_thread_ctor flag_sem 3 1 = Inr example_thread"
  by (simp add: app_thread_ctor_def NUM_BUF_TYPES_def buffer_manager_ctor_def flag_sem_def
      example_thread_def)

lemma buffers_freed_exactly_once_witness:
  defines "a \<equiv> (snd (AllocateBuffers flag_sem 24 (\<lambda>i. 4096 + of_nat i) 0 example_thread))
      \<lparr>currentBufs := [77], fcalls_executed := 5\<rparr>"
  shows "\<exists>a'. AllBuffersProcessed flag_sem a
    = Some (Inr ([Deallocated 4096, Deallocated 4097, Deallocated 77], a')) \<and> allocated a' = [0]"
proof -
  obtain es a1 where e: "AllocateBuffers flag_sem 24 (\<lambda>i. 4096 + of_nat i) 0 example_thread = (es, a1)"
    by fastforce
  have "\<exists>a'. AllBuffersProcessed flag_sem a = Some (Inr ([Deallocated (4096 + of_nat 0),
        Deallocated (4096 + of_nat 1), Deallocated 77], a'))
      \<and> allocated a' = [0] \<and> currentBufs a' = [77]
      \<and> es = [Allocated (4096 + of_nat 0), Protected (4096 + of_nat 0) 24,
          Allocated (4096 + of_nat 1), Protected (4096 + of_nat 1) 24]"
    by (rule buffers_freed_exactly_once [OF flag_sem_ok example_thread_ctor _ _ e])
      (simp_all add: a_def e)
  then show ?thesis by auto
qed

text \<open>Allocation is idempotent: a thread that already has its buffers gets no more.\<close>

lemma AllocateBuffers_idempotent:
  assumes "sem_ok api" and "app_thread_ctor api this tid = Inr a0"
  shows "AllocateBuffers api sz bufs' 0 (snd (AllocateBuffers api sz bufs 0 a0))
    = ([], snd (AllocateBuffers api sz bufs 0 a0))"
proof -
  obtain m where "free_lists a0 = [m]" "allocated a0 = [0]"
    using app_thread_ctor_Inr [OF assms(2,1)] by metis
  from AllocateBuffers_effect [OF this] show ?thesis by (simp add: AllocateBuffers_def [of _ _ bufs'])
qed

end
