(* ===== verification/Buffer_Transfer.thy ===== *)
theory Buffer_Transfer
  imports App_Representative Cpu_Monitor
begin

text \<open>
  The buffer path of \<open>src/pintool/bullettime.cpp\<close>: what happens when a thread's buffer is full.
  \<open>BufferFull_PC\<close> counts the accesses (\<open>CheckSkip\<close>) and hands the buffer to the consumer
  (\<open>EnqueueFullAndGetNextToFill\<close>, \<open>ProcessBuffer\<close>, \<open>CopyToSharedMemory\<close>), synchronously, so that the
  same buffer can be filled again. The clock, the sockets and the mutex are the environment of
  each call (\<open>copy_env\<close>, \<open>skip_env\<close>). The counters sent with each buffer are read as differences;
  they keep the contract \<open>delta_counter\<close> that the consumer's monitors keep.
\<close>

section \<open>Options and globals\<close>

text \<open>The integer options are signed; they are read with \<open>sint\<close>.\<close>

record knobs =
  KnobOutPrefix :: string
  KnobNumPagesInBuffer :: u32
  KnobCountFCalls :: string
  KnobFCallsExact :: u32
  KnobProfile :: u32
  KnobRecordFreq :: string
  KnobProfileOutFile :: string
  KnobProfSync :: u32

record tool =
  buf_entry_limit :: u64
  bufSizes :: "u64 list"
  profiledAccesses :: u64
  profileLimit :: u64
  trace_started :: bool
  track_fcalls :: bool
  fcall_names :: "string list"
  pthread_tracking :: bool
  overall :: overall_stats

section \<open>The profile limit\<close>

record skip_env =
  se_now :: u64
  se_lock_start :: bool      \<comment> \<open>whether the first \<open>PIN_MutexTryLock\<close> succeeds\<close>
  se_lock_exit :: bool       \<comment> \<open>whether the second one does\<close>

text \<open>The result, whether the thread that ends the trace is spawned, and the new globals.\<close>

definition CheckSkip :: "knobs \<Rightarrow> skip_env \<Rightarrow> u64 \<Rightarrow> tool \<Rightarrow> bool \<times> bool \<times> tool" where
  "CheckSkip k e n_elems g =
     (let g = (if \<not> trace_started g \<and> se_lock_start e
               then g\<lparr>overall := StartTime (se_now e) (overall g), trace_started := True\<rparr> else g)
      in if 0 < sint (KnobProfile k)
         then (False, profileLimit g \<le> profiledAccesses g \<and> se_lock_exit e,
               g\<lparr>profiledAccesses := profiledAccesses g + n_elems\<rparr>)
         else (False, False, g))"

section \<open>Handing a buffer to the consumer\<close>

record copy_env =
  ce_gen :: u64
  ce_wait_start :: u64
  ce_rdy_bytes :: int        \<comment> \<open>the result of \<open>read\<close> on the ready socket\<close>
  ce_wait_end :: u64
  ce_mcpy_start :: u64
  ce_mcpy_end :: u64
  ce_send :: int             \<comment> \<open>the result of \<open>send\<close> on the size socket\<close>

text \<open>The new state and the message that was sent, if one was.\<close>

definition CopyToSharedMemory ::
    "bool \<Rightarrow> copy_env \<Rightarrow> byte list \<Rightarrow> u64 \<Rightarrow> nat \<Rightarrow> 's app_thread
       \<Rightarrow> fault + u64 list option \<times> 's app_thread" where
  "CopyToSharedMemory track e buf numBytes buf_type a =
     (if sock_rdy a = - 1 \<or> sock_size a = - 1 then Inl Exit_called
      else case shared_mem a of
        None \<Rightarrow> Inl Exit_called
      | Some mem \<Rightarrow>
         if shared_mem_size a = 0 then Inl Exit_called
         else
           (let gen_time = ce_gen e - buf_gen_time a ! buf_type;
                pin_wait_us = ce_wait_end e - ce_wait_start e
            in if ce_rdy_bytes e = - 1 then Inr (None, a)
               else if length mem < unat numBytes then Inl UB_overrun
               else
                 (let n = unat numBytes;
                      a = a\<lparr>shared_mem := Some (take n buf @ drop n mem)\<rparr>;
                      fcalls = fcalls_executed a - last_fcalls_executed a;
                      mem_ins = st_mem_ins (stats a) - last_mem_ins_executed a;
                      ins = st_ins (stats a) - last_ins_executed a;
                      a = a\<lparr>last_mem_ins_executed := last_mem_ins_executed a + mem_ins,
                            last_ins_executed := last_ins_executed a + ins,
                            last_fcalls_executed := fcalls_executed a\<rparr>;
                      send_data = [numBytes, gen_time + (ce_mcpy_end e - ce_mcpy_start e),
                        if track then fcalls else ins, ins, mem_ins, fcalls, pin_wait_us]
                  in Inr (if ce_send e = - 1 then None else Some send_data,
                          a\<lparr>buf_gen_time := (buf_gen_time a)[buf_type := ce_mcpy_end e]\<rparr>))))"

definition ProcessBuffer ::
    "knobs \<Rightarrow> tool \<Rightarrow> copy_env \<Rightarrow> byte list \<Rightarrow> u64 \<Rightarrow> nat \<Rightarrow> 's app_thread
       \<Rightarrow> fault + u64 list option \<times> 's app_thread" where
  "ProcessBuffer k g e buf n_elems buf_type a =
     (let numBytes = n_elems * bufSizes g ! buf_type
      in if KnobOutPrefix k \<noteq> [] then CopyToSharedMemory (track_fcalls g) e buf numBytes buf_type a
         else Inr (None, a))"

text \<open>\<open>full\<close> is the address of the full buffer, \<open>content\<close> what it holds.\<close>

definition EnqueueFullAndGetNextToFill ::
    "knobs \<Rightarrow> tool \<Rightarrow> copy_env \<Rightarrow> u64 \<Rightarrow> byte list \<Rightarrow> u64 \<Rightarrow> nat \<Rightarrow> 's app_thread
       \<Rightarrow> fault + u64 \<times> u64 list option \<times> 's app_thread" where
  "EnqueueFullAndGetNextToFill k g e full content n buf_type a =
     (let s = IncrementNumBuffersFilled (AddNumElementsProcessed n (stats a));
          a = a\<lparr>stats := IncrementNumBuffersProcessedInAppThread s\<rparr>
      in case ProcessBuffer k g e content n buf_type a of
           Inl er \<Rightarrow> Inl er
         | Inr (msg, a) \<Rightarrow> Inr (full, msg, a\<lparr>currentBufs := (currentBufs a)[buf_type := full]\<rparr>))"

text \<open>The callback: the buffer to fill next, the message, whether the trace ends.\<close>

definition BufferFull_PC ::
    "knobs \<Rightarrow> skip_env \<Rightarrow> copy_env \<Rightarrow> u64 \<Rightarrow> byte list \<Rightarrow> u64 \<Rightarrow> 's app_thread option \<Rightarrow> tool
       \<Rightarrow> fault + u64 \<times> u64 list option \<times> bool \<times> 's app_thread option \<times> tool" where
  "BufferFull_PC k se e full content n thread g =
     (case CheckSkip k se n g of
        (skip, ends, g) \<Rightarrow>
          if skip then Inr (full, None, ends, thread, g)
          else case thread of
            None \<Rightarrow> Inl Assert_failed
          | Some a \<Rightarrow>
             (case EnqueueFullAndGetNextToFill k g e full content n 0 a of
                Inl er \<Rightarrow> Inl er
              | Inr (next, msg, a) \<Rightarrow> Inr (next, msg, ends, Some a, g)))"

section \<open>What is sent\<close>

lemma CopyToSharedMemory_Some:
  assumes "CopyToSharedMemory track e buf numBytes t a = Inr (Some msg, a')"
  shows "\<exists>mem. shared_mem a = Some mem \<and> unat numBytes \<le> length mem
      \<and> shared_mem a' = Some (take (unat numBytes) buf @ drop (unat numBytes) mem)"
    and "msg = [numBytes, (ce_gen e - buf_gen_time a ! t) + (ce_mcpy_end e - ce_mcpy_start e),
        if track then fcalls_executed a - last_fcalls_executed a
        else st_ins (stats a) - last_ins_executed a,
        st_ins (stats a) - last_ins_executed a, st_mem_ins (stats a) - last_mem_ins_executed a,
        fcalls_executed a - last_fcalls_executed a, ce_wait_end e - ce_wait_start e]"
    and "last_ins_executed a' = st_ins (stats a)" and "last_mem_ins_executed a' = st_mem_ins (stats a)"
    and "last_fcalls_executed a' = fcalls_executed a"
    and "stats a' = stats a" and "fcalls_executed a' = fcalls_executed a"
  using assms
  by (auto simp: CopyToSharedMemory_def Let_def split: if_splits option.splits)

text \<open>One transfer as a reading of the thread's counters: the counters at the time of the call are
  part of the reading.\<close>

record reading =
  rd_stats :: app_stats
  rd_fcalls :: u64
  rd_env :: copy_env
  rd_buf :: "byte list"
  rd_bytes :: u64

definition transfer_step ::
    "bool \<Rightarrow> nat \<Rightarrow> 's app_thread \<Rightarrow> reading \<Rightarrow> (u64 \<times> 's app_thread) option" where
  "transfer_step track word a r =
     (case CopyToSharedMemory track (rd_env r) (rd_buf r) (rd_bytes r) 0
             (a\<lparr>stats := rd_stats r, fcalls_executed := rd_fcalls r\<rparr>) of
        Inr (Some msg, a') \<Rightarrow> Some (msg ! word, a')
      | _ \<Rightarrow> None)"

lemma transfer_step_Some:
  assumes "transfer_step track word a r = Some (d, a')"
  shows "word = 3 \<Longrightarrow> d = st_ins (rd_stats r) - last_ins_executed a"
    and "word = 4 \<Longrightarrow> d = st_mem_ins (rd_stats r) - last_mem_ins_executed a"
    and "word = 5 \<Longrightarrow> d = rd_fcalls r - last_fcalls_executed a"
    and "last_ins_executed a' = st_ins (rd_stats r)"
    and "last_mem_ins_executed a' = st_mem_ins (rd_stats r)"
    and "last_fcalls_executed a' = rd_fcalls r"
proof -
  obtain msg where c: "CopyToSharedMemory track (rd_env r) (rd_buf r) (rd_bytes r) 0
      (a\<lparr>stats := rd_stats r, fcalls_executed := rd_fcalls r\<rparr>) = Inr (Some msg, a')" "d = msg ! word"
    using assms by (auto simp: transfer_step_def split: sum.splits option.splits)
  note s = CopyToSharedMemory_Some [OF c(1)]
  show "word = 3 \<Longrightarrow> d = st_ins (rd_stats r) - last_ins_executed a"
    and "word = 4 \<Longrightarrow> d = st_mem_ins (rd_stats r) - last_mem_ins_executed a"
    and "word = 5 \<Longrightarrow> d = rd_fcalls r - last_fcalls_executed a"
    and "last_ins_executed a' = st_ins (rd_stats r)"
    and "last_mem_ins_executed a' = st_mem_ins (rd_stats r)"
    and "last_fcalls_executed a' = rd_fcalls r"
    using s(2-5) c(2) by simp_all
qed

interpretation sent_ins: delta_counter "transfer_step track 3" last_ins_executed
    "\<lambda>r. st_ins (rd_stats r)" "\<lambda>m r. True" for track
  by unfold_locales (simp_all add: transfer_step_Some)

interpretation sent_mem_ins: delta_counter "transfer_step track 4" last_mem_ins_executed
    "\<lambda>r. st_mem_ins (rd_stats r)" "\<lambda>m r. True" for track
  by unfold_locales (simp_all add: transfer_step_Some)

interpretation sent_fcalls: delta_counter "transfer_step track 5" last_fcalls_executed
    rd_fcalls "\<lambda>m r. True" for track
  by unfold_locales (simp_all add: transfer_step_Some)

section \<open>What the transfer guarantees\<close>

text \<open>C32. The consumer gets every executed instruction exactly once: over any number of buffers the
  instruction, memory-instruction and function-call counts sent add up to the growth of the
  thread's counters, whatever they were when each buffer was sent.\<close>

theorem sent_counts_telescope:
  assumes "delta_run (transfer_step track 3) a rs = Some (ins, a')"
    and "delta_run (transfer_step track 4) a rs = Some (mem_ins, a')"
    and "delta_run (transfer_step track 5) a rs = Some (fcalls, a')" and "rs \<noteq> []"
  shows "sum_list ins = st_ins (rd_stats (last rs)) - last_ins_executed a
    \<and> sum_list mem_ins = st_mem_ins (rd_stats (last rs)) - last_mem_ins_executed a
    \<and> sum_list fcalls = rd_fcalls (last rs) - last_fcalls_executed a"
proof -
  have exact: "all_exact (\<lambda>m r. True) step m rs" for step and m :: "'s app_thread"
    by (induction rs arbitrary: m) (auto split: option.splits)
  show ?thesis
    using sent_ins.telescopes [OF assms(1) exact] sent_ins.last_is_last_reading [OF assms(1,4)]
      sent_mem_ins.telescopes [OF assms(2) exact] sent_mem_ins.last_is_last_reading [OF assms(2,4)]
      sent_fcalls.telescopes [OF assms(3) exact] sent_fcalls.last_is_last_reading [OF assms(3,4)]
    by simp
qed

definition example_copy_env :: copy_env where
  "example_copy_env = \<lparr>ce_gen = 100, ce_wait_start = 100, ce_rdy_bytes = 8, ce_wait_end = 130,
     ce_mcpy_start = 130, ce_mcpy_end = 140, ce_send = 56\<rparr>"

definition example_connected :: "bool app_thread" where
  "example_connected = example_thread\<lparr>shared_mem := Some (replicate 64 0), shared_mem_size := 64,
     sock_rdy := 5, sock_size := 6\<rparr>"

definition example_reading :: "u64 \<Rightarrow> reading" where
  "example_reading n = \<lparr>rd_stats = app_stats_init\<lparr>st_ins := 3 * n, st_mem_ins := 2 * n\<rparr>,
     rd_fcalls = n, rd_env = example_copy_env, rd_buf = replicate 24 9, rd_bytes = 24\<rparr>"

lemmas transfer_eval = CopyToSharedMemory_def transfer_step_def example_copy_env_def
  example_connected_def example_thread_def example_reading_def app_stats_init_def

lemma sent_counts_telescope_witness:
  "sum_list [6, 9 :: u64] = 15 \<and> sum_list [4, 6 :: u64] = 10 \<and> sum_list [2, 3 :: u64] = 5"
proof -
  let ?rs = "[example_reading 2, example_reading 5]"
  let ?a' = "example_connected\<lparr>stats := rd_stats (example_reading 5), fcalls_executed := 5,
    last_ins_executed := 15, last_mem_ins_executed := 10, last_fcalls_executed := 5,
    shared_mem := Some (replicate 24 9 @ replicate 40 0), buf_gen_time := [140]\<rparr>"
  have "sum_list [6, 9 :: u64] = st_ins (rd_stats (last ?rs)) - last_ins_executed example_connected
    \<and> sum_list [4, 6 :: u64] = st_mem_ins (rd_stats (last ?rs)) - last_mem_ins_executed example_connected
    \<and> sum_list [2, 3 :: u64] = rd_fcalls (last ?rs) - last_fcalls_executed example_connected"
    by (rule sent_counts_telescope [where a' = ?a' and track = False])
      (simp_all add: transfer_eval Let_def)
  then show ?thesis by (simp add: transfer_eval)
qed

text \<open>The calls of \<open>CheckSkip\<close> one after another.\<close>

fun skip_run :: "knobs \<Rightarrow> (skip_env \<times> u64) list \<Rightarrow> tool \<Rightarrow> tool" where
  "skip_run k [] g = g"
| "skip_run k ((e, n) # es) g = skip_run k es (snd (snd (CheckSkip k e n g)))"

lemma skip_run_counts:
  "profileLimit (skip_run k es g) = profileLimit g
   \<and> profiledAccesses (skip_run k es g)
     = profiledAccesses g + (if 0 < sint (KnobProfile k) then sum_list (map snd es) else 0)"
  by (induction k es g rule: skip_run.induct) (auto simp: CheckSkip_def Let_def)

text \<open>C38. The profile limit is a lower bound: the thread that ends the trace is spawned only by a
  call that finds at least the limit of accesses already counted, counting every access handed
  over before it, and no buffer is ever skipped.\<close>

theorem profile_limit_lower_bound:
  assumes "CheckSkip k e n (skip_run k calls g) = (skip, True, g')"
    and "profiledAccesses g = 0" and "sum_list (map (unat \<circ> snd) calls) < 2 ^ 64"
  shows "\<not> skip \<and> unat (profileLimit g) \<le> sum_list (map (unat \<circ> snd) calls)"
proof -
  have "0 < sint (KnobProfile k)" "profileLimit (skip_run k calls g) \<le> profiledAccesses (skip_run k calls g)"
    "\<not> skip"
    using assms(1) by (auto simp: CheckSkip_def Let_def split: if_splits)
  then have "profileLimit g \<le> sum_list (map snd calls)" "\<not> skip"
    using skip_run_counts [of k calls g] assms(2) by simp_all
  moreover have "unat (sum_list (map snd calls)) = sum_list (map (unat \<circ> snd) calls)"
    using assms(3) unat_sum_list_u64 [of "map snd calls"] by (simp add: comp_def)
  ultimately show ?thesis by (simp add: word_le_nat_alt)
qed

definition example_knobs :: knobs where
  "example_knobs = \<lparr>KnobOutPrefix = ''/t/run'', KnobNumPagesInBuffer = 256, KnobCountFCalls = ''work'',
     KnobFCallsExact = 0, KnobProfile = 1, KnobRecordFreq = [], KnobProfileOutFile = [],
     KnobProfSync = 0\<rparr>"

definition example_tool :: tool where
  "example_tool = \<lparr>buf_entry_limit = 43690, bufSizes = [24], profiledAccesses = 0,
     profileLimit = 1000000, trace_started = True, track_fcalls = True, fcall_names = [''work''],
     pthread_tracking = False, overall = overall_zero\<rparr>"

definition example_skip :: skip_env where
  "example_skip = \<lparr>se_now = 0, se_lock_start = True, se_lock_exit = True\<rparr>"

lemma profile_limit_lower_bound_witness:
  "\<exists>g'. CheckSkip example_knobs example_skip 43690
     (skip_run example_knobs [(example_skip, 600000), (example_skip, 400000)] example_tool)
     = (False, True, g') \<and> unat (profileLimit example_tool) \<le> 600000 + 400000"
proof -
  have "\<exists>g'. CheckSkip example_knobs example_skip 43690
     (skip_run example_knobs [(example_skip, 600000), (example_skip, 400000)] example_tool)
     = (False, True, g')"
    by (simp add: CheckSkip_def example_knobs_def example_skip_def example_tool_def)
  then obtain g' where c: "CheckSkip example_knobs example_skip 43690
     (skip_run example_knobs [(example_skip, 600000), (example_skip, 400000)] example_tool)
     = (False, True, g')" by blast
  have "\<not> False \<and> unat (profileLimit example_tool)
      \<le> sum_list (map (unat \<circ> snd) [(example_skip, 600000 :: u64), (example_skip, 400000)])"
    by (rule profile_limit_lower_bound [OF c]) (simp_all add: example_tool_def)
  with c show ?thesis by simp
qed

end
