(* ===== verification/Instrumentation.thy ===== *)
theory Instrumentation
  imports Buffer_Transfer Cpp_String
begin

text \<open>
  The instrumentation of \<open>src/pintool/bullettime.cpp\<close> and the analysis callbacks of
  \<open>bullettime.h\<close>: which calls \<open>Trace\<close> and \<open>ImageLoad\<close> insert, what they do when the instrumented
  code runs, and the records they produce. Pin's view of the code is the input: an instruction is
  its address, whether it reads or writes memory, and its disassembly.
\<close>

section \<open>Callbacks\<close>

text \<open>The thread representative in the TLS slot is an option; two callbacks assert that it is there.\<close>

definition RecordFrequency :: "u64 \<Rightarrow> 's app_thread option \<Rightarrow> fault + 's app_thread option" where
  "RecordFrequency pc th = (case th of
     None \<Rightarrow> Inl Assert_failed
   | Some a \<Rightarrow> Inr (Some (a\<lparr>stats := IncrementInsFreq pc (stats a)\<rparr>)))"

definition RecordInsExecuted :: "u64 \<Rightarrow> u64 \<Rightarrow> 's app_thread option \<Rightarrow> fault + 's app_thread option" where
  "RecordInsExecuted ins mem_ins th = (case th of
     None \<Rightarrow> Inl Assert_failed
   | Some a \<Rightarrow> Inr (Some (a\<lparr>stats := IncrementInsExecuted ins mem_ins (stats a)\<rparr>)))"

definition ThreadPause :: "'s app_thread option \<Rightarrow> 's app_thread option" where
  "ThreadPause = map_option (\<lambda>a. a\<lparr>stats := IncPauseInstructions (stats a)\<rparr>)"

definition TimerStart :: "u64 \<Rightarrow> 's app_thread option \<Rightarrow> 's app_thread option" where
  "TimerStart now = map_option (\<lambda>a. a\<lparr>stats := (stats a)\<lparr>st_timer := now\<rparr>\<rparr>)"

definition TimerEnd :: "u64 \<Rightarrow> 's app_thread option \<Rightarrow> 's app_thread option" where
  "TimerEnd now = map_option (\<lambda>a.
     (let elapsed = now - st_timer (stats a)
      in a\<lparr>stats := AddPthreadLockTime elapsed (stats a)\<rparr>))"

definition CountFunctionCalls :: "'s app_thread option \<Rightarrow> 's app_thread option" where
  "CountFunctionCalls = map_option (\<lambda>a. a\<lparr>fcalls_executed := fcalls_executed a + 1\<rparr>)"

section \<open>Instrumenting a trace\<close>

record ins =
  ins_addr :: u64
  reads_mem :: bool
  writes_mem :: bool
  disasm :: string

datatype ins_call =
    Call_RecordFrequency u64
  | Call_ThreadPause
  | Fill_read u64       \<comment> \<open>a full record with \<open>is_read = 1\<close>\<close>
  | Fill_write u64      \<comment> \<open>a full record with \<open>is_read = 0\<close>\<close>

record pc_tables =
  pc_ins_string :: "u64 \<rightharpoonup> string"
  pc_ins_function :: "u64 \<rightharpoonup> string"
  pc_ins_ratio :: "u64 \<rightharpoonup> f64"

definition ins_calls :: "knobs \<Rightarrow> ins \<Rightarrow> ins_call list" where
  "ins_calls k i =
     (if (reads_mem i \<or> writes_mem i) \<and> KnobRecordFreq k \<noteq> []
      then [Call_RecordFrequency (ins_addr i)] else [])
     @ (if sint (KnobProfSync k) = 1 \<and> contains (disasm i) ''pause'' then [Call_ThreadPause] else [])
     @ (if reads_mem i then [Fill_read (ins_addr i)] else [])
     @ (if writes_mem i then [Fill_write (ins_addr i)] else [])"

definition note_ins :: "knobs \<Rightarrow> string \<Rightarrow> ins \<Rightarrow> pc_tables \<Rightarrow> pc_tables" where
  "note_ins k fname i tb =
     (if (reads_mem i \<or> writes_mem i) \<and> KnobRecordFreq k \<noteq> []
      then tb\<lparr>pc_ins_string := (pc_ins_string tb)(ins_addr i \<mapsto> disasm i),
              pc_ins_function := (pc_ins_function tb)(ins_addr i \<mapsto> fname)\<rparr>
      else tb)"

text \<open>The counts of a basic block, and the calls that are inserted: those of each instruction, and
  one call of \<open>RecordInsExecuted\<close> with the counts.\<close>

fun count_ins :: "ins list \<Rightarrow> u64 \<times> u64 \<Rightarrow> u64 \<times> u64" where
  "count_ins [] nm = nm"
| "count_ins (i # is) (n, m) =
     count_ins is (n + 1, if reads_mem i \<or> writes_mem i then m + 1 else m)"

record bbl_calls =
  bc_ins :: "ins_call list list"
  bc_num_ins :: u64
  bc_num_mem_ins :: u64

definition instrument_bbl ::
    "knobs \<Rightarrow> string \<Rightarrow> ins list \<Rightarrow> pc_tables \<Rightarrow> fault + bbl_calls \<times> pc_tables" where
  "instrument_bbl k fname b tb =
     (let (num_ins, num_mem_ins) = count_ins b (0, 0);
          tb = fold (note_ins k fname) b tb
      in if num_mem_ins \<le> num_ins
         then Inr (\<lparr>bc_ins = map (ins_calls k) b, bc_num_ins = num_ins, bc_num_mem_ins = num_mem_ins\<rparr>, tb)
         else Inl Assert_failed)"

fun instrument_bbls ::
    "knobs \<Rightarrow> string \<Rightarrow> ins list list \<Rightarrow> u64 \<Rightarrow> u64 \<Rightarrow> pc_tables
       \<Rightarrow> fault + bbl_calls list \<times> u64 \<times> u64 \<times> pc_tables" where
  "instrument_bbls k fname [] ti tm tb = Inr ([], ti, tm, tb)"
| "instrument_bbls k fname (b # bs) ti tm tb =
     (case instrument_bbl k fname b tb of
        Inl e \<Rightarrow> Inl e
      | Inr (bc, tb) \<Rightarrow>
         (case instrument_bbls k fname bs (ti + bc_num_ins bc) (tm + bc_num_mem_ins bc) tb of
            Inl e \<Rightarrow> Inl e
          | Inr (bcs, r) \<Rightarrow> Inr (bc # bcs, r)))"

text \<open>\<open>rtn\<close> is the name of the routine of the first instruction, where it is valid.\<close>

definition Trace ::
    "knobs \<Rightarrow> string option \<Rightarrow> ins list list \<Rightarrow> pc_tables \<Rightarrow> fault + bbl_calls list \<times> pc_tables" where
  "Trace k rtn bbls tb =
     (let fname = (case rtn of Some n \<Rightarrow> n | None \<Rightarrow> ''unknown'') in
      case instrument_bbls k fname bbls 0 0 tb of
        Inl e \<Rightarrow> Inl e
      | Inr (bcs, trace_ins, trace_mem_ins, tb) \<Rightarrow>
         Inr (bcs,
           if KnobRecordFreq k \<noteq> []
           then fold (\<lambda>i tb. tb\<lparr>pc_ins_ratio := (pc_ins_ratio tb)
                  (ins_addr i \<mapsto> f64_of_u64 trace_mem_ins / f64_of_u64 trace_mem_ins)\<rparr>)
                  (concat bbls) tb
           else tb))"

section \<open>Running instrumented code\<close>

record memref =
  mr_pc :: u64
  mr_ea :: u64
  mr_sz :: u32
  mr_is_read :: u32

text \<open>The addresses and sizes with which an instruction accesses memory when it is executed.\<close>

record access =
  read_ea :: u64
  read_sz :: u32
  write_ea :: u64
  write_sz :: u32

definition run_call ::
    "access \<Rightarrow> ins_call \<Rightarrow> memref list \<times> 's app_thread option
       \<Rightarrow> fault + memref list \<times> 's app_thread option" where
  "run_call d c = (\<lambda>(out, th).
     (case c of
        Call_RecordFrequency pc \<Rightarrow>
          (case RecordFrequency pc th of Inl e \<Rightarrow> Inl e | Inr th \<Rightarrow> Inr (out, th))
      | Call_ThreadPause \<Rightarrow> Inr (out, ThreadPause th)
      | Fill_read pc \<Rightarrow>
          Inr (out @ [\<lparr>mr_pc = pc, mr_ea = read_ea d, mr_sz = read_sz d, mr_is_read = 1\<rparr>], th)
      | Fill_write pc \<Rightarrow>
          Inr (out @ [\<lparr>mr_pc = pc, mr_ea = write_ea d, mr_sz = write_sz d, mr_is_read = 0\<rparr>], th)))"

fun run_ins ::
    "ins_call list list \<Rightarrow> access list \<Rightarrow> memref list \<times> 's app_thread option
       \<Rightarrow> fault + memref list \<times> 's app_thread option" where
  "run_ins (cs # css) (d # ds) s =
     (case fold_fault (run_call d) cs s of Inl e \<Rightarrow> Inl e | Inr s \<Rightarrow> run_ins css ds s)"
| "run_ins css ds s = Inr s"

definition run_bbl ::
    "bbl_calls \<Rightarrow> access list \<Rightarrow> memref list \<times> 's app_thread option
       \<Rightarrow> fault + memref list \<times> 's app_thread option" where
  "run_bbl bc ds s =
     (case RecordInsExecuted (bc_num_ins bc) (bc_num_mem_ins bc) (snd s) of
        Inl e \<Rightarrow> Inl e
      | Inr th \<Rightarrow> run_ins (bc_ins bc) ds (fst s, th))"

section \<open>Instrumenting routines\<close>

datatype rtn_call = Before_TimerStart | After_TimerEnd | Before_CountFunctionCalls

definition parse_fcalls :: "string \<Rightarrow> string list" where
  "parse_fcalls s = filter (\<lambda>n. n \<noteq> []) (getlines (CHR '','') s)"

definition fcall_matches :: "knobs \<Rightarrow> tool \<Rightarrow> string \<Rightarrow> bool" where
  "fcall_matches k g rtn_name =
     list_ex (\<lambda>n. if KnobFCallsExact k \<noteq> 0 then rtn_name = n else contains rtn_name n) (fcall_names g)"

definition rtn_calls :: "knobs \<Rightarrow> tool \<Rightarrow> string \<Rightarrow> rtn_call list" where
  "rtn_calls k g rtn_name =
     (if contains rtn_name ''pthread_mutex_lock'' \<and> pthread_tracking g
      then [Before_TimerStart, After_TimerEnd] else [])
     @ (if track_fcalls g \<and> fcall_matches k g rtn_name then [Before_CountFunctionCalls] else [])"

text \<open>An image is its sections, a section its routines.\<close>

definition ImageLoad :: "knobs \<Rightarrow> tool \<Rightarrow> string list list \<Rightarrow> (string \<times> rtn_call) list" where
  "ImageLoad k g secs = concat (map (\<lambda>r. map (Pair r) (rtn_calls k g r)) (concat secs))"

section \<open>What instrumented code records\<close>

definition is_mem :: "ins \<Rightarrow> bool" where
  "is_mem i \<longleftrightarrow> reads_mem i \<or> writes_mem i"

text \<open>The accesses an instruction makes, as records: its read, then its write.\<close>

definition accesses :: "ins \<Rightarrow> access \<Rightarrow> memref list" where
  "accesses i d =
     (if reads_mem i
      then [\<lparr>mr_pc = ins_addr i, mr_ea = read_ea d, mr_sz = read_sz d, mr_is_read = 1\<rparr>] else [])
     @ (if writes_mem i
        then [\<lparr>mr_pc = ins_addr i, mr_ea = write_ea d, mr_sz = write_sz d, mr_is_read = 0\<rparr>] else [])"

definition mem_at :: "u64 \<Rightarrow> ins list \<Rightarrow> nat" where
  "mem_at pc b = length (filter (\<lambda>i. is_mem i \<and> ins_addr i = pc) b)"

definition bbl_calls_of :: "knobs \<Rightarrow> ins list \<Rightarrow> bbl_calls" where
  "bbl_calls_of k b = \<lparr>bc_ins = map (ins_calls k) b, bc_num_ins = of_nat (length b),
     bc_num_mem_ins = of_nat (length (filter is_mem b))\<rparr>"

lemma count_ins_words:
  "count_ins b (n, m) = (n + of_nat (length b), m + of_nat (length (filter is_mem b)))"
  by (induction b arbitrary: n m) (auto simp: is_mem_def)

lemma instrument_bbl_total:
  assumes "length b < 2 ^ 64"
  shows "instrument_bbl k f b tb = Inr (bbl_calls_of k b, fold (note_ins k f) b tb)"
proof -
  have "unat (of_nat (length (filter is_mem b)) :: u64) \<le> length b"
    by (rule order_trans [OF unat_of_nat_le]) simp
  also have "length b = unat (of_nat (length b) :: u64)"
    using assms by (simp add: unsigned_of_nat take_bit_nat_eq_self)
  finally have "(of_nat (length (filter is_mem b)) :: u64) \<le> of_nat (length b)"
    by (simp add: word_le_nat_alt)
  then show ?thesis by (simp add: instrument_bbl_def count_ins_words bbl_calls_of_def)
qed

lemma instrument_bbls_total:
  "list_all (\<lambda>b. length b < 2 ^ 64) bs \<Longrightarrow>
     \<exists>ti' tm'. instrument_bbls k f bs ti tm tb
       = Inr (map (bbl_calls_of k) bs, ti', tm', fold (note_ins k f) (concat bs) tb)"
proof (induction bs arbitrary: ti tm tb)
  case (Cons b bs)
  then have "length b < 2 ^ 64" and bs: "list_all (\<lambda>b. length b < 2 ^ 64) bs" by simp_all
  note t = instrument_bbl_total [OF this(1)]
  from Cons.IH [OF bs, of "ti + bc_num_ins (bbl_calls_of k b)"
      "tm + bc_num_mem_ins (bbl_calls_of k b)" "fold (note_ins k f) b tb"]
  show ?case by (auto simp: t)
qed simp

lemma Trace_total:
  assumes "list_all (\<lambda>b. length b < 2 ^ 64) bbls"
  shows "\<exists>tb'. Trace k rtn bbls tb = Inr (map (bbl_calls_of k) bbls, tb')"
proof -
  obtain ti tm where "instrument_bbls k (case rtn of Some n \<Rightarrow> n | None \<Rightarrow> ''unknown'') bbls 0 0 tb
      = Inr (map (bbl_calls_of k) bbls, ti, tm,
          fold (note_ins k (case rtn of Some n \<Rightarrow> n | None \<Rightarrow> ''unknown'')) (concat bbls) tb)"
    using instrument_bbls_total [OF assms] by blast
  then show ?thesis by (simp add: Trace_def Let_def)
qed

text \<open>What one instruction's calls do to the thread's counters.\<close>

definition noted :: "knobs \<Rightarrow> ins \<Rightarrow> app_stats \<Rightarrow> app_stats" where
  "noted k i s =
     (let s = (if is_mem i \<and> KnobRecordFreq k \<noteq> [] then IncrementInsFreq (ins_addr i) s else s)
      in if sint (KnobProfSync k) = 1 \<and> contains (disasm i) ''pause'' then IncPauseInstructions s else s)"

lemma run_call_simps:
  "run_call d (Call_RecordFrequency pc) (out, Some a)
     = Inr (out, Some (a\<lparr>stats := IncrementInsFreq pc (stats a)\<rparr>))"
  "run_call d Call_ThreadPause (out, Some a) = Inr (out, Some (a\<lparr>stats := IncPauseInstructions (stats a)\<rparr>))"
  "run_call d (Fill_read pc) (out, th)
     = Inr (out @ [\<lparr>mr_pc = pc, mr_ea = read_ea d, mr_sz = read_sz d, mr_is_read = 1\<rparr>], th)"
  "run_call d (Fill_write pc) (out, th)
     = Inr (out @ [\<lparr>mr_pc = pc, mr_ea = write_ea d, mr_sz = write_sz d, mr_is_read = 0\<rparr>], th)"
  by (simp_all add: run_call_def RecordFrequency_def ThreadPause_def)

lemma run_calls_ins:
  "fold_fault (run_call d) (ins_calls k i) (out, Some a)
     = Inr (out @ accesses i d, Some (a\<lparr>stats := noted k i (stats a)\<rparr>))"
proof -
  define c where "c \<longleftrightarrow> (reads_mem i \<or> writes_mem i) \<and> KnobRecordFreq k \<noteq> []"
  define p where "p \<longleftrightarrow> sint (KnobProfSync k) = 1 \<and> contains (disasm i) ''pause''"
  show ?thesis
    unfolding ins_calls_def noted_def is_mem_def accesses_def Let_def
    unfolding c_def [symmetric] p_def [symmetric]
    by (cases c; cases p; cases "reads_mem i"; cases "writes_mem i") (simp_all add: run_call_simps)
qed

lemma run_ins_calls:
  "length ds = length b \<Longrightarrow>
     run_ins (map (ins_calls k) b) ds (out, Some a)
       = Inr (out @ concat (map2 accesses b ds), Some (a\<lparr>stats := fold (noted k) b (stats a)\<rparr>))"
proof (induction b arbitrary: ds out a)
  case (Cons i b)
  then obtain d ds' where "ds = d # ds'" "length ds' = length b" by (cases ds) auto
  with Cons.IH [of ds'] show ?case by (simp add: run_calls_ins)
qed simp

lemma noted_counters:
  "st_ins (fold (noted k) b s) = st_ins s \<and> st_mem_ins (fold (noted k) b s) = st_mem_ins s"
proof (induction b arbitrary: s)
  case (Cons i b)
  have "st_ins (noted k i s) = st_ins s \<and> st_mem_ins (noted k i s) = st_mem_ins s"
    by (simp add: noted_def IncrementInsFreq_def IncPauseInstructions_def Let_def)
  with Cons show ?case by simp
qed simp

lemma noted_freq:
  assumes "freqs_ok (st_ins_freqs s)"
  shows "freqs_ok (st_ins_freqs (noted k i s))"
    and "count_of pc (st_ins_freqs (noted k i s)) = count_of pc (st_ins_freqs s)
      + (if is_mem i \<and> KnobRecordFreq k \<noteq> [] \<and> ins_addr i = pc then 1 else 0)"
  using assms
  by (auto simp: noted_def IncrementInsFreq_def IncPauseInstructions_def Let_def add_freq_ok
      count_add_freq)

lemma noted_freqs:
  "freqs_ok (st_ins_freqs s) \<Longrightarrow>
     freqs_ok (st_ins_freqs (fold (noted k) b s))
     \<and> count_of pc (st_ins_freqs (fold (noted k) b s))
       = count_of pc (st_ins_freqs s) + (if KnobRecordFreq k \<noteq> [] then of_nat (mem_at pc b) else 0)"
proof (induction b arbitrary: s)
  case (Cons i b)
  from Cons.IH [OF noted_freq(1) [OF Cons.prems, of k i]] noted_freq(2) [OF Cons.prems, of pc k i]
  show ?case by (simp add: mem_at_def)
qed (simp add: mem_at_def)

text \<open>C31. Every memory access is recorded: instrumenting a trace never fails, and each execution of
  one of its basic blocks appends exactly one record per read and per write, in program order, with
  the address, the size and the direction of the access; it counts every instruction and every
  memory instruction, and where frequencies are asked for, each of them at its address.\<close>

theorem every_access_recorded:
  assumes "list_all (\<lambda>b. length b < 2 ^ 64) bbls" and "j < length bbls"
    and "length ds = length (bbls ! j)" and "freqs_ok (st_ins_freqs (stats a))"
  defines "b \<equiv> bbls ! j"
  shows "\<exists>bcs tb' a'. Trace k rtn bbls tb = Inr (bcs, tb')
    \<and> run_bbl (bcs ! j) ds (out, Some a) = Inr (out @ concat (map2 accesses b ds), Some a')
    \<and> st_ins (stats a') = st_ins (stats a) + of_nat (length b)
    \<and> st_mem_ins (stats a') = st_mem_ins (stats a) + of_nat (length (filter is_mem b))
    \<and> (\<forall>pc. count_of pc (st_ins_freqs (stats a')) = count_of pc (st_ins_freqs (stats a))
         + (if KnobRecordFreq k \<noteq> [] then of_nat (mem_at pc b) else 0))"
proof -
  let ?s = "IncrementInsExecuted (of_nat (length b)) (of_nat (length (filter is_mem b))) (stats a)"
  obtain tb' where t: "Trace k rtn bbls tb = Inr (map (bbl_calls_of k) bbls, tb')"
    using Trace_total [OF assms(1)] by blast
  have "run_bbl (map (bbl_calls_of k) bbls ! j) ds (out, Some a)
      = Inr (out @ concat (map2 accesses b ds), Some (a\<lparr>stats := fold (noted k) b ?s\<rparr>))"
    using assms(2,3)
    by (simp add: b_def run_bbl_def bbl_calls_of_def RecordInsExecuted_def run_ins_calls)
  moreover have "freqs_ok (st_ins_freqs ?s)" using assms(4) by (simp add: IncrementInsExecuted_def)
  note noted_freqs [OF this, of k b]
  ultimately show ?thesis using t noted_counters [of k b ?s]
    by (auto simp: IncrementInsExecuted_def)
qed

definition example_ins :: "u64 \<Rightarrow> bool \<Rightarrow> bool \<Rightarrow> ins" where
  "example_ins pc r w = \<lparr>ins_addr = pc, reads_mem = r, writes_mem = w, disasm = ''add''\<rparr>"

definition example_access :: access where
  "example_access = \<lparr>read_ea = 64, read_sz = 8, write_ea = 128, write_sz = 4\<rparr>"

definition no_tables :: pc_tables where
  "no_tables = \<lparr>pc_ins_string = Map.empty, pc_ins_function = Map.empty, pc_ins_ratio = Map.empty\<rparr>"

lemma every_access_recorded_witness:
  "\<exists>bcs tb' a'. Trace (example_knobs\<lparr>KnobRecordFreq := ''f''\<rparr>) None
      [[example_ins 1 True True, example_ins 2 False False]] no_tables = Inr (bcs, tb')
    \<and> run_bbl (bcs ! 0) [example_access, example_access] ([], Some example_thread)
      = Inr ([\<lparr>mr_pc = 1, mr_ea = 64, mr_sz = 8, mr_is_read = 1\<rparr>,
              \<lparr>mr_pc = 1, mr_ea = 128, mr_sz = 4, mr_is_read = 0\<rparr>], Some a')
    \<and> st_ins (stats a') = 2 \<and> st_mem_ins (stats a') = 1
    \<and> count_of 1 (st_ins_freqs (stats a')) = 1"
proof -
  let ?k = "example_knobs\<lparr>KnobRecordFreq := ''f''\<rparr>" and ?d = "[example_access, example_access]"
  let ?bbls = "[[example_ins 1 True True, example_ins 2 False False]]"
  have "\<exists>bcs tb' a'. Trace ?k None ?bbls no_tables = Inr (bcs, tb')
    \<and> run_bbl (bcs ! 0) ?d ([], Some example_thread)
      = Inr ([] @ concat (map2 accesses (?bbls ! 0) ?d), Some a')
    \<and> st_ins (stats a') = st_ins (stats example_thread) + of_nat (length (?bbls ! 0))
    \<and> st_mem_ins (stats a') = st_mem_ins (stats example_thread) + of_nat (length (filter is_mem (?bbls ! 0)))
    \<and> (\<forall>pc. count_of pc (st_ins_freqs (stats a')) = count_of pc (st_ins_freqs (stats example_thread))
         + (if KnobRecordFreq ?k \<noteq> [] then of_nat (mem_at pc (?bbls ! 0)) else 0))"
    by (rule every_access_recorded) (simp_all add: example_thread_def app_stats_init_def freqs_ok_def)
  moreover have "concat (map2 accesses (?bbls ! 0) ?d)
      = [\<lparr>mr_pc = 1, mr_ea = 64, mr_sz = 8, mr_is_read = 1\<rparr>, \<lparr>mr_pc = 1, mr_ea = 128, mr_sz = 4, mr_is_read = 0\<rparr>]"
    and "length (filter is_mem (?bbls ! 0)) = 1" and "mem_at 1 (?bbls ! 0) = 1"
    by (simp_all add: accesses_def example_ins_def example_access_def is_mem_def mem_at_def)
  ultimately show ?thesis by (auto simp: example_thread_def app_stats_init_def)
qed

section \<open>The ratio of memory instructions\<close>

lemma f64_self_div:
  assumes "n \<noteq> 0"
  shows "f64_of_u64 n / f64_of_u64 n = 1"
proof -
  have "0 < uint n" using assms word_gt_0 [of n] by (simp add: word_less_def)
  then have "(1 :: rat) \<le> of_int (uint n)" by (simp only: of_int_1_le_iff int_one_le_iff_zero_less)
  then have "rnd 1 \<le> rnd (of_int (uint n))" by (intro rnd_mono) simp_all
  then show ?thesis by (simp add: f64_of_u64_finite f64_ops)
qed

lemma instrument_bbls_mem:
  "instrument_bbls k f bs ti tm tb = Inr (bcs, ti', tm', tb') \<Longrightarrow>
     tm' = tm + of_nat (length (filter is_mem (concat bs)))"
  by (induction k f bs ti tm tb arbitrary: bcs rule: instrument_bbls.induct)
    (fastforce simp: instrument_bbl_def count_ins_words Let_def split: if_splits sum.splits)+

lemma fold_ratio:
  "pc_ins_ratio (fold (\<lambda>i tb. tb\<lparr>pc_ins_ratio := (pc_ins_ratio tb)(ins_addr i \<mapsto> r)\<rparr>) is tb) a
     = (if a \<in> ins_addr ` set is then Some r else pc_ins_ratio tb a)"
  by (induction "is" arbitrary: tb) auto

text \<open>The ratio that the report of instruction frequencies shows is always 1: for every memory
  instruction, and the report lists no others, \<open>Trace\<close> divides the trace's number of memory
  instructions by itself.\<close>

lemma bbl_ratio_always_one:
  assumes "Trace k rtn bbls tb = Inr (bcs, tb')" and "KnobRecordFreq k \<noteq> []"
    and "i \<in> set (concat bbls)" and "is_mem i" and "length (concat bbls) < 2 ^ 64"
  shows "pc_ins_ratio tb' (ins_addr i) = Some 1"
proof -
  obtain ti tm tb1 where t: "instrument_bbls k (case rtn of Some n \<Rightarrow> n | None \<Rightarrow> ''unknown'') bbls 0 0 tb
      = Inr (bcs, ti, tm, tb1)" and
    tb': "tb' = fold (\<lambda>i tb. tb\<lparr>pc_ins_ratio := (pc_ins_ratio tb)
        (ins_addr i \<mapsto> f64_of_u64 tm / f64_of_u64 tm)\<rparr>) (concat bbls) tb1"
    using assms(1,2) by (auto simp: Trace_def Let_def split: sum.splits)
  let ?m = "length (filter is_mem (concat bbls))"
  have "filter is_mem (concat bbls) \<noteq> []" using assms(3,4) by (auto simp: filter_empty_conv)
  moreover have "?m < 2 ^ 64" by (rule le_less_trans [OF length_filter_le assms(5)])
  ultimately have "tm \<noteq> 0"
    using instrument_bbls_mem [OF t] by (simp add: word_of_nat_eq_0_iff nat_dvd_not_less)
  then have "f64_of_u64 tm / f64_of_u64 tm = 1" by (rule f64_self_div)
  with assms(3) show ?thesis unfolding tb' fold_ratio by auto
qed

lemma bbl_ratio_always_one_witness:
  "\<exists>bcs tb'. Trace (example_knobs\<lparr>KnobRecordFreq := ''f''\<rparr>) None
      [[example_ins 1 True False, example_ins 2 False False, example_ins 3 False False]] no_tables = Inr (bcs, tb')
    \<and> pc_ins_ratio tb' 1 = Some 1"
proof -
  let ?k = "example_knobs\<lparr>KnobRecordFreq := ''f''\<rparr>"
  let ?bbls = "[[example_ins 1 True False, example_ins 2 False False, example_ins 3 False False]]"
  obtain bcs tb' where t: "Trace ?k None ?bbls no_tables = Inr (bcs, tb')"
    using Trace_total [of ?bbls ?k None no_tables] by auto
  have "pc_ins_ratio tb' (ins_addr (example_ins 1 True False)) = Some 1"
    by (rule bbl_ratio_always_one [OF t]) (simp_all add: is_mem_def example_ins_def)
  with t show ?thesis by (auto simp: example_ins_def)
qed

section \<open>Which routines are instrumented\<close>

lemma count_ImageLoad:
  "count_list (ImageLoad k g secs) (r, c) = count_list (concat secs) r * count_list (rtn_calls k g r) c"
proof -
  have "count_list (map (Pair s) cs) (r, c) = (if s = r then count_list cs c else 0)" for s cs
    by (induction cs) auto
  then have "count_list (concat (map (\<lambda>r. map (Pair r) (rtn_calls k g r)) rs)) (r, c)
      = count_list rs r * count_list (rtn_calls k g r) c" for rs
    by (induction rs) (auto simp: count_list_append)
  then show ?thesis by (simp add: ImageLoad_def)
qed

text \<open>C37. The function-call counter is inserted once into every routine that one of the names of the
  \<open>-fcalls\<close> option selects (the name itself with \<open>-fcalls_exact\<close>, any name that contains it
  without) and into no other, the empty names of the option select nothing, and the lock timer is
  started and stopped in exactly the routines whose name contains \<open>pthread_mutex_lock\<close>.\<close>

theorem routines_instrumented_once:
  fixes g0 :: tool and opt :: string and k :: knobs and secs :: "string list list"
  defines "g \<equiv> g0\<lparr>track_fcalls := (opt \<noteq> []), fcall_names := parse_fcalls opt\<rparr>"
  defines "hooks \<equiv> ImageLoad k g secs"
  shows "count_list hooks (r, Before_CountFunctionCalls)
      = (if (\<exists>n. n \<in> set (getlines (CHR '','') opt) \<and> n \<noteq> []
             \<and> (if KnobFCallsExact k \<noteq> 0 then r = n else \<exists>pre post. r = pre @ n @ post))
         then count_list (concat secs) r else 0)
    \<and> count_list hooks (r, Before_TimerStart)
      = (if pthread_tracking g0 \<and> (\<exists>pre post. r = pre @ ''pthread_mutex_lock'' @ post)
         then count_list (concat secs) r else 0)
    \<and> count_list hooks (r, After_TimerEnd) = count_list hooks (r, Before_TimerStart)"
proof -
  have "opt \<noteq> []" if "n \<in> set (getlines (CHR '','') opt)" for n
    using that by (auto simp: getlines.simps)
  then have sel: "(track_fcalls g \<and> fcall_matches k g r) \<longleftrightarrow>
      (\<exists>n. n \<in> set (getlines (CHR '','') opt) \<and> n \<noteq> []
         \<and> (if KnobFCallsExact k \<noteq> 0 then r = n else \<exists>pre post. r = pre @ n @ post))"
    by (auto simp: g_def fcall_matches_def parse_fcalls_def list_ex_iff contains_iff)
  have lock: "(contains r ''pthread_mutex_lock'' \<and> pthread_tracking g) \<longleftrightarrow>
      pthread_tracking g0 \<and> (\<exists>pre post. r = pre @ ''pthread_mutex_lock'' @ post)"
    by (auto simp: g_def contains_iff)
  show ?thesis
    unfolding hooks_def count_ImageLoad rtn_calls_def sel lock count_list_append by simp
qed

end
