(* ===== verification/Trace_Format.thy ===== *)
theory Trace_Format
  imports Instrumentation
begin

text \<open>
  The bytes of a trace: \<open>struct MEMREF\<close> of \<open>src/pintool/common.h\<close> as it lies in a buffer on x86-64
  (little-endian, the four fields at offsets 0, 8, 16 and 20, no padding), and how a reader gets
  the records back.
\<close>

section \<open>Little-endian numbers\<close>

fun le_bytes :: "nat \<Rightarrow> nat \<Rightarrow> byte list" where
  "le_bytes 0 n = []"
| "le_bytes (Suc k) n = of_nat (n mod 256) # le_bytes k (n div 256)"

fun le_value :: "byte list \<Rightarrow> nat" where
  "le_value [] = 0"
| "le_value (b # bs) = unat b + 256 * le_value bs"

lemma length_le_bytes [simp]: "length (le_bytes k n) = k"
  by (induction k arbitrary: n) simp_all

lemma le_value_bytes: "n < 256 ^ k \<Longrightarrow> le_value (le_bytes k n) = n"
proof (induction k arbitrary: n)
  case (Suc k)
  have "unat (of_nat (n mod 256) :: byte) = n mod 256"
    by (simp add: unsigned_of_nat take_bit_eq_mod)
  moreover have "n div 256 < 256 ^ k" using Suc.prems by (simp add: less_mult_imp_div_less mult.commute)
  ultimately show ?case using Suc.IH by simp
qed simp

section \<open>Records\<close>

definition memref_bytes :: "memref \<Rightarrow> byte list" where
  "memref_bytes r = le_bytes 8 (unat (mr_pc r)) @ le_bytes 8 (unat (mr_ea r))
     @ le_bytes 4 (unat (mr_sz r)) @ le_bytes 4 (unat (mr_is_read r))"

definition memref_of :: "byte list \<Rightarrow> memref" where
  "memref_of bs = \<lparr>mr_pc = of_nat (le_value (take 8 bs)), mr_ea = of_nat (le_value (take 8 (drop 8 bs))),
     mr_sz = of_nat (le_value (take 4 (drop 16 bs))), mr_is_read = of_nat (le_value (take 4 (drop 20 bs)))\<rparr>"

lemma length_memref_bytes [simp]: "length (memref_bytes r) = 24"
  by (simp add: memref_bytes_def)

lemma memref_of_bytes: "memref_of (memref_bytes r) = r"
proof -
  have v: "le_value (le_bytes 8 (unat (w :: u64))) = unat w" for w
    using unat_u64_less [of w] by (intro le_value_bytes) (simp del: unat_u64_less)
  have u: "le_value (le_bytes 4 (unat (w :: u32))) = unat w" for w
    using unat_u32_less [of w] by (intro le_value_bytes) (simp del: unat_u32_less)
  show ?thesis by (simp add: memref_of_def memref_bytes_def v u)
qed

text \<open>A reader takes 24 bytes at a time; \<open>None\<close> where a record is cut.\<close>

function read_trace :: "byte list \<Rightarrow> memref list option" where
  "read_trace bs =
     (if bs = [] then Some []
      else if length bs < 24 then None
      else (case read_trace (drop 24 bs) of
              None \<Rightarrow> None
            | Some rs \<Rightarrow> Some (memref_of (take 24 bs) # rs)))"
  by pat_completeness auto
termination by (relation "measure length") simp_all

declare read_trace.simps [simp del]

lemma read_trace_Nil [simp]: "read_trace [] = Some []"
  by (simp add: read_trace.simps)

lemma read_trace_Cons:
  "read_trace (memref_bytes r @ bs) = (case read_trace bs of None \<Rightarrow> None | Some rs \<Rightarrow> Some (r # rs))"
proof -
  have "memref_bytes r @ bs \<noteq> []" using length_memref_bytes [of r] by (metis append_is_Nil_conv list.size(3) zero_neq_numeral)
  moreover have "take 24 (memref_bytes r @ bs) = memref_bytes r" "drop 24 (memref_bytes r @ bs) = bs"
    by simp_all
  ultimately show ?thesis by (subst read_trace.simps) (simp del: take_append drop_append add: memref_of_bytes split: option.split)
qed

definition buffer_of :: "memref list \<Rightarrow> byte list" where
  "buffer_of rs = concat (map memref_bytes rs)"

lemma length_buffer_of: "length (buffer_of rs) = 24 * length rs"
  by (induction rs) (simp_all add: buffer_of_def)

lemma read_trace_buffers: "read_trace (concat (map buffer_of rss)) = Some (concat rss)"
proof -
  have one: "read_trace (buffer_of rs @ bs)
      = (case read_trace bs of None \<Rightarrow> None | Some qs \<Rightarrow> Some (rs @ qs))" for rs bs
    by (induction rs) (auto simp: buffer_of_def read_trace_Cons split: option.split)
  show ?thesis by (induction rss) (simp_all add: one)
qed

end
