(* ===== verification/Thread_Start.thy ===== *)
theory Thread_Start
  imports Buffer_Transfer Cpp_String Consumer_Header
begin

text \<open>
  \<open>ThreadStart\<close> and \<open>ThreadFini\<close> of \<open>src/pintool/bullettime.cpp\<close>: how a traced thread gets its
  buffers, announces itself to the consumer, connects to it, and ends. Pin's number formatting
  (\<open>decstr\<close>), its buffers, and the results of the system calls are the environment
  (\<open>start_env\<close>). What the code does to files, sockets and memory is the list of its events.
\<close>

section \<open>Environment and events\<close>

datatype tool_event =
    Pin_call pin_event
  | Cleared u64 u64              \<comment> \<open>a buffer and the number of bytes set to 0\<close>
  | Wrote_file string string     \<comment> \<open>path and contents\<close>
  | Connected string string      \<comment> \<open>the paths of the ready and the size socket\<close>
  | Mapped_file string u64
  | Shut_down int
  | Closed_fd int
  | Unmapped u64

record start_env =
  ts_decstr :: "u32 \<Rightarrow> string"
  ts_buffer :: "nat \<Rightarrow> u64"        \<comment> \<open>\<open>PIN_GetBufferPointer\<close>\<close>
  ts_alloc :: "nat \<Rightarrow> u64"         \<comment> \<open>\<open>PIN_AllocateBuffer\<close>\<close>
  ts_start :: u64
  ts_native_tid :: u32
  ts_sock_rdy :: int
  ts_sock_size :: int
  ts_rdy_ok :: "nat \<Rightarrow> bool"       \<comment> \<open>whether \<open>connect\<close> succeeds in the loop's \<open>i\<close>-th round\<close>
  ts_size_ok :: "nat \<Rightarrow> bool"
  ts_open :: "string \<Rightarrow> int option"
  ts_map :: "int \<Rightarrow> byte list option"

section \<open>Names\<close>

text \<open>\<open>substr(0, found)\<close> and \<open>substr(found + 1)\<close>; where there is no separator \<open>found\<close> is \<open>npos\<close>,
  \<open>found + 1\<close> is 0, and both are the whole string.\<close>

definition split_prefix :: "string \<Rightarrow> string \<times> string" where
  "split_prefix s = (case find_last_of ''/'' s of
     None \<Rightarrow> (s, s)
   | Some found \<Rightarrow> (take found s, drop (Suc found) s))"

definition thread_file :: "(u32 \<Rightarrow> string) \<Rightarrow> string \<Rightarrow> u32 \<Rightarrow> u32 \<Rightarrow> string" where
  "thread_file decstr prefix native_tid tid = prefix @ ''-'' @ decstr native_tid @ ''.'' @ decstr tid"

text \<open>\<open>sun_path\<close> has 108 bytes, the last one a null.\<close>

definition sun_path :: "string \<Rightarrow> string" where
  "sun_path s = take 107 s"

section \<open>Starting a thread\<close>

definition start_buffer ::
    "'s sem_api \<Rightarrow> tool \<Rightarrow> start_env \<Rightarrow> nat \<Rightarrow> tool_event list \<times> 's app_thread
       \<Rightarrow> fault + tool_event list \<times> 's app_thread" where
  "start_buffer api g e i = (\<lambda>(es, a).
     (let buf = ts_buffer e i;
          a = a\<lparr>currentBufs := (currentBufs a)[i := buf]\<rparr>
      in if currentBufs a ! i = 0 then Inl Assert_failed
         else
          (let buf_size = bufSizes g ! i * buf_entry_limit g;
               (ps, a) = AllocateBuffers api buf_size (ts_alloc e) i a
           in Inr (es @ [Pin_call (Protected buf buf_size), Cleared buf buf_size] @ map Pin_call ps, a))))"

text \<open>The loop that tries to connect both sockets: \<open>None\<close> where it never ends.\<close>

partial_function (option) connect_loop :: "(nat \<Rightarrow> bool) \<Rightarrow> (nat \<Rightarrow> bool) \<Rightarrow> nat \<Rightarrow> nat option" where
  "connect_loop rdy_ok size_ok i =
     (if \<not> rdy_ok i \<or> \<not> size_ok i then connect_loop rdy_ok size_ok (Suc i) else Some i)"

definition open_shared_mem :: "start_env \<Rightarrow> u32 \<Rightarrow> (string \<times> int) option" where
  "open_shared_mem e tid =
     (let shared_mem = ''/dev/hugepages/shared_mem_'' @ ts_decstr e tid in
      case ts_open e shared_mem of
        Some fd \<Rightarrow> Some (shared_mem, fd)
      | None \<Rightarrow>
         (let shared_mem = ''/dev/shm/shared_mem_'' @ ts_decstr e tid in
          case ts_open e shared_mem of
            Some fd \<Rightarrow> Some (shared_mem, fd)
          | None \<Rightarrow> None))"

definition connect_consumer ::
    "knobs \<Rightarrow> start_env \<Rightarrow> u32 \<Rightarrow> tool_event list \<times> 's app_thread
       \<Rightarrow> (fault + tool_event list \<times> 's app_thread) option" where
  "connect_consumer k e tid = (\<lambda>(es, a).
     (let (dir, prefix) = split_prefix (KnobOutPrefix k);
          pid_dir = dir @ ''/pids/'';
          prefix = thread_file (ts_decstr e) prefix (ts_native_tid e) tid;
          fname = pid_dir @ prefix;
          es = es @ [Wrote_file fname prefix]
      in if ts_sock_rdy e = - 1 \<or> ts_sock_size e = - 1 then Some (Inl Exit_called)
         else
          (let rdy_name = dir @ ''/rdy_'' @ ts_decstr e tid;
               size_name = dir @ ''/size_'' @ ts_decstr e tid
           in case connect_loop (ts_rdy_ok e) (ts_size_ok e) 0 of
                None \<Rightarrow> None
              | Some _ \<Rightarrow>
                 (let es = es @ [Connected (sun_path rdy_name) (sun_path size_name)] in
                  case open_shared_mem e tid of
                    None \<Rightarrow> Some (Inl Exit_called)
                  | Some (name, fd) \<Rightarrow>
                     (case ts_map e fd of
                        None \<Rightarrow> Some (Inl Exit_called)
                      | Some mem \<Rightarrow>
                         Some (Inr (es @ [Mapped_file name (of_nat ALLOCATION_SIZE)],
                           a\<lparr>sock_rdy := ts_sock_rdy e, sock_size := ts_sock_size e,
                             shared_mem := Some mem, shared_mem_size := of_nat ALLOCATION_SIZE,
                             shm_fd := fd\<rparr>)))))))"

text \<open>\<open>this\<close> is the identity of the new thread representative.\<close>

definition ThreadStart ::
    "'s sem_api \<Rightarrow> knobs \<Rightarrow> tool \<Rightarrow> start_env \<Rightarrow> nat \<Rightarrow> u32
       \<Rightarrow> (fault + tool_event list \<times> 's app_thread) option" where
  "ThreadStart api k g e this tid =
     (case app_thread_ctor api this tid of
        Inl er \<Rightarrow> Some (Inl er)
      | Inr a \<Rightarrow>
         (case fold_fault (start_buffer api g e) [0..<NUM_BUF_TYPES] ([], a) of
            Inl er \<Rightarrow> Some (Inl er)
          | Inr (es, a) \<Rightarrow>
             (let a = a\<lparr>buf_gen_time := map (\<lambda>i. ts_start e) [0..<NUM_BUF_TYPES]\<rparr> in
              if KnobOutPrefix k \<noteq> [] then connect_consumer k e tid (es, a)
              else Some (Inr (es, a)))))"

section \<open>Ending a thread\<close>

text \<open>The events, the number of memory references that is printed, and the new globals; \<open>None\<close> where
  a buffer is awaited forever.\<close>

definition ThreadFini ::
    "'s sem_api \<Rightarrow> knobs \<Rightarrow> 's app_thread option \<Rightarrow> tool \<Rightarrow> (fault + tool_event list \<times> u64 \<times> tool) option" where
  "ThreadFini api k th g =
     (case th of
        None \<Rightarrow> Some (Inl Assert_failed)
      | Some a \<Rightarrow>
         (case AllBuffersProcessed api a of
            None \<Rightarrow> None
          | Some (Inl er) \<Rightarrow> Some (Inl er)
          | Some (Inr (ps, a)) \<Rightarrow>
             (let es = map Pin_call ps @
                    (if KnobOutPrefix k \<noteq> []
                     then [Shut_down (sock_rdy a), Shut_down (sock_size a), Closed_fd (sock_rdy a),
                           Closed_fd (sock_size a), Closed_fd (shm_fd a), Unmapped (shared_mem_size a)]
                     else []);
                  g = g\<lparr>overall := AccumulateAppThreadStatistics (stats a) (overall g)\<rparr>
              in Some (Inr (es, st_elements (stats a), g)))))"

section \<open>The connection loop\<close>

lemma connect_loop_returns:
  "i \<le> n \<Longrightarrow> rdy_ok n \<Longrightarrow> size_ok n \<Longrightarrow> \<exists>m\<le>n. connect_loop rdy_ok size_ok i = Some m"
proof (induction "n - i" arbitrary: i)
  case 0
  then show ?case by (simp add: connect_loop.simps)
next
  case (Suc d)
  from Suc.hyps(2) have "d = n - Suc i" "Suc i \<le> n" by simp_all
  from Suc.hyps(1) [OF this Suc.prems(2,3)] Suc.prems(1)
  show ?case by (subst connect_loop.simps) auto
qed

lemma connect_loop_Some:
  assumes "connect_loop rdy_ok size_ok i = Some n"
  shows "i \<le> n \<and> rdy_ok n \<and> size_ok n"
  using connect_loop.raw_induct [where P = "\<lambda>rdy_ok size_ok i n. i \<le> n \<and> rdy_ok n \<and> size_ok n", OF _ assms]
  by (fastforce split: if_splits dest: Suc_leD)

section \<open>A connected thread\<close>

lemma connect_consumer_Inr:
  assumes "connect_consumer k e tid (es, a) = Some (Inr (es', a'))"
  shows "sock_rdy a' \<noteq> - 1 \<and> sock_size a' \<noteq> - 1 \<and> shared_mem_size a' = of_nat ALLOCATION_SIZE
    \<and> (\<exists>name fd mem. open_shared_mem e tid = Some (name, fd) \<and> ts_map e fd = Some mem
         \<and> shared_mem a' = Some mem \<and> shm_fd a' = fd)
    \<and> stats a' = stats a \<and> buf_gen_time a' = buf_gen_time a \<and> free_lists a' = free_lists a
    \<and> allocated a' = allocated a \<and> currentBufs a' = currentBufs a"
  using assms
  by (auto simp: connect_consumer_def Let_def split: prod.splits if_splits option.splits)

lemma ThreadStart_connected:
  assumes "ThreadStart api k g e this tid = Some (Inr (es, a))" and "KnobOutPrefix k \<noteq> []"
  shows "sock_rdy a \<noteq> - 1 \<and> sock_size a \<noteq> - 1 \<and> shared_mem_size a = of_nat ALLOCATION_SIZE
    \<and> (\<exists>name fd mem. open_shared_mem e tid = Some (name, fd) \<and> ts_map e fd = Some mem
         \<and> shared_mem a = Some mem \<and> shm_fd a = fd)"
proof -
  obtain es1 a1 where "connect_consumer k e tid (es1, a1) = Some (Inr (es, a))"
    using assms by (auto simp: ThreadStart_def Let_def split: sum.splits)
  from connect_consumer_Inr [OF this] show ?thesis by blast
qed

end
