(* ===== verification/End_To_End.thy ===== *)
theory End_To_End
  imports Listen_Trace Trace_Format Thread_Start
begin

text \<open>
  The tool and the consumer together: the buffers a traced thread hands over
  (\<open>CopyToSharedMemory\<close>, \<open>src/pintool/bullettime.cpp\<close>) arrive in its listener (\<open>Listen\<close>,
  \<open>src/consumer/consumer.cpp\<close>) through the shared memory and the size socket. \<open>delivered\<close> says that
  a listener's iterations see what the thread's transfers did: the words of each message, and the
  memory as the copy left it.
\<close>

section \<open>The channel\<close>

definition send_buffer :: "bool \<Rightarrow> 's app_thread \<Rightarrow> reading \<Rightarrow> fault + u64 list option \<times> 's app_thread" where
  "send_buffer track a r = CopyToSharedMemory track (rd_env r) (rd_buf r) (rd_bytes r) 0
     (a\<lparr>stats := rd_stats r, fcalls_executed := rd_fcalls r\<rparr>)"

text \<open>After the last buffer the listener is stopped or finds the socket closed when it sends.\<close>

fun delivered :: "bool \<Rightarrow> 's app_thread \<Rightarrow> reading list \<Rightarrow> listen_env list \<Rightarrow> bool" where
  "delivered track a rs [] = True"
| "delivered track a [] (e # es) = (le_stop e \<or> le_send e = Send_EPIPE)"
| "delivered track a (r # rs) (e # es) =
     (le_stop e \<or> le_send e = Send_EPIPE
      \<or> (case send_buffer track a r of
            Inr (Some msg, a') \<Rightarrow> le_recv e = Recv_words msg \<and> shared_mem a' = Some (le_shm e)
              \<and> delivered track a' rs es
          | _ \<Rightarrow> False))"

definition payload :: "reading \<Rightarrow> byte list" where
  "payload r = take (unat (rd_bytes r)) (rd_buf r)"

section \<open>What arrives\<close>

lemma send_buffer_Some:
  assumes "send_buffer track a r = Inr (Some msg, a')" and "unat (rd_bytes r) \<le> length (rd_buf r)"
    and "shared_mem a' = Some mem"
  shows "length msg = 7" and "data_size (meta_of msg) = rd_bytes r" and "take (unat (rd_bytes r)) mem = payload r"
proof -
  note s = CopyToSharedMemory_Some [OF assms(1) [unfolded send_buffer_def]]
  show "length msg = 7" "data_size (meta_of msg) = rd_bytes r" using s(2) by (simp_all add: meta_of_def)
  show "take (unat (rd_bytes r)) mem = payload r"
    using s(1) assms(2,3) by (auto simp: payload_def)
qed

lemma store_all_words: "length ws = length buf \<Longrightarrow> store_words ws buf = ws"
  by (simp add: store_words_def)

lemma received_is_prefix:
  assumes "delivered track a rs es" and "length (recv_data l) = 7"
    and "\<And>r. r \<in> set rs \<Longrightarrow> unat (rd_bytes r) \<le> length (rd_buf r)"
  shows "loop_received zs i es l c = take (length (loop_received zs i es l c)) (map payload rs)"
  using assms
proof (induction track a rs es arbitrary: l c rule: delivered.induct)
  case (2 track a e es)
  then show ?case by (auto simp: listen_iter_def)
next
  case (3 track a r rs e es)
  show ?case
  proof (cases "le_stop e")
    case go: False
    show ?thesis
    proof (cases "listen_iter zs i e l c")
      case (Next l1 c1)
      then have "le_send e \<noteq> Send_EPIPE" by (auto simp: listen_iter_def)
      then obtain msg a' where m: "send_buffer track a r = Inr (Some msg, a')" "le_recv e = Recv_words msg"
        "shared_mem a' = Some (le_shm e)" "delivered track a' rs es"
        using 3(2) go by (auto split: sum.splits option.splits)
      have b: "unat (rd_bytes r) \<le> length (rd_buf r)" using 3(4) by simp
      note s = send_buffer_Some [OF m(1) b m(3)]
      have rd: "recv_data l1 = msg"
        using listen_iter_recv [OF Next] m(2) s(1) 3(3) by (auto simp: store_all_words)
      have "loop_received zs i es l1 c1 = take (length (loop_received zs i es l1 c1)) (map payload rs)"
        by (rule 3(1) [OF m(1) refl refl m(4)]) (use rd s(1) 3(4) in simp_all)
      then show ?thesis using go Next rd s(2,3) by simp
    qed (use go in simp_all)
  qed simp
qed simp

lemma payload_buffer:
  assumes "rd_buf r = buffer_of recs @ rest" and "unat (rd_bytes r) = 24 * length recs"
  shows "payload r = buffer_of recs"
  using assms by (simp add: payload_def length_buffer_of)

section \<open>Running instrumented blocks\<close>

text \<open>Block \<open>bc\<close> is what \<open>Trace\<close> made of the instructions \<open>b\<close>.\<close>

definition instrumented :: "knobs \<Rightarrow> ins list \<Rightarrow> bbl_calls \<Rightarrow> bool" where
  "instrumented k b bc \<longleftrightarrow> (\<exists>rtn bbls tb bcs tb' j. Trace k rtn bbls tb = Inr (bcs, tb')
     \<and> j < length bbls \<and> b = bbls ! j \<and> bc = bcs ! j)"

lemma instrument_bbls_ins:
  "instrument_bbls k f bs ti tm tb = Inr (bcs, r) \<Longrightarrow>
     length bcs = length bs \<and> (\<forall>j<length bs. bc_ins (bcs ! j) = map (ins_calls k) (bs ! j))"
proof (induction k f bs ti tm tb arbitrary: bcs r rule: instrument_bbls.induct)
  case (2 k f b bs ti tm tb)
  then obtain bc tb1 bcs1 where b: "instrument_bbl k f b tb = Inr (bc, tb1)"
    and bs: "instrument_bbls k f bs (ti + bc_num_ins bc) (tm + bc_num_mem_ins bc) tb1 = Inr (bcs1, r)"
    and bcs: "bcs = bc # bcs1" by (auto split: sum.splits)
  from 2(1) [OF b refl bs] have IH: "length bcs1 = length bs"
    "\<forall>j<length bs. bc_ins (bcs1 ! j) = map (ins_calls k) (bs ! j)" by simp_all
  moreover have "bc_ins bc = map (ins_calls k) b"
    using b by (auto simp: instrument_bbl_def Let_def split: prod.splits if_splits)
  ultimately show ?case by (auto simp: bcs nth_Cons split: nat.splits)
qed simp

lemma instrumented_ins: "instrumented k b bc \<Longrightarrow> bc_ins bc = map (ins_calls k) b"
proof -
  assume "instrumented k b bc"
  then obtain rtn bbls tb bcs tb' j where t: "Trace k rtn bbls tb = Inr (bcs, tb')"
    and j: "j < length bbls" "b = bbls ! j" "bc = bcs ! j" unfolding instrumented_def by blast
  obtain r where "instrument_bbls k (case rtn of Some n \<Rightarrow> n | None \<Rightarrow> ''unknown'') bbls 0 0 tb = Inr (bcs, r)"
    using t by (auto simp: Trace_def Let_def split: sum.splits)
  from instrument_bbls_ins [OF this] j show ?thesis by simp
qed

definition run_block :: "bbl_calls \<times> access list \<Rightarrow> memref list \<times> 's app_thread option
    \<Rightarrow> fault + memref list \<times> 's app_thread option" where
  "run_block = (\<lambda>(bc, ds). run_bbl bc ds)"

lemma run_blocks:
  "fold_fault run_block (map snd blocks) (out, Some a) = Inr (out', th) \<Longrightarrow>
   (\<And>b bc ds. (b, bc, ds) \<in> set blocks \<Longrightarrow> instrumented k b bc \<and> length ds = length b) \<Longrightarrow>
     out' = out @ concat (map (\<lambda>(b, bc, ds). concat (map2 accesses b ds)) blocks)"
proof (induction blocks arbitrary: out a)
  case (Cons x blocks)
  obtain b bc ds where x: "x = (b, bc, ds)" by (cases x)
  have i: "instrumented k b bc" "length ds = length b" using Cons.prems(2) [of b bc ds] x by simp_all
  let ?s = "IncrementInsExecuted (bc_num_ins bc) (bc_num_mem_ins bc) (stats a)"
  have "run_block (bc, ds) (out, Some a)
      = Inr (out @ concat (map2 accesses b ds), Some (a\<lparr>stats := fold (noted k) b ?s\<rparr>))"
    using i by (simp add: run_block_def run_bbl_def RecordInsExecuted_def instrumented_ins run_ins_calls)
  with Cons.prems(1) have "fold_fault run_block (map snd blocks)
      (out @ concat (map2 accesses b ds), Some (a\<lparr>stats := fold (noted k) b ?s\<rparr>)) = Inr (out', th)"
    by (simp add: x)
  moreover have "\<And>b bc ds. (b, bc, ds) \<in> set blocks \<Longrightarrow> instrumented k b bc \<and> length ds = length b"
    by (rule Cons.prems(2)) simp
  ultimately have "out' = (out @ concat (map2 accesses b ds))
      @ concat (map (\<lambda>(b, bc, ds). concat (map2 accesses b ds)) blocks)"
    by (rule Cons.IH)
  then show ?case by (simp add: x)
qed simp

section \<open>The buffers of a session\<close>

text \<open>A buffer holds some records from its start, no more than fit the consumer's buffer.\<close>

definition holds_records :: "reading \<Rightarrow> memref list \<Rightarrow> bool" where
  "holds_records r recs \<longleftrightarrow> unat (rd_bytes r) = 24 * length recs \<and> 24 * length recs \<le> CONSUMER_BUFFER_SIZE
     \<and> take (24 * length recs) (rd_buf r) = buffer_of recs"

lemma holds_records_payload:
  "holds_records r recs \<Longrightarrow> payload r = buffer_of recs \<and> unat (rd_bytes r) \<le> length (rd_buf r)
     \<and> length (payload r) \<le> CONSUMER_BUFFER_SIZE"
proof -
  assume h: "holds_records r recs"
  then have "length (take (24 * length recs) (rd_buf r)) = 24 * length recs"
    by (simp only: holds_records_def length_buffer_of)
  then have "24 * length recs \<le> length (rd_buf r)" by simp
  with h show ?thesis by (simp add: holds_records_def payload_def length_buffer_of)
qed

lemma session_buffers:
  assumes "list_all2 holds_records rs recss" and "delivered track a rs es" and "length (recv_data l) = 7"
    and "length (loop_received zs i es l c) = length rs"
  shows "loop_received zs i es l c = map buffer_of recss"
    and "b \<in> set (loop_received zs i es l c) \<Longrightarrow> length b \<le> CONSUMER_BUFFER_SIZE"
proof -
  have p: "map payload rs = map buffer_of recss"
    using assms(1)
  proof (induction rule: list_all2_induct)
    case (Cons r rs recs recss)
    with holds_records_payload [OF Cons(1)] show ?case by simp
  qed simp
  have "unat (rd_bytes r) \<le> length (rd_buf r) \<and> length (payload r) \<le> CONSUMER_BUFFER_SIZE" if "r \<in> set rs" for r
    using that assms(1) holds_records_payload by (fastforce simp: list_all2_conv_all_nth in_set_conv_nth)
  note bounds = this
  have "loop_received zs i es l c = take (length (loop_received zs i es l c)) (map payload rs)"
    using bounds by (intro received_is_prefix [OF assms(2,3)]) simp
  then have "loop_received zs i es l c = map payload rs" using assms(4) by (metis length_map order_refl take_all)
  then show "loop_received zs i es l c = map buffer_of recss"
    and "b \<in> set (loop_received zs i es l c) \<Longrightarrow> length b \<le> CONSUMER_BUFFER_SIZE"
    using bounds by (simp_all only: p [symmetric]) auto
qed

end
