(* ===== verification/Pretty_Table.thy ===== *)
theory Pretty_Table
  imports Cpp_String
begin

text \<open>
  \<open>src/pintool/pretty_table.h\<close>: a text table with left-justified columns. The loops over column
  indices are recursions over the widths and the row; printing gives the lines. The property is
  that the column borders of all lines are at the same places.
\<close>

section \<open>The table\<close>

record pretty_table =
  headers :: "string list"
  widths :: "nat list"
  rows :: "string list list"

definition pretty_table_ctor :: "string list \<Rightarrow> pretty_table" where
  "pretty_table_ctor hs = \<lparr>headers = hs, widths = map length hs, rows = []\<rparr>"

fun widen :: "nat list \<Rightarrow> string list \<Rightarrow> nat list" where
  "widen (w # ws) (c # cs) = max w (length c) # widen ws cs"
| "widen ws cs = ws"

definition add_row :: "string list \<Rightarrow> pretty_table \<Rightarrow> pretty_table" where
  "add_row row t = t\<lparr>widths := widen (widths t) row, rows := rows t @ [row]\<rparr>"

section \<open>Printing\<close>

text \<open>\<open>std::left\<close> with \<open>std::setw\<close>: a cell that is too long is not cut.\<close>

definition pad :: "nat \<Rightarrow> string \<Rightarrow> string" where
  "pad w c = c @ replicate (w - length c) (CHR '' '')"

fun print_cells :: "nat list \<Rightarrow> string list \<Rightarrow> string" where
  "print_cells [] row = []"
| "print_cells (w # ws) [] = pad w [] @ '' | '' @ print_cells ws []"
| "print_cells (w # ws) (c # cs) = pad w c @ '' | '' @ print_cells ws cs"

definition print_row :: "nat list \<Rightarrow> string list \<Rightarrow> string" where
  "print_row ws row = ''| '' @ print_cells ws row"

definition print_separator :: "nat list \<Rightarrow> string" where
  "print_separator ws = ''|'' @ concat (map (\<lambda>w. replicate (w + 2) (CHR ''-'') @ ''|'') ws)"

definition print_lines :: "pretty_table \<Rightarrow> string list" where
  "print_lines t = print_row (widths t) (headers t) # print_separator (widths t)
     # map (print_row (widths t)) (rows t)"

definition print_table :: "pretty_table \<Rightarrow> string" where
  "print_table t = concat (map (\<lambda>l. l @ newline) (print_lines t))"

section \<open>Alignment\<close>

fun fits :: "nat list \<Rightarrow> string list \<Rightarrow> bool" where
  "fits (w # ws) (c # cs) \<longleftrightarrow> length c \<le> w \<and> fits ws cs"
| "fits ws cs \<longleftrightarrow> True"

definition table_ok :: "pretty_table \<Rightarrow> bool" where
  "table_ok t \<longleftrightarrow> fits (widths t) (headers t) \<and> list_all (fits (widths t)) (rows t)"

lemma length_widen [simp]: "length (widen ws row) = length ws"
  by (induction ws row rule: widen.induct) auto

lemma fits_lengths: "fits (map length row) row"
  by (induction row) auto

lemma fits_widen: "fits (widen ws row) row"
  by (induction ws row rule: widen.induct) auto

lemma fits_widen_mono: "fits ws cs \<Longrightarrow> fits (widen ws row) cs"
proof (induction ws row arbitrary: cs rule: widen.induct)
  case (1 w ws c row)
  then show ?case by (cases cs) auto
qed auto

lemma table_ok_ctor: "table_ok (pretty_table_ctor hs)"
  by (simp add: table_ok_def pretty_table_ctor_def fits_lengths)

lemma table_ok_add_row: "table_ok t \<Longrightarrow> table_ok (add_row row t)"
  by (auto simp: table_ok_def add_row_def fits_widen fits_widen_mono list_all_iff)

lemma table_ok_rows: "table_ok t \<Longrightarrow> table_ok (fold add_row rs t)"
  by (induction rs arbitrary: t) (simp_all add: table_ok_add_row)

lemma length_pad [simp]: "length c \<le> w \<Longrightarrow> length (pad w c) = w"
  by (simp add: pad_def)

text \<open>The offset of the border before column \<open>k\<close>.\<close>

definition border :: "nat list \<Rightarrow> nat \<Rightarrow> nat" where
  "border ws k = sum_list (map (\<lambda>w. w + 3) (take k ws))"

lemma border_simps [simp]: "border ws 0 = 0" "border (w # ws) (Suc k) = (w + 3) + border ws k"
  by (simp_all add: border_def)

lemma print_row_border:
  "fits ws row \<Longrightarrow> k \<le> length ws \<Longrightarrow> print_row ws row ! border ws k = CHR ''|''"
proof (induction ws row arbitrary: k rule: print_cells.induct)
  case (1 row)
  then show ?case by (simp add: print_row_def)
next
  case (2 w ws)
  have eq: "print_row (w # ws) [] = (''| '' @ pad w [] @ '' '') @ print_row ws []"
    by (simp add: print_row_def)
  show ?case
  proof (cases k)
    case 0
    then show ?thesis by (simp add: print_row_def)
  next
    case (Suc j)
    with 2 have "print_row ws [] ! border ws j = CHR ''|''" by simp
    then show ?thesis unfolding eq Suc by (simp add: nth_append)
  qed
next
  case (3 w ws c cs)
  have eq: "print_row (w # ws) (c # cs) = (''| '' @ pad w c @ '' '') @ print_row ws cs"
    by (simp add: print_row_def)
  show ?case
  proof (cases k)
    case 0
    then show ?thesis by (simp add: print_row_def)
  next
    case (Suc j)
    with 3 have "print_row ws cs ! border ws j = CHR ''|''" "length (pad w c) = w" by simp_all
    then show ?thesis unfolding eq Suc by (simp add: nth_append)
  qed
qed

lemma print_separator_border: "k \<le> length ws \<Longrightarrow> print_separator ws ! border ws k = CHR ''|''"
proof (induction ws arbitrary: k)
  case (Cons w ws)
  have eq: "print_separator (w # ws) = (''|'' @ replicate (w + 2) (CHR ''-'')) @ print_separator ws"
    by (simp add: print_separator_def)
  show ?case
  proof (cases k)
    case 0
    then show ?thesis by (simp add: print_separator_def)
  next
    case (Suc j)
    with Cons show ?thesis unfolding eq Suc by (simp add: nth_append)
  qed
qed (simp add: print_separator_def)

lemma length_print_row: "fits ws row \<Longrightarrow> length (print_row ws row) = border ws (length ws) + 2"
  unfolding print_row_def
  by (induction ws row rule: print_cells.induct) (simp_all add: add.commute add.left_commute)



end
