(* ===== verification/Tool_Main.thy ===== *)
theory Tool_Main
  imports Thread_Start Instrumentation Pretty_Table
begin

text \<open>
  \<open>main\<close>, \<open>EndTrace\<close>, \<open>PrepareForFini\<close> and \<open>Fini\<close> of \<open>src/pintool/bullettime.cpp\<close>: how the
  options set the globals, and what the tool writes at the end: the statistics, the report of the
  most frequent instructions, and the file that stops the consumer. Pin's \<open>hexstr\<close>, the order
  that \<open>std::sort\<close> chooses among equal counts, the clock and \<open>OS_MkDir\<close> are the environment.
\<close>

section \<open>Starting the tool\<close>

definition tool_init :: tool where
  "tool_init = \<lparr>buf_entry_limit = 0, bufSizes = [MEMREF_SIZE], profiledAccesses = 0, profileLimit = 0,
     trace_started = False, track_fcalls = False, fcall_names = [], pthread_tracking = False,
     overall = overall_zero\<rparr>"

datatype mkdir_result = Mkdir_ok | Mkdir_exists | Mkdir_error

datatype main_event = Defined_buffer u64 u32 | Made_dir string

text \<open>The directory with the thread files; here a backslash separates, too.\<close>

definition pids_dir :: "string \<Rightarrow> string" where
  "pids_dir s = (case find_last_of [CHR ''/'', CHR 0x5C] s of None \<Rightarrow> s | Some found \<Rightarrow> take found s) @ ''/pids''"

definition tool_main ::
    "knobs \<Rightarrow> (string \<Rightarrow> mkdir_result) \<Rightarrow> u64 \<Rightarrow> tool \<Rightarrow> fault + main_event list \<times> tool" where
  "tool_main k mkdir now g =
     (let g = (if KnobCountFCalls k \<noteq> []
               then g\<lparr>track_fcalls := True,
                      fcall_names := fcall_names g @ parse_fcalls (KnobCountFCalls k)\<rparr> else g);
          g = (if 0 < sint (KnobProfSync k) then g\<lparr>pthread_tracking := True\<rparr> else g);
          g = g\<lparr>bufSizes := (bufSizes g)[0 := MEMREF_SIZE],
                buf_entry_limit := ucast (KnobNumPagesInBuffer k) * 4096 div MEMREF_SIZE\<rparr>;
          es = [Defined_buffer MEMREF_SIZE (KnobNumPagesInBuffer k)];
          g = g\<lparr>profileLimit := (if 0 < sint (KnobProfile k) then scast (KnobProfile k) * 1000000 else 0)\<rparr>
      in if KnobOutPrefix k \<noteq> [] \<and> mkdir (pids_dir (KnobOutPrefix k)) = Mkdir_error then Inl Exit_called
         else Inr (es @ (if KnobOutPrefix k \<noteq> [] then [Made_dir (pids_dir (KnobOutPrefix k))] else []),
                   g\<lparr>overall := overall_init (KnobProfileOutFile k) now (overall g)\<rparr>))"

section \<open>Ending the trace\<close>

definition PrepareForFini :: "u64 \<Rightarrow> tool \<Rightarrow> tool" where
  "PrepareForFini now g = g\<lparr>overall := EndTime now (overall g)\<rparr>"

text \<open>Then the application is told to exit, which calls \<open>PrepareForFini\<close> once more.\<close>

definition EndTrace :: "u64 \<Rightarrow> tool \<Rightarrow> tool" where
  "EndTrace now g = PrepareForFini now g"

section \<open>The report of instruction frequencies\<close>

text \<open>\<open>std::fixed\<close> with three digits. (The sign that a NaN is printed with is not modelled.)\<close>

definition fixed3 :: "f64 \<Rightarrow> string" where
  "fixed3 x = (case x of
     NaN \<Rightarrow> ''nan''
   | Inf s \<Rightarrow> (if s then ''-'' else []) @ ''inf''
   | Fin s a \<Rightarrow>
       (let n = nat (rne (a * 1000))
        in (if s then ''-'' else []) @ dec_nat (n div 1000) @ ''.''
           @ [digit_char (n div 100 mod 10), digit_char (n div 10 mod 10), digit_char (n mod 10)]))"

record fini_env =
  fe_sort :: "(u64 \<times> u64) list \<Rightarrow> (u64 \<times> u64) list"
  fe_hexstr :: "u64 \<Rightarrow> string"

definition cap_name :: "string \<Rightarrow> string" where
  "cap_name fname = (if 50 < length fname then take 50 fname @ ''...'' else fname)"

definition report_row :: "fini_env \<Rightarrow> pc_tables \<Rightarrow> u64 \<times> u64 \<Rightarrow> string list" where
  "report_row fe tb = (\<lambda>(pc, cnt).
     (let ins = (case pc_ins_string tb pc of None \<Rightarrow> [] | Some s \<Rightarrow> s);
          fname = (case pc_ins_function tb pc of None \<Rightarrow> [] | Some s \<Rightarrow> s);
          bbl_ratio = (case pc_ins_ratio tb pc of None \<Rightarrow> 0 | Some r \<Rightarrow> r)
      in [fe_hexstr fe pc, dec_nat (unat cnt), cap_name fname, fixed3 bbl_ratio, ins]))"

fun report_rows :: "fini_env \<Rightarrow> pc_tables \<Rightarrow> (u64 \<times> u64) list \<Rightarrow> nat \<Rightarrow> pretty_table \<Rightarrow> pretty_table" where
  "report_rows fe tb [] printed vt = vt"
| "report_rows fe tb ((pc, cnt) # fv) printed vt =
     (if cnt = 1 \<or> printed = 10000 then vt
      else report_rows fe tb fv (Suc printed) (add_row (report_row fe tb (pc, cnt)) vt))"

definition freq_report :: "fini_env \<Rightarrow> pc_tables \<Rightarrow> freqs \<Rightarrow> pretty_table" where
  "freq_report fe tb freqs =
     report_rows fe tb (fe_sort fe freqs) 0
       (pretty_table_ctor [''PC'', ''Frequency'', ''Function'', ''Bbl Ratio'', ''Instruction''])"

section \<open>The end of the process\<close>

datatype fini_event =
    Statistics_written "(string \<times> stat_value) list"
  | File_written string string
  | Detached

definition Fini :: "knobs \<Rightarrow> fini_env \<Rightarrow> pc_tables \<Rightarrow> tool \<Rightarrow> fini_event list" where
  "Fini k fe tb g =
     (if sint (KnobProfile k) \<noteq> 0 then [Statistics_written (Dump (overall g))] else [])
     @ (if KnobRecordFreq k \<noteq> []
        then [File_written (KnobRecordFreq k) (print_table (freq_report fe tb (o_ins_freqs (overall g))))]
        else [])
     @ (if KnobOutPrefix k \<noteq> []
        then [File_written (fst (split_prefix (KnobOutPrefix k)) @ ''/pids/stop'') ''stop''] else [])
     @ [Detached]"

section \<open>What the report lists\<close>

definition listed :: "(u64 \<times> u64) list \<Rightarrow> (u64 \<times> u64) list" where
  "listed fv = take 10000 (takeWhile (\<lambda>x. snd x \<noteq> 1) fv)"

lemma report_rows_eq:
  "printed \<le> 10000 \<Longrightarrow> report_rows fe tb fv printed vt
     = fold add_row (map (report_row fe tb) (take (10000 - printed) (takeWhile (\<lambda>x. snd x \<noteq> 1) fv))) vt"
proof (induction fe tb fv printed vt rule: report_rows.induct)
  case (2 fe tb pc cnt fv printed vt)
  show ?case
  proof (cases "cnt = 1 \<or> printed = 10000")
    case False
    with 2(2) have "10000 - printed = Suc (10000 - Suc printed)" by linarith
    with 2 False show ?thesis by simp
  qed auto
qed simp

definition descending :: "(u64 \<times> u64) list \<Rightarrow> bool" where
  "descending fv \<longleftrightarrow> sorted_wrt (\<lambda>a b. snd b \<le> snd a) fv"

lemma after_takeWhile_small:
  assumes "descending fv" and "x \<in> set (dropWhile (\<lambda>x. snd x \<noteq> 1) fv)"
  shows "snd x \<le> 1"
proof -
  obtain y ys where y: "dropWhile (\<lambda>x. snd x \<noteq> 1) fv = y # ys"
    using assms(2) by (cases "dropWhile (\<lambda>x. snd x \<noteq> 1) fv") auto
  then have "snd y = 1" by (simp add: dropWhile_eq_Cons_conv)
  moreover have "descending (takeWhile (\<lambda>x. snd x \<noteq> 1) fv @ dropWhile (\<lambda>x. snd x \<noteq> 1) fv)"
    using assms(1) by simp
  then have "descending (y # ys)"
    unfolding y descending_def sorted_wrt_append by blast
  ultimately show ?thesis using assms(2) unfolding y by (auto simp: descending_def)
qed

lemma listed_greatest:
  assumes "descending fv" and "x \<in> set fv" and "1 < snd x" and "x \<notin> set (listed fv)"
  shows "length (listed fv) = 10000 \<and> (\<forall>y\<in>set (listed fv). snd x \<le> snd y)"
proof -
  define t where "t = takeWhile (\<lambda>x. snd x \<noteq> 1) fv"
  define d where "d = dropWhile (\<lambda>x. snd x \<noteq> 1) fv"
  have fv: "fv = t @ d" by (simp add: t_def d_def)
  have "x \<notin> set d"
    using after_takeWhile_small [OF assms(1), of x] assms(3) by (auto simp: d_def)
  then have "x \<in> set t" using assms(2) fv by simp
  moreover have "set t = set (take 10000 t) \<union> set (drop 10000 t)"
    by (metis append_take_drop_id set_append)
  ultimately have x: "x \<in> set (drop 10000 t)" using assms(4) by (auto simp: listed_def t_def)
  have "descending ((take 10000 t @ drop 10000 t) @ d)" using assms(1) fv by simp
  then have "\<forall>a\<in>set (take 10000 t). \<forall>b\<in>set (drop 10000 t). snd b \<le> snd a"
    unfolding descending_def sorted_wrt_append by blast
  moreover have "drop 10000 t \<noteq> []" using x by auto
  then have "length (take 10000 t) = 10000" by simp
  ultimately show ?thesis using x by (simp add: listed_def t_def)
qed

lemma listed_large: "y \<in> set (listed fv) \<Longrightarrow> snd y \<noteq> 1"
  by (auto simp: listed_def dest!: in_set_takeD set_takeWhileD)

lemma word_one_less: "n \<noteq> 0 \<Longrightarrow> n \<noteq> 1 \<Longrightarrow> 1 < (n :: u64)"
  using word_gt_0 [of n] inc_le [of 0 n] by (simp add: order_less_le)

lemma listed_part: "descending fv \<Longrightarrow> descending (listed fv) \<and> mset (listed fv) \<subseteq># mset fv"
proof -
  assume d: "descending fv"
  obtain r where r: "fv = listed fv @ r"
    by (metis append_assoc append_take_drop_id listed_def takeWhile_dropWhile_id)
  then have "mset fv = mset (listed fv) + mset r" by (metis mset_append)
  moreover have "descending (listed fv @ r)" using d r by simp
  then have "descending (listed fv)" unfolding descending_def sorted_wrt_append by blast
  ultimately show ?thesis by simp
qed

text \<open>C15. The report lists the most frequent instructions: at most 10000, in descending order of
  their counts, each with the count it has, none executed only once; and an instruction executed
  more than once is left out only when 10000 others with counts as high are listed.\<close>

theorem report_lists_most_frequent:
  assumes "\<And>m. mset (fe_sort fe m) = mset m" and "\<And>m. descending (fe_sort fe m)"
    and "\<And>pc n. (pc, n) \<in> set freqs \<Longrightarrow> n \<noteq> 0"
  shows "\<exists>es. freq_report fe tb freqs = fold add_row (map (report_row fe tb) es)
        (pretty_table_ctor [''PC'', ''Frequency'', ''Function'', ''Bbl Ratio'', ''Instruction''])
    \<and> length es \<le> 10000 \<and> mset es \<subseteq># mset freqs \<and> descending es \<and> (\<forall>y\<in>set es. 1 < snd y)
    \<and> (\<forall>x\<in>set freqs. 1 < snd x \<and> x \<notin> set es \<longrightarrow>
         length es = 10000 \<and> (\<forall>y\<in>set es. snd x \<le> snd y))"
proof -
  let ?es = "listed (fe_sort fe freqs)"
  have set: "set (fe_sort fe freqs) = set freqs" by (metis assms(1) set_mset_mset)
  have "freq_report fe tb freqs = fold add_row (map (report_row fe tb) ?es)
      (pretty_table_ctor [''PC'', ''Frequency'', ''Function'', ''Bbl Ratio'', ''Instruction''])"
    unfolding freq_report_def by (subst report_rows_eq) (simp_all add: listed_def)
  moreover have part: "descending ?es \<and> mset ?es \<subseteq># mset freqs"
    using listed_part [OF assms(2) [of freqs]] assms(1) by simp
  moreover have "1 < snd y" if "y \<in> set ?es" for y
  proof -
    have "set_mset (mset ?es) \<subseteq> set_mset (mset freqs)" by (rule set_mset_mono [OF conjunct2 [OF part]])
    then have "y \<in> set freqs" using that by auto
    then have "snd y \<noteq> 0" using assms(3) [of "fst y" "snd y"] by simp
    with listed_large [OF that] show ?thesis by (intro word_one_less) simp_all
  qed
  moreover have "length ?es \<le> 10000" by (simp add: listed_def)
  ultimately show ?thesis
    using listed_greatest [OF assms(2), of _ freqs] set by blast
qed

definition example_fini :: fini_env where
  "example_fini = \<lparr>fe_sort = rev \<circ> sort_key snd, fe_hexstr = (\<lambda>pc. dec_nat (unat pc))\<rparr>"

lemma report_lists_most_frequent_witness:
  "\<exists>es. freq_report example_fini no_tables [(7, 1), (8, 5)]
      = fold add_row (map (report_row example_fini no_tables) es)
          (pretty_table_ctor [''PC'', ''Frequency'', ''Function'', ''Bbl Ratio'', ''Instruction''])
    \<and> mset es \<subseteq># {#(7, 1), (8, 5)#} \<and> (8, 5) \<in> set es"
proof -
  have "descending (rev (sort_key snd m))" for m :: "(u64 \<times> u64) list"
    using sorted_sort_key [of snd m] by (simp add: descending_def sorted_wrt_rev sorted_map)
  then have "\<exists>es. freq_report example_fini no_tables [(7, 1), (8, 5)]
      = fold add_row (map (report_row example_fini no_tables) es)
          (pretty_table_ctor [''PC'', ''Frequency'', ''Function'', ''Bbl Ratio'', ''Instruction''])
    \<and> length es \<le> 10000 \<and> mset es \<subseteq># mset [(7, 1), (8, 5)] \<and> descending es \<and> (\<forall>y\<in>set es. 1 < snd y)
    \<and> (\<forall>x\<in>set [(7, 1), (8, 5)]. 1 < snd x \<and> x \<notin> set es \<longrightarrow>
         length es = 10000 \<and> (\<forall>y\<in>set es. snd x \<le> snd y))"
    by (intro report_lists_most_frequent) (auto simp: example_fini_def)
  then obtain es where es: "freq_report example_fini no_tables [(7, 1), (8, 5)]
      = fold add_row (map (report_row example_fini no_tables) es)
          (pretty_table_ctor [''PC'', ''Frequency'', ''Function'', ''Bbl Ratio'', ''Instruction''])"
    "mset es \<subseteq># {#(7, 1), (8, 5)#}"
    "(8, 5) \<notin> set es \<longrightarrow> length es = 10000" by auto
  have "length es \<le> 2" using size_mset_mono [OF es(2)] by simp
  with es show ?thesis by auto
qed

section \<open>The size of a buffer\<close>

lemma tool_main_buffers:
  assumes "tool_main k mkdir now tool_init = Inr (es, g)"
  shows "bufSizes g = [24]" and "unat (buf_entry_limit g) = unat (KnobNumPagesInBuffer k) * 4096 div 24"
proof -
  let ?p = "ucast (KnobNumPagesInBuffer k) :: u64"
  have "unat (KnobNumPagesInBuffer k) < 2 ^ 64"
    by (rule order_less_trans [OF unat_u32_less]) simp
  then have "unat ?p = unat (KnobNumPagesInBuffer k)"
    by (simp add: unsigned_ucast_eq take_bit_nat_eq_self)
  moreover have "unat (KnobNumPagesInBuffer k) * 4096 < 4294967296 * 4096"
    by (rule mult_strict_right_mono [OF unat_u32_less]) simp
  then have "unat (KnobNumPagesInBuffer k) * 4096 < 18446744073709551616" by linarith
  ultimately have "unat (?p * 4096) = unat (KnobNumPagesInBuffer k) * 4096"
    by (simp only: unat_word_ariths) simp
  then have "unat (?p * 4096 div 24) = unat (KnobNumPagesInBuffer k) * 4096 div 24"
    by (simp add: unat_div)
  moreover have "buf_entry_limit g = ?p * 4096 div 24"
    using assms by (auto simp: tool_main_def Let_def MEMREF_SIZE_def split: if_splits)
  ultimately show "unat (buf_entry_limit g) = unat (KnobNumPagesInBuffer k) * 4096 div 24" by simp
  show "bufSizes g = [24]"
    using assms by (auto simp: tool_main_def Let_def tool_init_def MEMREF_SIZE_def split: if_splits)
qed

text \<open>C9. A full buffer fits the shared memory exactly for \<open>-bpages\<close> up to 512: with the options in
  effect after \<open>main\<close>, on a thread that \<open>ThreadStart\<close> connected, the copy of any number of records
  up to the limit stays inside the 2 MB mapping, and with more pages the copy of a full buffer
  runs past its end, which the code does not check.\<close>

theorem full_buffer_fits_mapping:
  assumes "tool_main k mkdir now tool_init = Inr (es, g)" and "KnobOutPrefix k \<noteq> []"
    and "ThreadStart api k g e this tid = Some (Inr (es', a))"
    and "\<And>fd mem. ts_map e fd = Some mem \<Longrightarrow> length mem = ALLOCATION_SIZE"
    and "n \<le> buf_entry_limit g" and "ce_rdy_bytes ce \<noteq> - 1"
  defines "pages \<equiv> unat (KnobNumPagesInBuffer k)"
  shows "(pages \<le> 512 \<longrightarrow> (\<exists>r. ProcessBuffer k g ce buf n 0 a = Inr r))
    \<and> (512 < pages \<longrightarrow> ProcessBuffer k g ce buf (buf_entry_limit g) 0 a = Inl UB_overrun)"
proof -
  obtain mem where mem: "shared_mem a = Some mem" "length mem = 2097152"
    and s: "sock_rdy a \<noteq> - 1" "sock_size a \<noteq> - 1" "shared_mem_size a = 2097152"
    using ThreadStart_connected [OF assms(3,2)] assms(4) by (auto simp: header_sizes)
  note b = tool_main_buffers [OF assms(1), folded pages_def]
  have step: "ProcessBuffer k g ce buf j 0 a = Inl UB_overrun \<longleftrightarrow> 2097152 < unat j * 24"
    and ok: "unat j * 24 \<le> 2097152 \<Longrightarrow> \<exists>r. ProcessBuffer k g ce buf j 0 a = Inr r"
    if "j \<le> buf_entry_limit g" for j
  proof -
    have "unat j * 24 \<le> pages * 4096"
      using that b(2) by (simp add: word_le_nat_alt) 
    also have "pages < 4294967296" unfolding pages_def by (rule unat_u32_less)
    then have "pages * 4096 < 2 ^ 64" by simp
    finally have j: "unat (j * 24) = unat j * 24" by (simp add: unat_word_ariths)
    then show "ProcessBuffer k g ce buf j 0 a = Inl UB_overrun \<longleftrightarrow> 2097152 < unat j * 24"
      using mem s b(1) assms(2,6) by (auto simp: ProcessBuffer_def CopyToSharedMemory_def Let_def)
    show "\<exists>r. ProcessBuffer k g ce buf j 0 a = Inr r" if "unat j * 24 \<le> 2097152"
      using j that mem s b(1) assms(2,6) by (auto simp: ProcessBuffer_def CopyToSharedMemory_def Let_def)
  qed
  have "unat n \<le> pages * 4096 div 24" using assms(5) b(2) by (simp add: word_le_nat_alt)
  then have "\<exists>r. ProcessBuffer k g ce buf n 0 a = Inr r" if "pages \<le> 512"
    using that by (intro ok [OF assms(5)]) linarith
  moreover have "ProcessBuffer k g ce buf (buf_entry_limit g) 0 a = Inl UB_overrun" if "512 < pages"
    using that b(2) step [of "buf_entry_limit g"] by simp
  ultimately show ?thesis by blast
qed

definition example_start :: start_env where
  "example_start = \<lparr>ts_decstr = (\<lambda>n. dec_nat (unat n)), ts_buffer = (\<lambda>i. 4096), ts_alloc = (\<lambda>i. 8192),
     ts_start = 100, ts_native_tid = 321, ts_sock_rdy = 5, ts_sock_size = 6, ts_rdy_ok = (\<lambda>i. i = Suc 0),
     ts_size_ok = (\<lambda>i. True), ts_open = (\<lambda>p. Some 7), ts_map = (\<lambda>fd. Some (replicate ALLOCATION_SIZE 0))\<rparr>"

lemma example_connect: "connect_loop (\<lambda>i. i = Suc 0) (\<lambda>i. True) 0 = Some (Suc 0)"
  by (subst connect_loop.simps, simp, subst connect_loop.simps, simp)

lemma example_start_run:
  "\<exists>es a. ThreadStart flag_sem example_knobs g example_start 3 1 = Some (Inr (es, a))"
  by (simp add: ThreadStart_def example_thread_ctor NUM_BUF_TYPES_def start_buffer_def Let_def
      example_start_def example_knobs_def connect_consumer_def split_prefix_def
      find_last_of_def open_shared_mem_def example_connect example_thread_def split: prod.split)

lemma full_buffer_fits_mapping_witness:
  "\<exists>es g es' a r. tool_main example_knobs (\<lambda>p. Mkdir_ok) 0 tool_init = Inr (es, g)
    \<and> ThreadStart flag_sem example_knobs g example_start 3 1 = Some (Inr (es', a))
    \<and> ProcessBuffer example_knobs g example_copy_env [] (buf_entry_limit g) 0 a = Inr r"
proof -
  obtain es g where m: "tool_main example_knobs (\<lambda>p. Mkdir_ok) 0 tool_init = Inr (es, g)"
    by (simp add: tool_main_def Let_def)
  obtain es' a where t: "ThreadStart flag_sem example_knobs g example_start 3 1 = Some (Inr (es', a))"
    using example_start_run by blast
  have "(unat (KnobNumPagesInBuffer example_knobs) \<le> 512 \<longrightarrow>
        (\<exists>r. ProcessBuffer example_knobs g example_copy_env [] (buf_entry_limit g) 0 a = Inr r))
    \<and> (512 < unat (KnobNumPagesInBuffer example_knobs) \<longrightarrow>
        ProcessBuffer example_knobs g example_copy_env [] (buf_entry_limit g) 0 a = Inl UB_overrun)"
    by (rule full_buffer_fits_mapping [OF m _ t])
      (auto simp: example_start_def example_knobs_def example_copy_env_def)
  with m t show ?thesis by (auto simp: example_knobs_def)
qed

end
