(* ===== verification/Receiver.thy ===== *)
theory Receiver
  imports Listen
begin

text \<open>
  \<open>ReceiverThread\<close> of \<open>src/consumer/consumer.cpp\<close>: from the name of a thread file to the sockets and
  the shared memory that \<open>Listen\<close> works on (\<open>receiver_setup\<close>), and what follows when \<open>Listen\<close>
  has returned (\<open>receiver_finish\<close>). The results of the system calls are the environment, what the
  thread acquires and gives back is the list of its events.
\<close>

section \<open>The thread's name\<close>

datatype name_result =
    Unparsable                \<comment> \<open>an error is reported and the thread returns\<close>
  | Uncaught parse_error      \<comment> \<open>\<open>stoi\<close> throws; the exception leaves the thread and ends the process\<close>
  | Parsed int int

text \<open>The length of the process id is a difference of \<open>size_t\<close>s.\<close>

definition parse_thread_name :: "string \<Rightarrow> name_result" where
  "parse_thread_name name =
     (case (find_last_of ''.'' name, find_last_of ''-'' name) of
        (Some last_period, Some last_dash) \<Rightarrow>
          (case stoi (substr name (last_dash + 1)
                   (nat ((int last_period - int last_dash - 1) mod 2 ^ 64))) of
             Inl er \<Rightarrow> Uncaught er
           | Inr pid \<Rightarrow>
              (case stoi (drop (last_period + 1) name) of
                 Inl er \<Rightarrow> Uncaught er
               | Inr tid \<Rightarrow> Parsed pid tid))
      | _ \<Rightarrow> Unparsable)"

section \<open>Setting up\<close>

datatype recv_event =
    File_opened string int
  | Mem_mapped nat
  | Socket_made int
  | Socket_bound int string
  | Socket_listening int
  | Accepted int
  | Fd_closed int
  | Mem_unmapped nat
  | Path_removed string

record receiver_env =
  re_out_fd :: int
  re_shm_fd :: int
  re_truncate_ok :: bool
  re_map :: "byte list option"
  re_out_buffer_ok :: bool
  re_rdy_sock :: int
  re_size_sock :: int
  re_bind_rdy :: bool
  re_bind_size :: bool
  re_listen_rdy :: bool
  re_listen_size :: bool
  re_rdy_fd :: int
  re_size_fd :: int

record receiver =
  r_pid :: int
  r_tid :: int
  r_output_file :: string
  r_out_fd :: int
  r_shm_file :: string
  r_shm_fd :: int
  r_mem :: "byte list"
  r_rdy_sock :: int
  r_size_sock :: int
  r_rdy_path :: string
  r_size_path :: string
  r_rdy_fd :: int
  r_size_fd :: int

datatype setup_result =
    Name_rejected
  | Process_terminated
  | Setup_failed "recv_event list"
  | Setup_ready "recv_event list" receiver

definition socket_path :: "string \<Rightarrow> string" where
  "socket_path s = take 107 s"

text \<open>From \<open>listen\<close> on.\<close>

definition receiver_accept :: "receiver_env \<Rightarrow> recv_event list \<Rightarrow> receiver \<Rightarrow> setup_result" where
  "receiver_accept e es r =
     (if \<not> re_listen_rdy e then Setup_failed es
      else
       (let es = es @ [Socket_listening (r_rdy_sock r)] in
        if \<not> re_listen_size e then Setup_failed es
        else
         (let es = es @ [Socket_listening (r_size_sock r)];
              rdy_fd = re_rdy_fd e; size_fd = re_size_fd e;
              es = es @ (if rdy_fd < 0 then [] else [Accepted rdy_fd])
                      @ (if size_fd < 0 then [] else [Accepted size_fd])
          in if rdy_fd < 0 \<or> size_fd < 0 then Setup_failed es
             else Setup_ready es (r\<lparr>r_rdy_fd := rdy_fd, r_size_fd := size_fd\<rparr>))))"

definition receiver_sockets ::
    "receiver_env \<Rightarrow> string \<Rightarrow> recv_event list \<Rightarrow> receiver \<Rightarrow> setup_result" where
  "receiver_sockets e target_dir es r =
     (let rdy_name = target_dir @ ''/rdy_'' @ dec_int (r_tid r);
          size_name = target_dir @ ''/size_'' @ dec_int (r_tid r);
          rdy_sock = re_rdy_sock e; size_sock = re_size_sock e;
          es = es @ (if rdy_sock < 0 then [] else [Socket_made rdy_sock])
                  @ (if size_sock < 0 then [] else [Socket_made size_sock])
      in if rdy_sock < 0 \<or> size_sock < 0 then Setup_failed es
         else
          (let rdy_path = socket_path rdy_name; size_path = socket_path size_name in
           if \<not> re_bind_rdy e then Setup_failed es
           else
            (let es = es @ [Socket_bound rdy_sock rdy_path] in
             if \<not> re_bind_size e then Setup_failed es
             else receiver_accept e (es @ [Socket_bound size_sock size_path])
                    (r\<lparr>r_rdy_sock := rdy_sock, r_size_sock := size_sock,
                       r_rdy_path := rdy_path, r_size_path := size_path\<rparr>))))"

definition receiver_memory ::
    "settings \<Rightarrow> receiver_env \<Rightarrow> string \<Rightarrow> recv_event list \<Rightarrow> receiver \<Rightarrow> setup_result" where
  "receiver_memory cf e target_dir es r =
     (let base_dir = (if use_hugepages cf then ''/dev/hugepages/'' else ''/dev/shm/'');
          file_name = base_dir @ ''shared_mem_'' @ dec_int (r_tid r)
      in if re_shm_fd e < 0 then Setup_failed es
         else
          (let es = es @ [File_opened file_name (re_shm_fd e)] in
           if \<not> re_truncate_ok e then Setup_failed es
           else (case re_map e of
                   None \<Rightarrow> Setup_failed es
                 | Some mem \<Rightarrow>
                    (let es = es @ [Mem_mapped ALLOCATION_SIZE];
                         r = r\<lparr>r_shm_file := file_name, r_shm_fd := re_shm_fd e, r_mem := mem\<rparr>
                     in if use_compression cf
                        then (if \<not> re_out_buffer_ok e then Setup_failed es
                              else receiver_sockets e target_dir (es @ [Mem_mapped ZSTD_BUFFER_SIZE]) r)
                        else receiver_sockets e target_dir es r))))"

definition receiver_zero :: receiver where
  "receiver_zero = \<lparr>r_pid = 0, r_tid = 0, r_output_file = [], r_out_fd = 0, r_shm_file = [],
     r_shm_fd = 0, r_mem = [], r_rdy_sock = 0, r_size_sock = 0, r_rdy_path = [], r_size_path = [],
     r_rdy_fd = 0, r_size_fd = 0\<rparr>"

definition receiver_setup :: "settings \<Rightarrow> receiver_env \<Rightarrow> string \<Rightarrow> string \<Rightarrow> setup_result" where
  "receiver_setup cf e target_dir thread_name =
     (case parse_thread_name thread_name of
        Unparsable \<Rightarrow> Name_rejected
      | Uncaught er \<Rightarrow> Process_terminated
      | Parsed pid tid \<Rightarrow>
         (let output_file = target_dir @ ''/output_'' @ dec_int tid in
          if re_out_fd e < 0 then Setup_failed []
          else receiver_memory cf e target_dir [File_opened output_file (re_out_fd e)]
                 (receiver_zero\<lparr>r_pid := pid, r_tid := tid, r_output_file := output_file,
                                r_out_fd := re_out_fd e\<rparr>)))"

section \<open>After \<open>Listen\<close>\<close>

definition receiver_finish ::
    "settings \<Rightarrow> nat \<Rightarrow> receiver \<Rightarrow> u64 \<Rightarrow> u64 \<Rightarrow> consumer
       \<Rightarrow> recv_event list \<times> (string \<times> log_value) list \<times> consumer" where
  "receiver_finish cf i r in_d out_d c =
     (let c = c\<lparr>in_size := in_size c + in_d, out_size := out_size c + out_d\<rparr>
      in ([Fd_closed (r_rdy_fd r), Fd_closed (r_size_fd r), Fd_closed (r_rdy_sock r), Fd_closed (r_size_sock r),
           Fd_closed (r_shm_fd r), Mem_unmapped ALLOCATION_SIZE, Path_removed (r_shm_file r),
           Path_removed (r_rdy_path r), Path_removed (r_size_path r)]
          @ (if use_compression cf then [Mem_unmapped ZSTD_BUFFER_SIZE] else []),
          LogThreadStats c i, c))"

section \<open>What the receiver holds\<close>

fun acquired_fds :: "recv_event list \<Rightarrow> int list" where
  "acquired_fds [] = []"
| "acquired_fds (File_opened p fd # es) = fd # acquired_fds es"
| "acquired_fds (Socket_made fd # es) = fd # acquired_fds es"
| "acquired_fds (Accepted fd # es) = fd # acquired_fds es"
| "acquired_fds (_ # es) = acquired_fds es"

fun created_paths :: "recv_event list \<Rightarrow> string list" where
  "created_paths [] = []"
| "created_paths (File_opened p fd # es) = p # created_paths es"
| "created_paths (Socket_bound fd p # es) = p # created_paths es"
| "created_paths (_ # es) = created_paths es"

fun mapped :: "recv_event list \<Rightarrow> nat list" where
  "mapped [] = []"
| "mapped (Mem_mapped n # es) = n # mapped es"
| "mapped (_ # es) = mapped es"

fun closed_fds :: "recv_event list \<Rightarrow> int list" where
  "closed_fds [] = []"
| "closed_fds (Fd_closed fd # es) = fd # closed_fds es"
| "closed_fds (_ # es) = closed_fds es"

fun removed_paths :: "recv_event list \<Rightarrow> string list" where
  "removed_paths [] = []"
| "removed_paths (Path_removed p # es) = p # removed_paths es"
| "removed_paths (_ # es) = removed_paths es"

fun unmapped :: "recv_event list \<Rightarrow> nat list" where
  "unmapped [] = []"
| "unmapped (Mem_unmapped n # es) = n # unmapped es"
| "unmapped (_ # es) = unmapped es"

lemmas receiver_defs = receiver_setup_def receiver_memory_def receiver_sockets_def receiver_accept_def
  receiver_zero_def Let_def

lemma receiver_setup_ready:
  assumes "receiver_setup cf e dir name = Setup_ready es r"
  shows "\<exists>pid tid mem. parse_thread_name name = Parsed pid tid \<and> re_map e = Some mem
    \<and> r = \<lparr>r_pid = pid, r_tid = tid, r_output_file = dir @ ''/output_'' @ dec_int tid,
         r_out_fd = re_out_fd e,
         r_shm_file = (if use_hugepages cf then ''/dev/hugepages/'' else ''/dev/shm/'')
           @ ''shared_mem_'' @ dec_int tid,
         r_shm_fd = re_shm_fd e, r_mem = mem, r_rdy_sock = re_rdy_sock e, r_size_sock = re_size_sock e,
         r_rdy_path = socket_path (dir @ ''/rdy_'' @ dec_int tid),
         r_size_path = socket_path (dir @ ''/size_'' @ dec_int tid),
         r_rdy_fd = re_rdy_fd e, r_size_fd = re_size_fd e\<rparr>
    \<and> es = [File_opened (r_output_file r) (r_out_fd r), File_opened (r_shm_file r) (r_shm_fd r),
         Mem_mapped ALLOCATION_SIZE] @ (if use_compression cf then [Mem_mapped ZSTD_BUFFER_SIZE] else [])
       @ [Socket_made (r_rdy_sock r), Socket_made (r_size_sock r), Socket_bound (r_rdy_sock r) (r_rdy_path r),
          Socket_bound (r_size_sock r) (r_size_path r), Socket_listening (r_rdy_sock r),
          Socket_listening (r_size_sock r), Accepted (r_rdy_fd r), Accepted (r_size_fd r)]"
  using assms
  by (auto simp: receiver_defs split: name_result.splits option.splits if_splits)


definition example_receiver :: receiver_env where
  "example_receiver = \<lparr>re_out_fd = 3, re_shm_fd = 4, re_truncate_ok = True,
     re_map = Some (replicate ALLOCATION_SIZE 0), re_out_buffer_ok = True, re_rdy_sock = 5,
     re_size_sock = 6, re_bind_rdy = True, re_bind_size = True, re_listen_rdy = True,
     re_listen_size = True, re_rdy_fd = 7, re_size_fd = 8\<rparr>"

lemma example_name: "parse_thread_name ''run-321.1'' = Parsed 321 1"
  by (simp add: parse_thread_name_def find_last_of_def Let_def upt_conv_Cons substr_def stoi_def strto_def
      no_digit_first_def is_digit_def is_space_def digit_val_def)

definition example_ready :: receiver where
  "example_ready = \<lparr>r_pid = 321, r_tid = 1, r_output_file = ''/t/output_1'', r_out_fd = 3,
     r_shm_file = ''/dev/hugepages/shared_mem_1'', r_shm_fd = 4, r_mem = replicate ALLOCATION_SIZE 0,
     r_rdy_sock = 5, r_size_sock = 6, r_rdy_path = ''/t/rdy_1'', r_size_path = ''/t/size_1'',
     r_rdy_fd = 7, r_size_fd = 8\<rparr>"

lemma example_setup:
  "\<exists>es. receiver_setup settings_init example_receiver ''/t'' ''run-321.1'' = Setup_ready es example_ready"
proof -
  have "dec_int 1 = ''1''" by code_simp
  then show ?thesis
    by (simp add: receiver_defs example_name example_receiver_def settings_init_def socket_path_def
        example_ready_def)
qed


end
