(* ===== verification/Ipc_Names.thy ===== *)
theory Ipc_Names
  imports Tool_Main Receiver
begin

text \<open>
  The names by which the tool and the consumer find each other: what the consumer parses from a
  thread file's name that the tool printed, and the paths that \<open>ThreadStart\<close> and \<open>main\<close> of
  \<open>src/pintool/bullettime.cpp\<close> form from the output prefix.
\<close>

section \<open>Printed numbers in a name\<close>

lemma length_dec_nat: "length (dec_nat n) \<le> Suc n"
proof (induction n rule: dec_nat.induct)
  case (1 n)
  show ?case
  proof (cases "n < 10")
    case False
    then have "length (dec_nat n) = Suc (length (dec_nat (n div 10)))" by (simp add: dec_nat.simps [of n])
    also have "\<dots> \<le> Suc (Suc (n div 10))" using 1 False by simp
    also have "\<dots> \<le> Suc n" using False by simp
    finally show ?thesis .
  qed (simp add: dec_nat.simps [of n])
qed

lemma dec_nat_chars: "c \<in> set (dec_nat n) \<Longrightarrow> is_digit c"
  using dec_nat_digits [of n] by (simp add: list_all_iff)

lemma dec_nat_no_separator:
  "CHR ''-'' \<notin> set (dec_nat n)" "CHR ''.'' \<notin> set (dec_nat n)"
  by (auto dest!: dec_nat_chars simp: is_digit_def)

lemma parse_printed_name:
  assumes "m < 2 ^ 31" and "n < 2 ^ 31"
  shows "parse_thread_name (base @ ''-'' @ dec_nat m @ ''.'' @ dec_nat n) = Parsed (int m) (int n)"
proof -
  let ?name = "base @ ''-'' @ dec_nat m @ ''.'' @ dec_nat n"
  have dash: "find_last_of ''-'' ?name = Some (length base)"
    using find_last_of_append [of "CHR ''-''" "''-''" "dec_nat m @ ''.'' @ dec_nat n" base]
      dec_nat_no_separator by simp
  have period: "find_last_of ''.'' ?name = Some (length base + 1 + length (dec_nat m))"
    using find_last_of_append [of "CHR ''.''" "''.''" "dec_nat n" "base @ ''-'' @ dec_nat m"]
      dec_nat_no_separator by simp
  have "length (dec_nat m) < 2 ^ 64" using length_dec_nat [of m] assms(1) by simp
  then have "int (length (dec_nat m)) mod 2 ^ 64 = int (length (dec_nat m))" by simp
  then have "nat ((int (length base + 1 + length (dec_nat m)) - int (length base) - 1) mod 2 ^ 64)
      = length (dec_nat m)" by simp
  moreover have "stoi (dec_nat j) = Inr (int j)" if "j < 2 ^ 31" for j
    using stoi_dec_nat [OF that, of "[]"] by (simp add: no_digit_first_def)
  ultimately show ?thesis
    using dash period assms by (simp add: parse_thread_name_def substr_def)
qed

lemma split_prefix_append:
  "CHR ''/'' \<notin> set base \<Longrightarrow> split_prefix (dir @ ''/'' @ base) = (dir, base)"
  using find_last_of_append [of "CHR ''/''" "''/''" base dir] by (simp add: split_prefix_def)

lemma pids_dir_append:
  "CHR ''/'' \<notin> set base \<Longrightarrow> CHR 0x5C \<notin> set base \<Longrightarrow> pids_dir (dir @ ''/'' @ base) = dir @ ''/pids''"
  using find_last_of_append [of "CHR ''/''" "[CHR ''/'', CHR 0x5C]" base dir] by (simp add: pids_dir_def)

lemma ThreadStart_events:
  assumes "ThreadStart api k g e this tid = Some (Inr (es, a))" and "KnobOutPrefix k = dir @ ''/'' @ base"
    and "CHR ''/'' \<notin> set base"
  defines "name \<equiv> thread_file (ts_decstr e) base (ts_native_tid e) tid"
  shows "Wrote_file (dir @ ''/pids/'' @ name) name \<in> set es"
    and "Connected (sun_path (dir @ ''/rdy_'' @ ts_decstr e tid)) (sun_path (dir @ ''/size_'' @ ts_decstr e tid))
      \<in> set es"
    and "\<exists>file fd. open_shared_mem e tid = Some (file, fd) \<and> Mapped_file file (of_nat ALLOCATION_SIZE) \<in> set es"
proof -
  obtain es1 a1 where c: "connect_consumer k e tid (es1, a1) = Some (Inr (es, a))"
    using assms(1,2) by (auto simp: ThreadStart_def Let_def split: sum.splits)
  then show "Wrote_file (dir @ ''/pids/'' @ name) name \<in> set es"
    and "Connected (sun_path (dir @ ''/rdy_'' @ ts_decstr e tid)) (sun_path (dir @ ''/size_'' @ ts_decstr e tid))
      \<in> set es"
    and "\<exists>file fd. open_shared_mem e tid = Some (file, fd) \<and> Mapped_file file (of_nat ALLOCATION_SIZE) \<in> set es"
    using split_prefix_append [OF assms(3), of dir]
    by (auto simp: connect_consumer_def assms(2) name_def Let_def split: if_splits option.splits)
qed

end
