(* ===== verification/Handshake.thy ===== *)
theory Handshake
  imports Thread_Start Receiver
begin

text \<open>
  The connection between a traced thread and its receiver: the loop of \<open>ThreadStart\<close> that tries to
  connect the ready and the size socket (\<open>src/pintool/bullettime.cpp\<close>), step by step against the
  \<open>listen\<close> and \<open>accept\<close> calls of \<open>ReceiverThread\<close> (\<open>src/consumer/consumer.cpp\<close>). Of the
  sockets it uses what their documentation says: \<open>connect\<close> fails on a path where nobody listens
  and on a socket that is already connected, else it succeeds at once; \<open>accept\<close> waits for a
  connection.
\<close>

section \<open>Steps\<close>

datatype tool_pc = Try_rdy | Try_size | Tool_connected

datatype recv_pc = Not_listening | Listening_rdy | Listening_both | Accepted_rdy | Accepted_both

record handshake =
  tool_at :: tool_pc
  recv_at :: recv_pc
  rdy_conn :: bool
  size_conn :: bool

definition handshake_init :: handshake where
  "handshake_init = \<lparr>tool_at = Try_rdy, recv_at = Not_listening, rdy_conn = False, size_conn = False\<rparr>"

text \<open>The two operands of the loop's condition, evaluated from left to right.\<close>

definition tool_try :: "handshake \<Rightarrow> handshake" where
  "tool_try h = (case tool_at h of
     Try_rdy \<Rightarrow>
       (if rdy_conn h \<or> recv_at h = Not_listening then h
        else h\<lparr>rdy_conn := True, tool_at := Try_size\<rparr>)
   | Try_size \<Rightarrow>
       (if size_conn h \<or> recv_at h = Not_listening \<or> recv_at h = Listening_rdy
        then h\<lparr>tool_at := Try_rdy\<rparr>
        else h\<lparr>size_conn := True, tool_at := Tool_connected\<rparr>)
   | Tool_connected \<Rightarrow> h)"

definition recv_next :: "handshake \<Rightarrow> handshake" where
  "recv_next h = (case recv_at h of
     Not_listening \<Rightarrow> h\<lparr>recv_at := Listening_rdy\<rparr>
   | Listening_rdy \<Rightarrow> h\<lparr>recv_at := Listening_both\<rparr>
   | Listening_both \<Rightarrow> if rdy_conn h then h\<lparr>recv_at := Accepted_rdy\<rparr> else h
   | Accepted_rdy \<Rightarrow> if size_conn h then h\<lparr>recv_at := Accepted_both\<rparr> else h
   | Accepted_both \<Rightarrow> h)"

inductive hs_step :: "handshake \<Rightarrow> handshake \<Rightarrow> bool" where
  hs_tool: "hs_step h (tool_try h)"
| hs_recv: "hs_step h (recv_next h)"

inductive_simps hs_step_iff: "hs_step h h'"

abbreviation hs_run :: "handshake \<Rightarrow> handshake \<Rightarrow> bool" where
  "hs_run \<equiv> runs hs_step"

lemma hs_run_intros:
  "hs_run h h"
  "hs_run h h' \<Longrightarrow> hs_run h (tool_try h')"
  "hs_run h h' \<Longrightarrow> hs_run h (recv_next h')"
  by (auto intro: runs_refl runs_step hs_tool hs_recv)

section \<open>Invariant\<close>

definition hs_inv :: "handshake \<Rightarrow> bool" where
  "hs_inv h \<longleftrightarrow> (size_conn h \<longleftrightarrow> tool_at h = Tool_connected)
     \<and> (tool_at h \<noteq> Try_rdy \<longrightarrow> rdy_conn h)
     \<and> (recv_at h = Accepted_rdy \<or> recv_at h = Accepted_both \<longrightarrow> rdy_conn h)
     \<and> (recv_at h = Accepted_both \<longrightarrow> size_conn h)"

lemma hs_inv_steps: "hs_inv h \<Longrightarrow> hs_inv (tool_try h) \<and> hs_inv (recv_next h)"
  by (cases "tool_at h"; cases "recv_at h"; cases "rdy_conn h"; cases "size_conn h")
    (simp_all add: hs_inv_def tool_try_def recv_next_def)

interpretation connecting: preserved hs_step hs_inv
  by unfold_locales (auto simp: hs_step_iff hs_inv_steps)

lemma hs_init_inv: "hs_inv handshake_init"
  by (simp add: hs_inv_def handshake_init_def)

text \<open>The ready socket is connected and the loop tries to connect it again.\<close>

definition doomed :: "handshake \<Rightarrow> bool" where
  "doomed h \<longleftrightarrow> tool_at h = Try_rdy \<and> rdy_conn h"

lemma doomed_steps: "doomed h \<Longrightarrow> doomed (tool_try h) \<and> doomed (recv_next h)"
  by (cases "recv_at h") (simp_all add: doomed_def tool_try_def recv_next_def)

interpretation hanging: preserved hs_step "\<lambda>h. hs_inv h \<and> doomed h"
  by unfold_locales (auto simp: hs_step_iff hs_inv_steps doomed_steps)

lemma finish_schedule:
  assumes "hs_inv h" and "\<not> doomed h"
  defines "h' \<equiv> recv_next (recv_next (tool_try (tool_try (recv_next (recv_next h)))))"
  shows "tool_at h' = Tool_connected \<and> recv_at h' = Accepted_both"
  using assms(1,2) unfolding h'_def
  by (cases "tool_at h"; cases "recv_at h"; cases "rdy_conn h"; cases "size_conn h")
    (simp_all add: hs_inv_def doomed_def tool_try_def recv_next_def)

section \<open>What the handshake guarantees\<close>

text \<open>C10. The connection succeeds unless the tool connects the ready socket and tries the size socket
  between the receiver's two \<open>listen\<close> calls: from every reachable state, either the loop is trying
  to connect a ready socket that is already connected, or both sides can finish.\<close>

theorem handshake_completes:
  assumes "hs_run handshake_init h" and "\<not> (tool_at h = Try_rdy \<and> rdy_conn h)"
  shows "\<exists>h'. hs_run h h' \<and> tool_at h' = Tool_connected \<and> recv_at h' = Accepted_both"
proof -
  let ?h' = "recv_next (recv_next (tool_try (tool_try (recv_next (recv_next h)))))"
  have "hs_run h ?h'" by (intro hs_run_intros)
  moreover have "tool_at ?h' = Tool_connected \<and> recv_at ?h' = Accepted_both"
    using assms connecting.runs_keep [OF assms(1) hs_init_inv] by (intro finish_schedule) (simp_all add: doomed_def)
  ultimately show ?thesis by blast
qed

lemma handshake_completes_witness:
  "\<exists>h'. hs_run (tool_try (recv_next handshake_init)) h' \<and> tool_at h' = Tool_connected"
proof -
  have "hs_run handshake_init (tool_try (recv_next handshake_init))" by (intro hs_run_intros)
  from handshake_completes [OF this] show ?thesis
    by (auto simp: tool_try_def recv_next_def handshake_init_def)
qed

text \<open>C11. In that window the two processes hang: a reachable state exists from which, whatever
  happens, the tool never leaves its loop and the receiver never gets past \<open>accept\<close>.\<close>

theorem handshake_can_hang:
  "\<exists>h. hs_run handshake_init h \<and> \<not> (\<exists>h'. hs_run h h' \<and> (tool_at h' = Tool_connected \<or> recv_at h' = Accepted_both))"
proof -
  let ?h = "tool_try (tool_try (recv_next handshake_init))"
  have run: "hs_run handshake_init ?h" by (intro hs_run_intros)
  have d: "doomed ?h" by (simp add: doomed_def tool_try_def recv_next_def handshake_init_def)
  have "\<not> (\<exists>h'. hs_run ?h h' \<and> (tool_at h' = Tool_connected \<or> recv_at h' = Accepted_both))"
    using connecting.runs_keep [OF run hs_init_inv] d
    by (intro hanging.never_reached) (auto simp: doomed_def hs_inv_def)
  with run show ?thesis by blast
qed

text \<open>The same seen from the loop: where the ready socket connects only once, the loop ends just when
  the size socket connects in the same round.\<close>

lemma connect_loop_one_chance:
  assumes "\<And>i j. rdy_ok i \<Longrightarrow> rdy_ok j \<Longrightarrow> i = j" and "rdy_ok n"
  shows "connect_loop rdy_ok size_ok 0 = (if size_ok n then Some n else None)"
proof (cases "connect_loop rdy_ok size_ok 0")
  case None
  then have "\<not> size_ok n" using connect_loop_returns [of 0 n rdy_ok size_ok] assms(2) by auto
  with None show ?thesis by simp
next
  case (Some m)
  from connect_loop_Some [OF this] have "rdy_ok m" "size_ok m" by simp_all
  with assms(1) [OF this(1) assms(2)] Some show ?thesis by simp
qed

end
