(* ===== verification/Consumer_Main.thy ===== *)
theory Consumer_Main
  imports Receiver
begin

text \<open>
  \<open>main\<close> of \<open>src/consumer/consumer.cpp\<close>: the arguments and what they switch on, the loop that waits
  for thread files and starts one receiver for each, and its end. The directory of thread files is
  shared with the tool: \<open>pid_step\<close> interleaves the tool's creation of files with the rounds of
  the loop, and with the moment from which inotify reports them.
\<close>

section \<open>Arguments\<close>

definition feature_flag :: "string \<Rightarrow> (bool \<Rightarrow> settings \<Rightarrow> settings) option" where
  "feature_flag arg =
     (if arg = ''--direct-io'' then Some (\<lambda>b cf. cf\<lparr>use_direct_io := b\<rparr>)
      else if arg = ''--hugepages'' then Some (\<lambda>b cf. cf\<lparr>use_hugepages := b\<rparr>)
      else if arg = ''--app-dilation'' then Some (\<lambda>b cf. cf\<lparr>app_dilation := b\<rparr>)
      else if arg = ''--kernel-dilation'' then Some (\<lambda>b cf. cf\<lparr>kernel_dilation := b\<rparr>)
      else if arg = ''--compression'' then Some (\<lambda>b cf. cf\<lparr>use_compression := b\<rparr>)
      else None)"

datatype arg_error = Usage | No_value | Bad_number parse_error

text \<open>\<open>first\<close> says that the argument is the one after the directory, \<open>flag_set\<close> that \<open>--compression\<close> was
  seen.\<close>

fun parse_args :: "bool \<Rightarrow> string list \<Rightarrow> bool \<Rightarrow> settings \<Rightarrow> arg_error + settings" where
  "parse_args first [] flag_set cf = Inr cf"
| "parse_args first (arg # rest) flag_set cf =
     (if arg = ''-s''
      then (case rest of
              [] \<Rightarrow> Inl No_value
            | v # rest' \<Rightarrow>
               (case stoul v of
                  Inl e \<Rightarrow> Inl (Bad_number e)
                | Inr n \<Rightarrow> parse_args False rest' flag_set (cf\<lparr>control_sleep_sec := n\<rparr>)))
      else (case feature_flag arg of
              Some f \<Rightarrow>
                (case rest of
                   [] \<Rightarrow> Inl No_value
                 | v # rest' \<Rightarrow>
                    (case stoi v of
                       Inl e \<Rightarrow> Inl (Bad_number e)
                     | Inr n \<Rightarrow> parse_args False rest' (flag_set \<or> arg = ''--compression'') (f (n = 1) cf)))
            | None \<Rightarrow>
                if first \<and> (arg = [] \<or> hd arg \<noteq> CHR ''-'')
                then (if flag_set then parse_args False rest flag_set cf
                      else (case stoi arg of
                              Inl e \<Rightarrow> Inl (Bad_number e)
                            | Inr n \<Rightarrow> parse_args False rest flag_set (cf\<lparr>use_compression := (n = 1)\<rparr>)))
                else parse_args False rest flag_set cf))"

definition auto_enable :: "settings \<Rightarrow> settings \<times> bool" where
  "auto_enable cf =
     (let dynamic_control = False;
          (cf, dynamic_control) =
            (if app_dilation cf then (cf\<lparr>overhead_balancing := True\<rparr>, True) else (cf, dynamic_control));
          dynamic_control = (if kernel_dilation cf then True else dynamic_control)
      in (cf, dynamic_control))"

datatype start_result =
    Start_failed                       \<comment> \<open>\<open>main\<close> returns 1\<close>
  | Started string settings bool       \<comment> \<open>directory, settings, \<open>dynamic_control\<close>\<close>

definition consumer_start :: "bool \<Rightarrow> string list \<Rightarrow> start_result" where
  "consumer_start knob_good args =
     (case args of
        [] \<Rightarrow> Start_failed
      | target_dir # rest \<Rightarrow>
         (case parse_args True rest False settings_init of
            Inl e \<Rightarrow> Start_failed
          | Inr cf \<Rightarrow>
             (let (cf, dynamic_control) = auto_enable cf
              in if kernel_dilation cf \<and> \<not> knob_good then Start_failed
                 else Started target_dir cf dynamic_control)))"

section \<open>The loop over the thread files\<close>

record server =
  con :: consumer
  threads :: "string list"     \<comment> \<open>the receivers, by the name of their file\<close>
  seen :: "string list"
  removals :: "string list"    \<comment> \<open>the files of which removal was tried in this round\<close>
  control_started :: bool
  open_dirs :: nat             \<comment> \<open>directory streams that are open\<close>

definition server_init :: "settings \<Rightarrow> server" where
  "server_init cf = \<lparr>con = consumer_init cf, threads = [], seen = [], removals = [],
     control_started = False, open_dirs = 0\<rparr>"

fun scan :: "(string \<Rightarrow> bool) \<Rightarrow> string list \<Rightarrow> server \<Rightarrow> server" where
  "scan rm [] s = s"
| "scan rm (f # fs) s =
     (if f = ''.'' \<or> f = ''..'' \<or> f \<in> set (seen s) then scan rm fs s
      else if f = ''stop''
      then s\<lparr>con := (con s)\<lparr>stop := True\<rparr>, removals := removals s @ [f]\<rparr>
      else
       (let s = s\<lparr>con := InitThreadData (con s), threads := threads s @ [f], removals := removals s @ [f]\<rparr>
        in scan rm fs (if rm f then s else s\<lparr>seen := f # seen s\<rparr>)))"

record round_env =
  rd_bytes :: int                     \<comment> \<open>what reading the inotify descriptor returns\<close>
  rd_entries :: "string list option"  \<comment> \<open>the entries in the order of \<open>readdir\<close>\<close>
  rd_remove :: "string \<Rightarrow> bool"

text \<open>One round; \<open>None\<close> where \<open>main\<close> returns. The stream of \<open>opendir\<close> is not closed.\<close>

definition serve_round :: "bool \<Rightarrow> round_env \<Rightarrow> server \<Rightarrow> server option" where
  "serve_round dynamic_control e s =
     (if rd_bytes e < 0 then None
      else
       (let s = (if dynamic_control \<and> \<not> control_started s then s\<lparr>control_started := True\<rparr> else s)
        in case rd_entries e of
             None \<Rightarrow> None
           | Some fs \<Rightarrow>
               Some (scan (rd_remove e) fs (s\<lparr>open_dirs := Suc (open_dirs s), removals := []\<rparr>))))"

datatype serve_outcome =
    Waiting server
  | Joining server             \<comment> \<open>the stop file was found; all threads are joined\<close>
  | Serve_failed server        \<comment> \<open>\<open>main\<close> returns with its threads not joined\<close>

fun serve :: "bool \<Rightarrow> round_env list \<Rightarrow> server \<Rightarrow> serve_outcome" where
  "serve dynamic_control [] s = (if stop (con s) then Joining s else Waiting s)"
| "serve dynamic_control (e # es) s =
     (if stop (con s) then Joining s
      else (case serve_round dynamic_control e s of
              None \<Rightarrow> Serve_failed s
            | Some s' \<Rightarrow> serve dynamic_control es s'))"

text \<open>A \<open>std::thread\<close> that is destroyed without having been joined ends the process.\<close>

definition terminates :: "server \<Rightarrow> bool" where
  "terminates s \<longleftrightarrow> threads s \<noteq> [] \<or> control_started s"

section \<open>What one round does\<close>

definition fresh :: "server \<Rightarrow> string list \<Rightarrow> string list" where
  "fresh s fs = filter (\<lambda>f. f \<noteq> ''.'' \<and> f \<noteq> ''..'' \<and> f \<notin> set (seen s)) (takeWhile (\<lambda>f. f \<noteq> ''stop'') fs)"

lemma fresh_seen: "f \<notin> set fs \<Longrightarrow> fresh (s\<lparr>seen := f # seen s\<rparr>) fs = fresh s fs"
  unfolding fresh_def by (rule filter_cong) (auto dest: set_takeWhileD)

lemma fresh_cong: "seen s = seen s' \<Longrightarrow> fresh s fs = fresh s' fs"
  by (simp add: fresh_def)

lemma scan_effect:
  "distinct fs \<Longrightarrow> ''stop'' \<notin> set (seen s) \<Longrightarrow>
     threads (scan rm fs s) = threads s @ fresh s fs
     \<and> set (seen (scan rm fs s)) = set (seen s) \<union> {f \<in> set (fresh s fs). \<not> rm f}
     \<and> set (removals (scan rm fs s)) = set (removals s) \<union> set (fresh s fs)
         \<union> (if ''stop'' \<in> set fs then {''stop''} else {})
     \<and> stop (con (scan rm fs s)) = (stop (con s) \<or> ''stop'' \<in> set fs)
     \<and> open_dirs (scan rm fs s) = open_dirs s"
proof (induction rm fs s rule: scan.induct)
  case (2 rm f fs s)
  let ?s = "s\<lparr>con := InitThreadData (con s), threads := threads s @ [f], removals := removals s @ [f]\<rparr>"
  let ?s' = "if rm f then ?s else ?s\<lparr>seen := f # seen ?s\<rparr>"
  have stop: "stop (InitThreadData (con s)) = stop (con s)" by (simp add: InitThreadData_def)
  consider (skip) "f = ''.'' \<or> f = ''..'' \<or> f \<in> set (seen s)" | (stop) "f \<notin> set (seen s)" "f = ''stop''"
    | (new) "\<not> (f = ''.'' \<or> f = ''..'' \<or> f \<in> set (seen s))" "f \<noteq> ''stop''" by blast
  then show ?case
  proof cases
    case skip
    then have "f \<noteq> ''stop''" using 2(4) by auto
    moreover from this skip have "fresh s (f # fs) = fresh s fs" by (auto simp: fresh_def)
    ultimately show ?thesis using 2(1) [OF skip] 2(3,4) skip by auto
  next
    case stop
    then show ?thesis using 2(3) by (auto simp: fresh_def)
  next
    case new
    define t where "t = ?s'"
    have t: "threads t = threads s @ [f]" "set (seen t) = set (seen s) \<union> (if rm f then {} else {f})"
      "set (removals t) = set (removals s) \<union> {f}" "stop (con t) = stop (con s)" "open_dirs t = open_dirs s"
      using stop by (simp_all add: t_def)
    have "scan rm (f # fs) s = scan rm fs t" using new by (simp add: t_def Let_def)
    moreover have "fresh t fs = fresh s fs"
      using fresh_seen [of f fs ?s] fresh_cong [of ?s s] 2(3) by (auto simp: t_def)
    moreover have "fresh s (f # fs) = f # fresh s fs" using new by (auto simp: fresh_def)
    moreover have "''stop'' \<notin> set (seen t)" using 2(4) new t(2) by auto
    moreover note IH = 2(2) [OF new refl, folded t_def]
    ultimately show ?thesis using 2(3) new t by auto
  qed
qed (simp add: fresh_def)

lemma scan_len:
  "consumer_len n (con s) \<Longrightarrow> n = length (threads s) \<Longrightarrow>
     consumer_len (length (threads (scan rm fs s))) (con (scan rm fs s))"
proof (induction rm fs s arbitrary: n rule: scan.induct)
  case (2 rm f fs s)
  have "consumer_len n ((con s)\<lparr>stop := True\<rparr>)" using 2(3) by (simp add: consumer_len_def)
  with 2 consumer_len_InitThreadData [OF 2(3)] show ?case by (auto simp: Let_def)
qed simp

section \<open>The directory of thread files\<close>

text \<open>\<open>created\<close> is the history of the files, \<open>events\<close> the number of creations that inotify has
  queued; it queues none before the watch is added. A read takes at least one of them.\<close>

record pid_world =
  w_server :: server
  w_files :: "string list"
  w_created :: "string list"
  w_watching :: bool
  w_events :: nat

definition world_init :: "settings \<Rightarrow> pid_world" where
  "world_init cf = \<lparr>w_server = server_init cf, w_files = [], w_created = [], w_watching = False,
     w_events = 0\<rparr>"

inductive pid_step :: "bool \<Rightarrow> pid_world \<Rightarrow> pid_world \<Rightarrow> bool" for dynamic_control where
  file_created: "f \<notin> set (w_created w) \<Longrightarrow> f \<noteq> ''.'' \<Longrightarrow> f \<noteq> ''..'' \<Longrightarrow>
    pid_step dynamic_control w (w\<lparr>w_files := w_files w @ [f], w_created := w_created w @ [f],
      w_events := (if w_watching w then Suc (w_events w) else w_events w)\<rparr>)"
| watch_added: "\<not> w_watching w \<Longrightarrow> pid_step dynamic_control w (w\<lparr>w_watching := True\<rparr>)"
| round: "w_watching w \<Longrightarrow> n < w_events w \<Longrightarrow> \<not> stop (con (w_server w)) \<Longrightarrow>
    rd_entries e = Some fs \<Longrightarrow> mset fs = mset (''.'' # ''..'' # w_files w) \<Longrightarrow>
    serve_round dynamic_control e (w_server w) = Some s \<Longrightarrow>
    pid_step dynamic_control w (w\<lparr>w_server := s, w_events := n,
      w_files := filter (\<lambda>f. \<not> (f \<in> set (removals s) \<and> rd_remove e f)) (w_files w)\<rparr>)"

inductive_cases pid_stepE: "pid_step dynamic_control w w'"

abbreviation pid_reachable :: "bool \<Rightarrow> settings \<Rightarrow> pid_world \<Rightarrow> bool" where
  "pid_reachable dynamic_control cf \<equiv> runs (pid_step dynamic_control) (world_init cf)"

definition pid_inv :: "pid_world \<Rightarrow> bool" where
  "pid_inv w \<longleftrightarrow> (let s = w_server w in
     distinct (w_created w) \<and> distinct (w_files w) \<and> set (w_files w) \<subseteq> set (w_created w)
     \<and> ''.'' \<notin> set (w_created w) \<and> ''..'' \<notin> set (w_created w)
     \<and> distinct (threads s) \<and> set (threads s) \<subseteq> set (w_created w) - {''stop''}
     \<and> set (seen s) \<subseteq> set (threads s) \<and> set (w_files w) \<inter> set (threads s) \<subseteq> set (seen s)
     \<and> set (w_created w) \<subseteq> set (threads s) \<union> set (w_files w) \<union> {''stop''}
     \<and> consumer_len (length (threads s)) (con s))"

lemma serve_round_effect:
  assumes "serve_round dynamic_control e s = Some s'" and "rd_entries e = Some fs"
    and "distinct fs" and "''stop'' \<notin> set (seen s)"
  shows "threads s' = threads s @ fresh s fs"
    and "set (seen s') = set (seen s) \<union> {f \<in> set (fresh s fs). \<not> rd_remove e f}"
    and "set (removals s') = set (fresh s fs) \<union> (if ''stop'' \<in> set fs then {''stop''} else {})"
    and "stop (con s') = (stop (con s) \<or> ''stop'' \<in> set fs)"
    and "open_dirs s' = Suc (open_dirs s)"
    and "consumer_len (length (threads s)) (con s) \<Longrightarrow> consumer_len (length (threads s')) (con s')"
proof -
  define s1 where "s1 = (if dynamic_control \<and> \<not> control_started s then s\<lparr>control_started := True\<rparr> else s)
      \<lparr>open_dirs := Suc (open_dirs s), removals := []\<rparr>"
  have s': "s' = scan (rd_remove e) fs s1"
    using assms(1,2) by (auto simp: serve_round_def s1_def Let_def split: if_splits)
  have s1: "threads s1 = threads s" "seen s1 = seen s" "removals s1 = []" "con s1 = con s"
    "open_dirs s1 = Suc (open_dirs s)" by (simp_all add: s1_def)
  have "fresh s1 fs = fresh s fs" using s1(2) by (rule fresh_cong)
  then show "threads s' = threads s @ fresh s fs"
    "set (seen s') = set (seen s) \<union> {f \<in> set (fresh s fs). \<not> rd_remove e f}"
    "set (removals s') = set (fresh s fs) \<union> (if ''stop'' \<in> set fs then {''stop''} else {})"
    "stop (con s') = (stop (con s) \<or> ''stop'' \<in> set fs)" "open_dirs s' = Suc (open_dirs s)"
    unfolding s' using scan_effect [OF assms(3), of s1 "rd_remove e"] assms(4) s1 by simp_all
  show "consumer_len (length (threads s')) (con s')" if "consumer_len (length (threads s)) (con s)"
    unfolding s' by (rule scan_len [where n = "length (threads s)"]) (use that s1 in simp_all)
qed

lemma set_fresh: "set (fresh s fs) \<subseteq> set fs - {''.'', ''..'', ''stop''} - set (seen s)"
  by (auto simp: fresh_def dest: set_takeWhileD)

lemma fresh_all: "''stop'' \<notin> set fs \<Longrightarrow> set (fresh s fs) = set fs - {''.'', ''..''} - set (seen s)"
proof -
  assume "''stop'' \<notin> set fs"
  then have tw: "takeWhile (\<lambda>f. f \<noteq> ''stop'') fs = fs" by (auto simp: takeWhile_eq_all_conv)
  show ?thesis unfolding fresh_def tw by auto
qed

lemma distinct_fresh: "distinct fs \<Longrightarrow> distinct (fresh s fs)"
  by (simp add: fresh_def distinct_takeWhile)

lemma pid_step_inv: "pid_step dynamic_control w w' \<Longrightarrow> pid_inv w \<Longrightarrow> pid_inv w'"
proof (induction rule: pid_step.induct)
  case (round w n e fs s)
  note inv = round(7) [unfolded pid_inv_def Let_def]
  have fs: "set fs = {''.'', ''..''} \<union> set (w_files w)" using round(5) by (metis list.simps(15) set_mset_mset insert_is_Un Un_insert_left)
  have "distinct (''.'' # ''..'' # w_files w)" using inv by auto
  then have d: "distinct fs" using round(5) by (metis mset_eq_imp_distinct_iff)
  have "''stop'' \<notin> set (seen (w_server w))" using inv by blast
  note eff = serve_round_effect [OF round(6,4) d this]
  have sub: "set (fresh (w_server w) fs) \<subseteq> set (w_files w) - {''stop''} - set (threads (w_server w))"
    using set_fresh [of "w_server w" fs] fs inv by blast
  show ?case
    unfolding pid_inv_def Let_def
    using inv eff sub distinct_fresh [OF d, of "w_server w"] by auto
qed (auto simp: pid_inv_def Let_def)

interpretation pid_served: preserved "pid_step dynamic_control" pid_inv for dynamic_control
  by unfold_locales (rule pid_step_inv)

lemma pid_reachable_inv: "pid_reachable dynamic_control cf w \<Longrightarrow> pid_inv w"
  by (drule pid_served.runs_keep) (simp_all add: pid_inv_def world_init_def server_init_def consumer_len_init)

section \<open>What the main loop guarantees\<close>

text \<open>C7. Every thread file gets one receiver: under every interleaving with the tool, no file is
  served twice, only files that were created are served, a file that is not served is still in the
  directory, and the data of the threads has an entry for every receiver, at its number.\<close>

theorem thread_files_served_once:
  assumes "pid_reachable dynamic_control cf w"
  defines "s \<equiv> w_server w"
  shows "distinct (threads s) \<and> set (threads s) \<subseteq> set (w_created w)
    \<and> set (w_created w) - set (threads s) - {''stop''} \<subseteq> set (w_files w)
    \<and> consumer_len (length (threads s)) (con s)"
  using pid_reachable_inv [OF assms(1)] by (auto simp: pid_inv_def s_def Let_def)

definition example_name :: string where
  "example_name = ''run-321.1''"

definition example_round :: round_env where
  "example_round = \<lparr>rd_bytes = 32, rd_entries = Some [''.'', example_name, ''..''], rd_remove = (\<lambda>f. True)\<rparr>"

definition example_served :: server where
  "example_served = \<lparr>con = InitThreadData (consumer_init settings_init), threads = [example_name],
     seen = [], removals = [example_name], control_started = True, open_dirs = 1\<rparr>"

definition example_world :: pid_world where
  "example_world = \<lparr>w_server = example_served, w_files = [], w_created = [example_name],
     w_watching = True, w_events = 0\<rparr>"

definition example_pending :: pid_world where
  "example_pending = (world_init settings_init)\<lparr>w_watching := True, w_files := [example_name],
     w_created := [example_name], w_events := 1\<rparr>"

lemma example_pending_reachable: "pid_reachable True settings_init example_pending"
proof -
  define w1 where "w1 = (world_init settings_init)\<lparr>w_watching := True\<rparr>"
  have "pid_step True (world_init settings_init) w1"
    unfolding w1_def by (rule watch_added) (simp add: world_init_def)
  moreover have "pid_step True w1 example_pending"
    using file_created [of example_name w1 True]
    by (simp add: example_pending_def w1_def world_init_def example_name_def)
  ultimately show ?thesis by (metis runs_refl runs_step)
qed

lemma example_round_step: "pid_step True example_pending example_world"
proof -
  have "pid_step True example_pending (example_pending\<lparr>w_server := example_served, w_events := 0,
      w_files := filter (\<lambda>f. \<not> (f \<in> set (removals example_served) \<and> rd_remove example_round f))
        (w_files example_pending)\<rparr>)"
    by (rule round [where fs = "[''.'', example_name, ''..'']"])
      (simp_all add: example_pending_def world_init_def server_init_def consumer_init_def example_round_def
        serve_round_def example_served_def example_name_def)
  then show ?thesis
    by (simp add: example_pending_def world_init_def example_world_def example_served_def example_round_def)
qed

lemma example_world_reachable: "pid_reachable True settings_init example_world"
  by (rule runs_step [OF example_pending_reachable example_round_step])

lemma thread_files_served_once_witness:
  "distinct (threads (w_server example_world)) \<and> example_name \<in> set (threads (w_server example_world))
    \<and> consumer_len 1 (con (w_server example_world))"
  using thread_files_served_once [OF example_world_reachable]
  by (simp add: example_world_def example_served_def)

text \<open>C14. A reported file is served by the next round, whatever the order of the directory, as long as
  the tool has not asked to stop.\<close>

theorem reported_file_served_next:
  assumes "pid_reachable dynamic_control cf w" and "f \<in> set (w_files w)"
    and "''stop'' \<notin> set (w_files w)" and "pid_step dynamic_control w w'" and "w_events w' < w_events w"
  shows "f \<in> set (threads (w_server w'))"
  using assms(4)
proof (cases rule: pid_step.cases)
  case (round n e fs s)
  note inv = pid_reachable_inv [OF assms(1), unfolded pid_inv_def Let_def]
  have fs: "set fs = {''.'', ''..''} \<union> set (w_files w)"
    using round(6) by (metis Un_insert_left insert_is_Un list.simps(15) set_mset_mset)
  have "distinct (''.'' # ''..'' # w_files w)" using inv by auto
  then have d: "distinct fs" using round(6) by (metis mset_eq_imp_distinct_iff)
  have "''stop'' \<notin> set (seen (w_server w))" using inv by blast
  note eff = serve_round_effect(1) [OF round(7,5) d this]
  have "''stop'' \<notin> set fs" using fs assms(3) by auto
  from fresh_all [OF this, of "w_server w"] have
    "f \<in> set (fresh (w_server w) fs) \<or> f \<in> set (seen (w_server w))"
    using fs assms(2) inv by blast
  then show ?thesis using eff round(1) inv by auto
qed (use assms(5) in \<open>auto split: if_splits\<close>)

lemma reported_file_served_next_witness: "example_name \<in> set (threads (w_server example_world))"
  using reported_file_served_next [OF example_pending_reachable _ _ example_round_step]
  by (simp add: example_pending_def example_world_def example_name_def)



section \<open>The end of \<open>main\<close>\<close>

datatype exit_event =
    Joined string
  | Joined_control
  | Removed_dir string
  | Ratio f64

definition consumer_exit :: "string \<Rightarrow> server \<Rightarrow> exit_event list" where
  "consumer_exit target_dir s =
     map Joined (threads s) @ (if control_started s then [Joined_control] else [])
     @ [Removed_dir (target_dir @ ''/pids'')]
     @ (if use_compression (conf (con s))
        then [Ratio (f64_of_u64 (in_size (con s)) / f64_of_u64 (out_size (con s)))] else [])"

section \<open>Directory streams\<close>

lemma scan_open_dirs: "open_dirs (scan rm fs s) = open_dirs s"
  by (induction rm fs s rule: scan.induct) (simp_all add: Let_def)

lemma serve_round_open_dirs: "serve_round dynamic_control e s = Some s' \<Longrightarrow> open_dirs s' = Suc (open_dirs s)"
  by (auto simp: serve_round_def scan_open_dirs Let_def split: if_splits option.splits)

text \<open>Every round leaves one more directory stream open.\<close>

lemma directory_streams_leak:
  "serve dynamic_control es s = Waiting s' \<Longrightarrow> open_dirs s' = open_dirs s + length es"
  by (induction dynamic_control es s rule: serve.induct)
    (auto split: if_splits option.splits dest: serve_round_open_dirs)

section \<open>The arguments\<close>

definition flag_value :: "bool \<Rightarrow> string" where
  "flag_value b = (if b then ''1'' else ''0'')"

definition render_args :: "settings \<Rightarrow> string list" where
  "render_args cf = [''-s'', dec_nat (unat (control_sleep_sec cf)),
     ''--direct-io'', flag_value (use_direct_io cf), ''--hugepages'', flag_value (use_hugepages cf),
     ''--app-dilation'', flag_value (app_dilation cf),
     ''--kernel-dilation'', flag_value (kernel_dilation cf),
     ''--compression'', flag_value (use_compression cf)]"

lemma stoi_flag: "stoi (flag_value b) = Inr (if b then 1 else 0)"
  by (simp add: flag_value_def stoi_def strto_def no_digit_first_def is_digit_def is_space_def digit_val_def)

lemma stoul_unat: "stoul (dec_nat (unat w)) = Inr w"
  using stoul_dec_nat [of "unat w" "[]"] by (simp add: no_digit_first_def)

text \<open>C13. Every configuration can be asked for: the arguments that spell out a configuration start
  the consumer with exactly that configuration, where balancing is on with application dilation,
  the control thread with either dilation, and kernel dilation without the knob is refused.\<close>

theorem arguments_roundtrip:
  "consumer_start knob_good (dir # render_args cf) =
     (if kernel_dilation cf \<and> \<not> knob_good then Start_failed
      else Started dir (cf\<lparr>overhead_balancing := app_dilation cf\<rparr>)
             (app_dilation cf \<or> kernel_dilation cf))"
  by (simp add: consumer_start_def render_args_def stoi_flag stoul_unat feature_flag_def
      auto_enable_def settings_init_def)

end
