(* ===== verification/Globals.thy ===== *)
theory Globals
  imports Receiver Listen_Trace
begin

text \<open>
  The globals of \<open>src/consumer/consumer.cpp\<close> under all threads of the consumer together: the main
  thread that adds entries, the control thread, and the receivers with their listeners. The steps
  (\<open>globals_step\<close>) are those operations in any order; \<open>globals_ok\<close> is what all of them keep, and from
  it follows that no vector is indexed out of range. A step is a whole operation: a control period
  between two of the three critical sections of \<open>InitThreadData\<close> is not among them; what happens
  there is \<open>shadow_log_races_with_InitThreadData\<close> in theory \<open>Control\<close>.
\<close>

section \<open>The invariant\<close>

text \<open>The owner of the maximum is a thread, or still -1 while the maximum is 0.\<close>

definition owner_ok :: "nat \<Rightarrow> peak_data \<Rightarrow> bool" where
  "owner_ok n p \<longleftrightarrow> - 1 \<le> max_ratio_owner p \<and> max_ratio_owner p < int n
     \<and> (max_ratio_owner p = - 1 \<longrightarrow> max_buffer_work_ratio p = 0)"

definition globals_ok :: "nat \<Rightarrow> consumer \<Rightarrow> bool" where
  "globals_ok n c \<longleftrightarrow> consumer_len n c \<and> owner_ok n (peak c)"

lemmas globals_defs = globals_ok_def consumer_len_def owner_ok_def

lemma globals_ok_init: "globals_ok 0 (consumer_init cf)"
  unfolding globals_ok_def
  by (rule conjI [OF consumer_len_init]) (simp add: owner_ok_def consumer_init_def peak_init_def)

lemma globals_ok_InitThreadData: "globals_ok n c \<Longrightarrow> globals_ok (Suc n) (InitThreadData c)"
  using consumer_len_InitThreadData [of n c]
  by (auto simp: globals_ok_def owner_ok_def InitThreadData_def init_peak_def Let_def)

section \<open>The critical sections\<close>

lemma sections_len [simp]:
  "peak_len n (account_peak i w rw g p) = peak_len n p"
  "peak_len n (record_injected i s p) = peak_len n p"
  "totals_len n (account_totals i m ki cnt r t) = totals_len n t"
  "totals_len n (record_dummy i x t) = totals_len n t"
  "insertion_len n (account_insertion i m d el u ins) = insertion_len n ins"
  by (simp_all add: peak_len_def account_peak_def record_injected_def totals_len_def
      account_totals_def record_dummy_def insertion_len_def account_insertion_def)

lemma sections_owner [simp]:
  "owner_ok n (account_peak i w rw g p) = owner_ok n p"
  "owner_ok n (record_injected i s p) = owner_ok n p"
  by (simp_all add: owner_ok_def account_peak_def record_injected_def)

lemma promote_ok: "i < n \<Longrightarrow> owner_ok n p \<Longrightarrow> owner_ok n (promote i r p)"
  "peak_len n (promote i r p) = peak_len n p"
  by (auto simp: owner_ok_def peak_len_def promote_def Let_def)

lemma promote_owner: "max_buffer_work_ratio p < r \<Longrightarrow> max_ratio_owner (promote i r p) = int i"
  by (simp add: promote_def Let_def)

lemma f64_to_u64_fault: "f64_to_u64 x = Inl er \<Longrightarrow> er = UB_cast"
  by (auto simp: f64_to_u64_def split: option.splits if_splits)

lemma account_write_ok:
  "account_write i rw ds t = Inl er \<Longrightarrow> er = UB_cast"
  "account_write i rw ds t = Inr t' \<Longrightarrow> totals_len n t' = totals_len n t"
  by (auto simp: account_write_def totals_len_def Let_def dest: f64_to_u64_fault split: sum.splits)

text \<open>A maximum of 0 never asks for a delay, so the owner -1 is never looked up.\<close>

lemma extra_buffers_of_0: "extra_buffers_of 0 r = None"
proof (cases r)
  case (Fin s a)
  then show ?thesis by (cases s) (auto simp: extra_buffers_of_def f64_ops mk_def Let_def)
qed (auto simp: extra_buffers_of_def f64_ops mk_def Let_def)

lemma bandwidth_ok: "totals_len n t \<Longrightarrow> 0 \<le> k \<Longrightarrow> k < int n \<Longrightarrow> \<exists>x. bandwidth t k = Inr x"
  by (simp add: bandwidth_def vec_at_int_def vec_at_def totals_len_def)

lemma WriteDummy_ok:
  assumes "totals_len n t" and "i < n" and "0 \<le> ow" and "ow < int n"
  shows "WriteDummy b i x bw ow env t \<noteq> Some (Inl er)"
    and "WriteDummy b i x bw ow env t = Some (Inr (s, t')) \<Longrightarrow> totals_len n t'"
proof -
  obtain a b' where "bandwidth t ow = Inr a" "bandwidth t (int i) = Inr b'"
    using bandwidth_ok [OF assms(1)] assms(2-4) by (metis of_nat_0_le_iff of_nat_less_iff)
  then show "WriteDummy b i x bw ow env t \<noteq> Some (Inl er)"
    and "WriteDummy b i x bw ow env t = Some (Inr (s, t')) \<Longrightarrow> totals_len n t'"
    using assms(1)
    by (auto simp: WriteDummy_def dummy_sleep_time_def totals_len_def Let_def split: if_splits option.splits)
qed

section \<open>One buffer\<close>

lemma owner_after:
  assumes "owner_ok n p" and "extra_buffers_of (max_buffer_work_ratio p) r = Some x"
  shows "0 \<le> max_ratio_owner p \<and> max_ratio_owner p < int n"
  using assms extra_buffers_of_0 [of r] by (auto simp: owner_ok_def intro: ccontr)

lemma balance_buffer_ok:
  assumes "globals_ok n c" and "i < n"
  shows "balance_buffer i m cnt ds rw recv env c \<noteq> Some (Inl UB_index)"
    and "balance_buffer i m cnt ds rw recv env c = Some (Inr (c', ex)) \<Longrightarrow>
           globals_ok n c' \<and> insertion c' = insertion c"
proof -
  define p where "p = after_buffer i m cnt rw (peak c)"
  define t where "t = account_totals i m (fst (listen_work cnt (ins_exec m))) cnt recv (totals c)"
  define r where "r = buf_work_ratio p i"
  define q where "q = (if max_buffer_work_ratio p < r then promote i r p else p)"
  have p: "peak_len n p" "owner_ok n p" and t: "totals_len n t" and ins: "insertion_len n (insertion c)"
    using assms(1) by (simp_all add: p_def t_def after_buffer_def globals_ok_def consumer_len_def)
  have q: "peak_len n q" "owner_ok n q"
    using p promote_ok(1) [OF assms(2) p(2)] promote_ok(2) by (simp_all add: q_def)
  have "balance_buffer i m cnt ds rw recv env c \<noteq> Some (Inl UB_index)
    \<and> (balance_buffer i m cnt ds rw recv env c = Some (Inr (c', ex)) \<longrightarrow>
         globals_ok n c' \<and> insertion c' = insertion c)"
  proof (cases "balances c")
    case False
    then show ?thesis using assms(1) by (auto simp: balance_buffer_off)
  next
    case True
    note eq = balance_buffer_eq [OF True, of i m cnt ds rw recv env, unfolded Let_def,
        folded p_def t_def, folded r_def, folded q_def]
    show ?thesis
    proof (cases "extra_buffers_of (max_buffer_work_ratio q) r")
      case None
      then show ?thesis
        using p t q ins by (auto simp: eq globals_ok_def consumer_len_def split: if_splits)
    next
      case (Some x)
      note ow = owner_after [OF q(2) Some]
      note wd = WriteDummy_ok [OF t assms(2) conjunct1 [OF ow] conjunct2 [OF ow]]
      show ?thesis
        using p t q ins wd Some
        by (auto simp: eq globals_ok_def consumer_len_def dest: f64_to_u64_fault
            split: if_splits sum.splits option.splits)
    qed
  qed
  then show "balance_buffer i m cnt ds rw recv env c \<noteq> Some (Inl UB_index)"
    and "balance_buffer i m cnt ds rw recv env c = Some (Inr (c', ex)) \<Longrightarrow>
           globals_ok n c' \<and> insertion c' = insertion c" by blast+
qed

section \<open>One iteration of a listener\<close>

fun left_by :: "'ctx listen_outcome \<Rightarrow> consumer option" where
  "left_by (Next l c) = Some c"
| "left_by (Break l c) = Some c"
| "left_by (Return c) = Some c"
| "left_by (Fault er) = None"
| "left_by Sleeping = None"

lemma finish_buffer_ok:
  assumes "globals_ok n c" and "i < n"
  shows "finish_buffer i e m cnt ds l c \<noteq> Fault UB_index
    \<and> (\<forall>c'. left_by (finish_buffer i e m cnt ds l c) = Some c' \<longrightarrow> globals_ok n c')"
proof (cases "account_write i (le_write_done e - le_start e) ds (totals c)")
  case (Inl er)
  then show ?thesis using account_write_ok(1) [OF Inl] by (simp add: finish_buffer_def Let_def)
next
  case (Inr t)
  have "globals_ok n (c\<lparr>totals := t\<rparr>)"
    using assms(1) account_write_ok(2) [OF Inr, of n] by (simp add: globals_ok_def consumer_len_def)
  note b = balance_buffer_ok [OF this assms(2)]
  show ?thesis
  proof (cases "balance_buffer i m cnt ds (le_write_done e - le_start e) (le_recv_end e - le_recv_start e)
      (le_dummy e) (c\<lparr>totals := t\<rparr>)")
    case None
    then show ?thesis by (simp add: finish_buffer_def Inr Let_def)
  next
    case (Some o1)
    show ?thesis
    proof (cases o1)
      case (Inl er)
      then show ?thesis using b(1) Some by (auto simp: finish_buffer_def \<open>account_write _ _ _ _ = Inr t\<close> Let_def)
    next
      case (Inr r)
      then obtain c1 ex where r: "r = (c1, ex)" by fastforce
      have "globals_ok n c1" using b(2) Some Inr r by blast
      then show ?thesis
        using Some Inr r
        by (simp add: finish_buffer_def \<open>account_write _ _ _ _ = Inr t\<close> globals_ok_def consumer_len_def Let_def)
    qed
  qed
qed

lemma f64_to_s64_fault: "f64_to_s64 x = Inl er \<Longrightarrow> er = UB_cast"
  by (auto simp: f64_to_s64_def split: option.splits if_splits)

lemma get_deltas_fault: "get_deltas m r = Inl er \<Longrightarrow> er = UB_cast"
proof -
  have "calculate_scaled_delta a b f = Inl er \<Longrightarrow> er = UB_cast" for a b f
    by (auto simp: calculate_scaled_delta_def Let_def dest: f64_to_s64_fault split: if_splits sum.splits)
  then show "get_deltas m r = Inl er \<Longrightarrow> er = UB_cast"
    by (auto simp: get_deltas_def split: if_splits sum.splits)
qed

lemma listen_iter_ok:
  assumes "globals_ok n (le_others e c)" and "i < n"
  shows "listen_iter zs i e l c \<noteq> Fault UB_index
    \<and> (\<forall>c'. left_by (listen_iter zs i e l c) = Some c' \<longrightarrow> globals_ok n c')"
  using assms(1)
  by (auto simp: listen_iter_def Let_def finish_buffer_ok [OF assms, THEN conjunct1]
      dest: get_deltas_fault finish_buffer_ok [OF assms, THEN conjunct2, rule_format]
      split: send_result.splits recv_result.splits sum.splits option.splits if_splits)

section \<open>One period of the control thread\<close>

lemma dilation_of_fault: "dilation_of cost sl = Inl er \<Longrightarrow> er = UB_cast"
  by (auto simp: dilation_of_def f64_to_u32_def split: sum.splits option.splits if_splits)

lemma balance_threads_total:
  assumes "peak_len n p" and "length fcalls = n"
  shows "\<exists>a. balance_threads fcalls p = Inr a"
proof -
  have step: "\<exists>a'. balance_thread fcalls i a = Inr a'" if "i < n" for i a
    using that assms(2) by (simp add: balance_thread_def Let_def)
  have "\<exists>a'. fold_fault (balance_thread fcalls) is a = Inr a'" if "\<forall>i\<in>set is. i < n" for "is" a
    using that
  proof (induction "is" arbitrary: a)
    case (Cons i ks)
    obtain a1 where "balance_thread fcalls i a = Inr a1" using step Cons.prems by fastforce
    with Cons show ?case by simp
  qed simp
  then show ?thesis using assms(1) by (simp add: balance_threads_def peak_len_def)
qed

lemma shadow_log_total:
  assumes "totals_len n (totals c)" and "length (n_buffers (peak c)) = n"
  shows "\<exists>lg. shadow_log c = Inr lg"
proof -
  have "\<exists>y. shadow_entry c i = Inr y" if "i < n" for i
    using that assms(1) by (simp add: shadow_entry_def totals_len_def Let_def)
  then show ?thesis using assms(2) by (auto simp: shadow_log_def intro: map_fault_Inr)
qed

lemma control_period_ok:
  assumes "globals_ok n c"
  shows "control_period k cs c \<noteq> Inl UB_index"
    and "control_period k cs c = Inr (cs', c', line) \<Longrightarrow> globals_ok n c'"
proof -
  have len: "peak_len n (peak c)" "totals_len n (totals c)" "insertion_len n (insertion c)"
    and own: "owner_ok n (peak c)"
    using assms by (simp_all add: globals_ok_def consumer_len_def)
  have nb: "length (n_buffers (peak c)) = n" "length (total_fcalls (totals c)) = n"
    using len by (simp_all add: peak_len_def totals_len_def)
  obtain a where a: "balance_threads (total_fcalls (totals c)) (peak c) = Inr a"
    using balance_threads_total [OF len(1) nb(2)] by blast
  define p where "p = (acc_peak a)\<lparr>max_buffer_work_ratio := new_max_ratio a,
    max_time_work_ratio := new_max_time_ratio a\<rparr>"
  have pl: "peak_len n p"
    using balance_threads_effect(1) [OF a len(1)] by (simp add: p_def peak_len_def)
  have "elected (total_fcalls (totals c)) (peak c) {..<n} (max_buffer_work_ratio p) (max_ratio_owner (peak c))
      (max_ratio_owner p)"
    using balance_threads_elected [OF a] nb by (simp add: p_def)
  then have po: "owner_ok n p"
    using own by (auto simp: elected_def owner_ok_def)
  obtain lg where lg: "shadow_log (c\<lparr>peak := p\<rparr>) = Inr lg"
    using shadow_log_total [of n "c\<lparr>peak := p\<rparr>"] len pl by (auto simp: peak_len_def)
  have cb: "control_balance cs c = (case dilation_of (instrumentation_cost (insertion c)) (acc_slowdown a) of
      Inl e \<Rightarrow> Inl e
    | Inr f \<Rightarrow> Inr (\<lparr>ctl_dilation_factor = f, ctl_max_slowdown = acc_slowdown a,
        ctl_instrumentation_cost = instrumentation_cost (insertion c)\<rparr>, c\<lparr>peak := p\<rparr>))"
    unfolding control_balance_def a by (simp add: Let_def lg p_def [symmetric] split: sum.split)
  show "control_period k cs c \<noteq> Inl UB_index"
    by (auto simp: control_period_def cb dest: dilation_of_fault split: sum.splits)
  show "globals_ok n c'" if "control_period k cs c = Inr (cs', c', line)"
    using that assms len pl po
    by (auto simp: control_period_def cb globals_ok_def consumer_len_def split: sum.splits if_splits)
qed

section \<open>All threads together\<close>

text \<open>The main thread starts a receiver or stops the consumer, the control thread runs a period, the
  \<open>i\<close>-th receiver runs an iteration of its loop or finishes.\<close>

inductive globals_step :: "'ctx zstd_api \<Rightarrow> consumer \<Rightarrow> consumer \<Rightarrow> bool" for zs where
  thread_started: "globals_step zs c (InitThreadData c)"
| stop_found: "globals_step zs c (c\<lparr>stop := True\<rparr>)"
| period: "control_period k cs c = Inr (cs', c', line) \<Longrightarrow> globals_step zs c c'"
| iteration: "i < length (n_buffers (peak c)) \<Longrightarrow>
    left_by (listen_iter zs i (e\<lparr>le_others := id\<rparr>) l c) = Some c' \<Longrightarrow> globals_step zs c c'"
| finished: "receiver_finish cf i r in_d out_d c = (es, lg, c') \<Longrightarrow> globals_step zs c c'"

abbreviation globals_reachable :: "'ctx zstd_api \<Rightarrow> settings \<Rightarrow> consumer \<Rightarrow> bool" where
  "globals_reachable zs cf \<equiv> runs (globals_step zs) (consumer_init cf)"

lemma globals_step_ok: "globals_step zs c c' \<Longrightarrow> globals_ok n c \<Longrightarrow> \<exists>m. globals_ok m c'"
proof (induction rule: globals_step.induct)
  case (thread_started c)
  then show ?case using globals_ok_InitThreadData by blast
next
  case (stop_found c)
  then show ?case by (auto simp: globals_ok_def consumer_len_def)
next
  case (period k cs c cs' c' line)
  then show ?case using control_period_ok(2) by blast
next
  case (iteration i c e l c')
  then have "i < n" "globals_ok n (le_others (e\<lparr>le_others := id\<rparr>) c)"
    by (simp_all add: globals_ok_def consumer_len_def peak_len_def)
  from listen_iter_ok [OF this(2,1)] iteration show ?case by blast
next
  case (finished cf i r in_d out_d c es lg c')
  then show ?case by (auto simp: receiver_finish_def globals_ok_def consumer_len_def Let_def)
qed

interpretation in_range: preserved "globals_step zs" "\<lambda>c. \<exists>n. globals_ok n c" for zs
  by unfold_locales (use globals_step_ok in blast)

lemma globals_reachable_ok: "globals_reachable zs cf c \<Longrightarrow> \<exists>n. globals_ok n c"
  by (drule in_range.runs_keep) (use globals_ok_init in blast)+



end
