(* ===== verification/Kernel_Monitor.thy ===== *)
theory Kernel_Monitor
  imports Cpu_Monitor
begin

text \<open>
  \<open>src/consumer/kernel_monitor.cpp\<close>: the older kernel-mode monitor that is still compiled into
  the consumer. It reads bare 64-bit values and never scales, so each of its counters is a
  \<open>delta_counter\<close> on every reading.
\<close>

section \<open>The monitor\<close>

record kernel_counts =
  kc_instructions :: u64
  kc_cache_accesses :: u64
  kc_cycles :: u64

record kernel_monitor =
  km_fd_instr :: int
  km_fd_l1_loads :: int
  km_fd_l1_stores :: int
  km_fd_cycles :: int
  km_last_instr :: u64
  km_last_l1_loads :: u64
  km_last_l1_stores :: u64
  km_last_cycles :: u64

definition kernel_attr :: "perf_type \<Rightarrow> perf_config \<Rightarrow> perf_event_attr" where
  "kernel_attr type config =
     \<lparr>attr_type = type, attr_config = config, attr_disabled = True,
      exclude_user = True, exclude_kernel = False, exclude_hv = True, format_times = False\<rparr>"

text \<open>The order of the constructor: instructions, cycles, L1 loads, L1 stores.\<close>

definition kernel_attrs :: "perf_event_attr list" where
  "kernel_attrs =
     [kernel_attr PERF_TYPE_HARDWARE PERF_COUNT_HW_INSTRUCTIONS,
      kernel_attr PERF_TYPE_HARDWARE PERF_COUNT_HW_CPU_CYCLES,
      kernel_attr PERF_TYPE_HW_CACHE L1D_READ_ACCESS,
      kernel_attr PERF_TYPE_HW_CACHE L1D_WRITE_ACCESS]"

definition kernel_monitor_of :: "int list \<Rightarrow> kernel_monitor" where
  "kernel_monitor_of fds =
     \<lparr>km_fd_instr = fds ! 0, km_fd_l1_loads = fds ! 2, km_fd_l1_stores = fds ! 3,
      km_fd_cycles = fds ! 1, km_last_instr = 0, km_last_l1_loads = 0, km_last_l1_stores = 0,
      km_last_cycles = 0\<rparr>"

definition KernelMonitor_ctor :: "perf_open \<Rightarrow> int \<Rightarrow> kernel_monitor option \<times> fd_event list" where
  "KernelMonitor_ctor peo tid =
     (case setup_counters peo tid 0 kernel_attrs of
        (fds, True) \<Rightarrow> (Some (kernel_monitor_of fds), map Opened fds @ enable_counters fds)
      | (fds, False) \<Rightarrow> (None, map Opened fds @ close_counters fds))"

definition KernelMonitor_dtor :: "kernel_monitor \<Rightarrow> fd_event list" where
  "KernelMonitor_dtor m =
     close_counters [km_fd_instr m, km_fd_cycles m, km_fd_l1_loads m, km_fd_l1_stores m]"

record value_read =
  vr_failed :: bool
  vr_errno :: int
  vr_buf :: u64

definition vr_gone :: "value_read \<Rightarrow> bool" where
  "vr_gone r \<longleftrightarrow> vr_failed r \<and> vr_errno r = ESRCH"

record kernel_reads =
  kr_instr :: value_read
  kr_cycles :: value_read
  kr_l1_loads :: value_read
  kr_l1_stores :: value_read

definition kernel_get_deltas ::
    "kernel_monitor \<Rightarrow> kernel_reads \<Rightarrow> kernel_counts option \<times> kernel_monitor" where
  "kernel_get_deltas m r =
     (if vr_gone (kr_instr r) then (None, m)
      else if vr_gone (kr_cycles r) then (None, m)
      else if vr_gone (kr_l1_loads r) then (None, m)
      else if vr_gone (kr_l1_stores r) then (None, m)
      else
        (let current_instr = vr_buf (kr_instr r); current_cycles = vr_buf (kr_cycles r);
             current_l1_loads = vr_buf (kr_l1_loads r); current_l1_stores = vr_buf (kr_l1_stores r)
         in (Some \<lparr>kc_instructions = current_instr - km_last_instr m,
                   kc_cache_accesses = (current_l1_loads - km_last_l1_loads m)
                     + (current_l1_stores - km_last_l1_stores m),
                   kc_cycles = current_cycles - km_last_cycles m\<rparr>,
             m\<lparr>km_last_instr := current_instr, km_last_cycles := current_cycles,
               km_last_l1_loads := current_l1_loads, km_last_l1_stores := current_l1_stores\<rparr>)))"

section \<open>Each counter is a \<open>delta_counter\<close>\<close>

definition kernel_step ::
    "(kernel_counts \<Rightarrow> u64) \<Rightarrow> kernel_monitor \<Rightarrow> kernel_reads \<Rightarrow> (u64 \<times> kernel_monitor) option" where
  "kernel_step field m r = (case kernel_get_deltas m r of
     (Some c, m') \<Rightarrow> Some (field c, m')
   | (None, m') \<Rightarrow> None)"

lemmas kernel_step_defs = kernel_step_def kernel_get_deltas_def

interpretation km_instr: delta_counter "kernel_step kc_instructions" km_last_instr
    "\<lambda>r. vr_buf (kr_instr r)" "\<lambda>m r. True"
  by unfold_locales (auto simp: kernel_step_defs Let_def split: if_splits)

interpretation km_cycles: delta_counter "kernel_step kc_cycles" km_last_cycles
    "\<lambda>r. vr_buf (kr_cycles r)" "\<lambda>m r. True"
  by unfold_locales (auto simp: kernel_step_defs Let_def split: if_splits)

interpretation km_cache: delta_counter "kernel_step kc_cache_accesses"
    "\<lambda>m. km_last_l1_loads m + km_last_l1_stores m"
    "\<lambda>r. vr_buf (kr_l1_loads r) + vr_buf (kr_l1_stores r)" "\<lambda>m r. True"
  by unfold_locales (auto simp: kernel_step_defs Let_def split: if_splits)

lemma all_exact_True: "all_exact (\<lambda>m r. True) step m rs"
  by (induction rs arbitrary: m) (auto split: option.splits)

section \<open>What the monitor guarantees\<close>

text \<open>The kernel monitor leaks no descriptor either, and its counters telescope on every
  sequence of readings, with the cache count the sum of loads and stores.\<close>

lemma KernelMonitor_no_leak:
  "case KernelMonitor_ctor peo tid of
     (None, es) \<Rightarrow> open_fds es [] = []
   | (Some m, es) \<Rightarrow> open_fds (es @ KernelMonitor_dtor m) [] = [] \<and> length (open_fds es []) = 4"
proof (cases "setup_counters peo tid 0 kernel_attrs")
  case (Pair fds ok)
  have v: "- 1 \<notin> set fds" by (rule setup_counters_valid [OF Pair])
  show ?thesis
  proof (cases ok)
    case True
    have "length fds = 4"
      using setup_counters_length [of peo tid 0 kernel_attrs fds] Pair True by (simp add: kernel_attrs_def)
    note four = length_4 [OF this] and len = this
    have "open_fds (map Opened fds @ enable_counters fds
        @ close_counters [fds ! 0, fds ! 1, fds ! 2, fds ! 3]) [] = []"
      by (rule open_fds_closed(1) [OF v]) (metis four)
    with Pair True len show ?thesis
      by (simp add: KernelMonitor_ctor_def KernelMonitor_dtor_def kernel_monitor_of_def
          open_fds_append open_fds_Opened open_fds_enable)
  next
    case False
    with Pair open_fds_closed(2) [OF v refl] show ?thesis by (simp add: KernelMonitor_ctor_def)
  qed
qed

text \<open>The kernel monitor's counts add up over any number of successful calls; the cache count
  is the growth of loads plus that of stores.\<close>

lemma kernel_counts_telescope:
  assumes "delta_run (kernel_step kc_instructions) m rs = Some (is, m')"
    and "delta_run (kernel_step kc_cycles) m rs = Some (cs, m')"
    and "delta_run (kernel_step kc_cache_accesses) m rs = Some (ca, m')"
  shows "sum_list is = km_last_instr m' - km_last_instr m
    \<and> sum_list cs = km_last_cycles m' - km_last_cycles m
    \<and> sum_list ca = (km_last_l1_loads m' + km_last_l1_stores m')
        - (km_last_l1_loads m + km_last_l1_stores m)"
  using km_instr.telescopes [OF assms(1) all_exact_True] km_cycles.telescopes [OF assms(2) all_exact_True]
    km_cache.telescopes [OF assms(3) all_exact_True]
  by simp

definition example_kernel_reads :: "u64 \<Rightarrow> kernel_reads" where
  "example_kernel_reads n =
     (let r = (\<lambda>k. \<lparr>vr_failed = False, vr_errno = 0, vr_buf = k\<rparr>)
      in \<lparr>kr_instr = r n, kr_cycles = r (2 * n), kr_l1_loads = r (3 * n), kr_l1_stores = r (4 * n)\<rparr>)"

lemma kernel_counts_telescope_witness:
  "sum_list [10, 15 :: u64] = 25 - 0 \<and> sum_list [20, 30 :: u64] = 50 - 0
   \<and> sum_list [70, 105 :: u64] = (75 + 100) - (0 + 0)"
proof -
  let ?m = "kernel_monitor_of [5, 6, 7, 8]"
  let ?m' = "?m\<lparr>km_last_instr := 25, km_last_cycles := 50, km_last_l1_loads := 75,
    km_last_l1_stores := 100\<rparr>"
  let ?rs = "[example_kernel_reads 10, example_kernel_reads 25]"
  have "sum_list [10, 15 :: u64] = km_last_instr ?m' - km_last_instr ?m
    \<and> sum_list [20, 30 :: u64] = km_last_cycles ?m' - km_last_cycles ?m
    \<and> sum_list [70, 105 :: u64] = (km_last_l1_loads ?m' + km_last_l1_stores ?m')
        - (km_last_l1_loads ?m + km_last_l1_stores ?m)"
    by (rule kernel_counts_telescope [where rs = ?rs])
      (simp_all add: kernel_step_def kernel_get_deltas_def example_kernel_reads_def vr_gone_def
        kernel_monitor_of_def Let_def)
  then show ?thesis by (simp add: kernel_monitor_of_def)
qed

end
