(* ===== verification/Sleep_Dilation.thy ===== *)
theory Sleep_Dilation
  imports Cpp_String
begin

text \<open>
  \<open>src/kernel_dilation/sleep_dilation.c\<close>: the kernel module that stretches sleeps.
  Its state is the two sysfs values; its operations are the sysfs handlers, the two kprobe
  handlers and module init/exit. The kernel's own functions and constants are a parameter
  (\<open>kernel_api\<close>); what they are documented to do is stated as the predicates
  \<open>mult_frac_ok\<close> and \<open>kstrtouint_ok\<close>, which are hypotheses where they are needed.
  Log lines are not modelled. The two probe handlers share the contract of the locale
  \<open>sleep_hook\<close>.
\<close>

section \<open>State and parameters\<close>

record dilation_mod =
  dilation_factor :: u32
  target_pid :: u32

definition DILATION_DENOMINATOR :: u32 where
  "DILATION_DENOMINATOR = 1000"

definition dilation_mod_init :: dilation_mod where
  "dilation_mod_init = \<lparr>dilation_factor = 1000, target_pid = 0\<rparr>"

record kernel_api =
  mult_frac :: "u64 \<Rightarrow> u32 \<Rightarrow> u32 \<Rightarrow> u64"   \<comment> \<open>signed 64-bit operand and result\<close>
  MAX_SCHEDULE_TIMEOUT :: u64
  TASK_INTERRUPTIBLE :: u32
  kstrtouint :: "string \<Rightarrow> int + u32"         \<comment> \<open>\<open>Inl\<close> the negative error code\<close>
  kstrtoint :: "string \<Rightarrow> int + u32"

text \<open>\<open>mult_frac(x, n, d)\<close> is \<open>x * n / d\<close> without intermediate overflow, for the positive
  operands it is called with here.\<close>

definition mult_frac_ok :: "kernel_api \<Rightarrow> bool" where
  "mult_frac_ok api \<longleftrightarrow>
     (\<forall>x n d. 0 < sint x \<longrightarrow> d \<noteq> 0 \<longrightarrow> sint x * uint n div uint d < 2 ^ 63 \<longrightarrow>
        sint (mult_frac api x n d) = sint x * uint n div uint d)"

text \<open>\<open>kstrtouint\<close> reads a decimal number that may be followed by one newline.\<close>

definition kstrtouint_ok :: "kernel_api \<Rightarrow> bool" where
  "kstrtouint_ok api \<longleftrightarrow> (\<forall>n. n < 2 ^ 32 \<longrightarrow> kstrtouint api (dec_nat n @ newline) = Inr (of_nat n))"

section \<open>The sysfs attributes\<close>

definition dilation_factor_show :: "dilation_mod \<Rightarrow> string" where
  "dilation_factor_show m =
     dec_nat (unat (dilation_factor m)) @ ''/'' @ dec_nat (unat DILATION_DENOMINATOR) @ newline"

definition dilation_factor_store ::
    "kernel_api \<Rightarrow> string \<Rightarrow> int \<Rightarrow> dilation_mod \<Rightarrow> int \<times> dilation_mod" where
  "dilation_factor_store api buf count m =
     (case kstrtouint api buf of
        Inl res \<Rightarrow> (res, m)
      | Inr val \<Rightarrow> (count, m\<lparr>dilation_factor := val\<rparr>))"

definition target_pid_show :: "dilation_mod \<Rightarrow> string" where
  "target_pid_show m = dec_int (sint (target_pid m)) @ newline"

definition target_pid_store ::
    "kernel_api \<Rightarrow> string \<Rightarrow> int \<Rightarrow> dilation_mod \<Rightarrow> int \<times> dilation_mod" where
  "target_pid_store api buf count m =
     (case kstrtoint api buf of
        Inl res \<Rightarrow> (res, m)
      | Inr val \<Rightarrow> (count, m\<lparr>target_pid := val\<rparr>))"

section \<open>The kprobe handlers\<close>

text \<open>The register \<open>di\<close> holds the sleep on entry; the handler returns 0 and the new \<open>di\<close>.\<close>

definition handler_pre_sched_timeout ::
    "kernel_api \<Rightarrow> dilation_mod \<Rightarrow> u32 \<Rightarrow> u64 \<Rightarrow> int \<times> u64" where
  "handler_pre_sched_timeout api m curr_state di =
     (let timeout = di in
      if timeout = MAX_SCHEDULE_TIMEOUT api then (0, di)
      else if and curr_state (TASK_INTERRUPTIBLE api) = 0 then (0, di)
      else if dilation_factor m = DILATION_DENOMINATOR then (0, di)
      else if sint timeout \<le> 0 then (0, di)
      else (let new_timeout = mult_frac api timeout (dilation_factor m) DILATION_DENOMINATOR
            in (0, new_timeout)))"

definition handler_pre_hrtimer_nanosleep ::
    "kernel_api \<Rightarrow> dilation_mod \<Rightarrow> u32 \<Rightarrow> u64 \<Rightarrow> int \<times> u64" where
  "handler_pre_hrtimer_nanosleep api m tgid di =
     (if 0 < sint (target_pid m) \<and> tgid \<noteq> target_pid m then (0, di)
      else if dilation_factor m = DILATION_DENOMINATOR then (0, di)
      else let rqtp = di in
           if sint rqtp \<le> 0 then (0, di)
           else (let new_rqtp = mult_frac api rqtp (dilation_factor m) DILATION_DENOMINATOR
                 in (0, new_rqtp)))"

text \<open>When a handler changes the sleep.\<close>

definition sched_applies :: "kernel_api \<Rightarrow> dilation_mod \<Rightarrow> u32 \<Rightarrow> u64 \<Rightarrow> bool" where
  "sched_applies api m curr_state t \<longleftrightarrow>
     t \<noteq> MAX_SCHEDULE_TIMEOUT api \<and> and curr_state (TASK_INTERRUPTIBLE api) \<noteq> 0
     \<and> dilation_factor m \<noteq> DILATION_DENOMINATOR \<and> 0 < sint t"

definition hrtimer_applies :: "kernel_api \<Rightarrow> dilation_mod \<Rightarrow> u32 \<Rightarrow> u64 \<Rightarrow> bool" where
  "hrtimer_applies api m tgid t \<longleftrightarrow>
     (sint (target_pid m) \<le> 0 \<or> tgid = target_pid m)
     \<and> dilation_factor m \<noteq> DILATION_DENOMINATOR \<and> 0 < sint t"

section \<open>The contract of a probe handler\<close>

definition dilated :: "u64 \<Rightarrow> dilation_mod \<Rightarrow> int" where
  "dilated t m = sint t * uint (dilation_factor m) div 1000"

locale sleep_hook =
  fixes hook :: "kernel_api \<Rightarrow> dilation_mod \<Rightarrow> u32 \<Rightarrow> u64 \<Rightarrow> int \<times> u64"
    and applies :: "kernel_api \<Rightarrow> dilation_mod \<Rightarrow> u32 \<Rightarrow> u64 \<Rightarrow> bool"
  assumes hook_on: "applies api m c t \<Longrightarrow>
      hook api m c t = (0, mult_frac api t (dilation_factor m) DILATION_DENOMINATOR)"
    and hook_off: "\<not> applies api m c t \<Longrightarrow> hook api m c t = (0, t)"
    and applies_pos: "applies api m c t \<Longrightarrow> 0 < sint t"
    and applies_factor: "applies api m c t \<Longrightarrow> dilation_factor m \<noteq> DILATION_DENOMINATOR"
begin

lemma returns_0: "fst (hook api m c t) = 0"
  by (cases "applies api m c t") (simp_all add: hook_on hook_off)

lemma dilates:
  assumes "mult_frac_ok api" and "applies api m c t" and "dilated t m < 2 ^ 63"
  shows "sint (snd (hook api m c t)) = dilated t m"
proof -
  have "(DILATION_DENOMINATOR :: u32) \<noteq> 0" and "uint (DILATION_DENOMINATOR :: u32) = 1000"
    by (simp_all add: DILATION_DENOMINATOR_def)
  with assms applies_pos [OF assms(2)] show ?thesis
    by (simp add: hook_on mult_frac_ok_def dilated_def)
qed

lemma never_shorter:
  assumes "mult_frac_ok api" and "1000 \<le> dilation_factor m" and "dilated t m < 2 ^ 63"
  shows "sint t \<le> sint (snd (hook api m c t))"
proof (cases "applies api m c t")
  case True
  have "1000 \<le> uint (dilation_factor m)"
    using assms(2) by (simp add: word_le_def)
  then have "sint t * 1000 \<le> sint t * uint (dilation_factor m)"
    using applies_pos [OF True] by (intro mult_left_mono) auto
  then have "sint t \<le> dilated t m"
    unfolding dilated_def using zdiv_mono1 [of "sint t * 1000" _ 1000] by fastforce
  with dilates [OF assms(1) True assms(3)] show ?thesis by simp
next
  case False
  then show ?thesis by (simp add: hook_off)
qed

lemma monotone_in_sleep:
  assumes "mult_frac_ok api" and "applies api m c t" and "applies api m c t'"
    and "sint t \<le> sint t'" and "dilated t' m < 2 ^ 63"
  shows "sint (snd (hook api m c t)) \<le> sint (snd (hook api m c t'))"
proof -
  have "dilated t m \<le> dilated t' m"
    unfolding dilated_def using assms(4) by (intro zdiv_mono1 mult_right_mono) auto
  with assms show ?thesis by (simp add: dilates)
qed

lemma neutral_factor: "dilation_factor m = DILATION_DENOMINATOR \<Longrightarrow> hook api m c t = (0, t)"
  using applies_factor hook_off by blast

end

interpretation sched: sleep_hook handler_pre_sched_timeout sched_applies
  by unfold_locales
    (auto simp: handler_pre_sched_timeout_def sched_applies_def Let_def)

interpretation hrtimer: sleep_hook handler_pre_hrtimer_nanosleep hrtimer_applies
  by unfold_locales
    (auto simp: handler_pre_hrtimer_nanosleep_def hrtimer_applies_def Let_def)

section \<open>Module init and exit\<close>

datatype rsrc = Kobj | Attr_group | Kp_sched_timeout | Kp_hrtimer_nanosleep

datatype rsrc_event = Acquire rsrc | Release rsrc

text \<open>What the four kernel calls of the init function return.\<close>

record init_env =
  kobj_created :: bool
  sysfs_ret :: int
  kp_sched_ret :: int
  kp_hrtimer_ret :: int

definition ENOMEM :: int where
  "ENOMEM = 12"

definition sleep_dilation_init :: "init_env \<Rightarrow> int \<times> rsrc_event list" where
  "sleep_dilation_init e =
     (if \<not> kobj_created e then (- ENOMEM, [])
      else let ret = sysfs_ret e in
      if ret \<noteq> 0 then (ret, [Acquire Kobj, Release Kobj])
      else let ret = kp_sched_ret e in
      if ret < 0 then (ret, [Acquire Kobj, Acquire Attr_group, Release Attr_group, Release Kobj])
      else let ret = kp_hrtimer_ret e in
      if ret < 0 then
        (ret, [Acquire Kobj, Acquire Attr_group, Acquire Kp_sched_timeout,
               Release Kp_sched_timeout, Release Attr_group, Release Kobj])
      else
        (0, [Acquire Kobj, Acquire Attr_group, Acquire Kp_sched_timeout,
             Acquire Kp_hrtimer_nanosleep]))"

definition sleep_dilation_exit :: "rsrc_event list" where
  "sleep_dilation_exit =
     [Release Kp_hrtimer_nanosleep, Release Kp_sched_timeout, Release Attr_group, Release Kobj]"

text \<open>Replaying a trace on the stack of held resources: each is taken once and given back in
  the reverse order; \<open>None\<close> is a trace that breaks this.\<close>

fun replay :: "rsrc list \<Rightarrow> rsrc_event list \<Rightarrow> rsrc list option" where
  "replay st [] = Some st"
| "replay st (Acquire r # es) = (if r \<in> set st then None else replay (r # st) es)"
| "replay [] (Release r # es) = None"
| "replay (q # st) (Release r # es) = (if q = r then replay st es else None)"

lemma replay_append:
  "replay st (xs @ ys) = (case replay st xs of None \<Rightarrow> None | Some st' \<Rightarrow> replay st' ys)"
  by (induction st xs rule: replay.induct) auto

section \<open>What the module guarantees\<close>

text \<open>A kernel interface that satisfies the documented contract, for the examples.\<close>

definition example_api :: kernel_api where
  "example_api = \<lparr>mult_frac = (\<lambda>x n d. of_int (sint x * uint n div uint d)),
     MAX_SCHEDULE_TIMEOUT = 2 ^ 63 - 1, TASK_INTERRUPTIBLE = 1,
     kstrtouint = (\<lambda>s. if s = [] then Inl (- 22) else Inr (of_nat (digits_val 0 s))),
     kstrtoint = (\<lambda>s. Inr (of_nat (digits_val 0 s)))\<rparr>"

lemma mult_frac_ok_example: "mult_frac_ok example_api"
  unfolding mult_frac_ok_def
proof (intro allI impI)
  fix x :: u64 and n d :: u32
  assume "0 < sint x" "d \<noteq> 0" and b: "sint x * uint n div uint d < 2 ^ 63"
  then have "0 \<le> sint x * uint n div uint d"
    by (simp add: pos_imp_zdiv_nonneg_iff word_gt_0 uint_0_iff less_le)
  with b show "sint (mult_frac example_api x n d) = sint x * uint n div uint d"
    by (simp add: example_api_def sint_of_int_u64)
qed

lemma kstrtouint_ok_example: "kstrtouint_ok example_api"
  by (simp add: kstrtouint_ok_def example_api_def digits_val_dec_nat_rest no_digit_first_def
      newline_def is_digit_def)

text \<open>With a factor of at least 1000 neither probe ever shortens a sleep, whatever the task
  state, the target process and the requested time are.\<close>

lemma sleeps_never_shortened:
  assumes "mult_frac_ok api" and "1000 \<le> dilation_factor m" and "dilated t m < 2 ^ 63"
  shows "sint t \<le> sint (snd (handler_pre_sched_timeout api m curr_state t))
    \<and> sint t \<le> sint (snd (handler_pre_hrtimer_nanosleep api m tgid t))"
  using sched.never_shorter [OF assms] hrtimer.never_shorter [OF assms] by simp

lemma sleeps_never_shortened_witness:
  "sint (40 :: u64) \<le> sint (snd (handler_pre_sched_timeout example_api
       \<lparr>dilation_factor = 1500, target_pid = 0\<rparr> 1 40))
   \<and> sint (40 :: u64) \<le> sint (snd (handler_pre_hrtimer_nanosleep example_api
       \<lparr>dilation_factor = 1500, target_pid = 0\<rparr> 7 40))"
  by (rule sleeps_never_shortened [OF mult_frac_ok_example]) (simp_all add: dilated_def)



text \<open>The target process restricts \<open>hrtimer_nanosleep\<close> only: another process's nanosleep is
  left alone, while \<open>schedule_timeout\<close> treats every process alike.\<close>

lemma target_pid_only_for_nanosleep:
  "handler_pre_sched_timeout api (m\<lparr>target_pid := p\<rparr>) curr_state t
     = handler_pre_sched_timeout api m curr_state t
   \<and> handler_pre_hrtimer_nanosleep api (m\<lparr>target_pid := p\<rparr>) tgid t
     = (if 0 < sint p \<and> tgid \<noteq> p then (0, t)
        else handler_pre_hrtimer_nanosleep api (m\<lparr>target_pid := 0\<rparr>) tgid t)"
  by (simp add: handler_pre_sched_timeout_def handler_pre_hrtimer_nanosleep_def Let_def)

text \<open>C24. Initialisation takes all four resources or none, in every failure case giving back what
  it took in reverse order, and module exit after a successful start releases everything.\<close>

theorem init_exit_balanced:
  "replay [] (snd (sleep_dilation_init e))
     = Some (if fst (sleep_dilation_init e) = 0
             then [Kp_hrtimer_nanosleep, Kp_sched_timeout, Attr_group, Kobj] else [])
   \<and> replay [] (snd (sleep_dilation_init e)
        @ (if fst (sleep_dilation_init e) = 0 then sleep_dilation_exit else [])) = Some []"
  by (auto simp: sleep_dilation_init_def sleep_dilation_exit_def ENOMEM_def Let_def)

text \<open>A number written to the factor attribute becomes the factor; what the attribute then
  shows is that number over 1000, and a write that the kernel cannot parse changes nothing.\<close>

lemma dilation_factor_store_show:
  assumes "kstrtouint_ok api" and "n < 2 ^ 32" and "kstrtouint api bad = Inl err"
  shows "dilation_factor_store api (dec_nat n @ newline) count m
      = (count, m\<lparr>dilation_factor := of_nat n\<rparr>)
    \<and> dilation_factor_show (snd (dilation_factor_store api (dec_nat n @ newline) count m))
      = dec_nat n @ ''/1000'' @ newline
    \<and> dilation_factor_store api bad count m = (err, m)"
proof -
  have "dec_nat (unat DILATION_DENOMINATOR) = ''1000''"
    by (simp add: DILATION_DENOMINATOR_def) code_simp
  moreover have "unat (of_nat n :: u32) = n"
    using assms(2) by (simp add: unsigned_of_nat take_bit_nat_eq_self)
  ultimately show ?thesis
    using assms by (simp add: dilation_factor_store_def dilation_factor_show_def kstrtouint_ok_def)
qed

lemma dilation_factor_store_show_witness:
  "dilation_factor_store example_api (dec_nat 1500 @ newline) 5 dilation_mod_init
     = (5, dilation_mod_init\<lparr>dilation_factor := of_nat 1500\<rparr>)
   \<and> dilation_factor_show
        (snd (dilation_factor_store example_api (dec_nat 1500 @ newline) 5 dilation_mod_init))
     = dec_nat 1500 @ ''/1000'' @ newline
   \<and> dilation_factor_store example_api [] 5 dilation_mod_init = (- 22, dilation_mod_init)"
  by (rule dilation_factor_store_show [OF kstrtouint_ok_example])
    (simp_all add: example_api_def)

end
