(* ===== verification/Spec2Isabelle.thy ===== *)
theory Spec2Isabelle
  imports End_To_End Ipc_Names Handshake Consumer_Main Globals Kernel_Monitor Sleep_Dilation
begin

text \<open>
  BulletTime records the memory accesses of a running program. A Pin tool (\<open>src/pintool\<close>) is loaded
  into the traced process: it inserts code that appends one 24-byte record per access to a per-thread
  buffer, and hands every full buffer to a second process, the consumer (\<open>src/consumer\<close>), through
  shared memory and two Unix sockets per thread. The consumer compresses (or pads) the buffer, writes
  it to the thread's trace file, and keeps the relative speed of the traced threads close to that of
  the untraced program: it delays threads that are ahead, and writes a factor to a kernel module
  (\<open>src/kernel_dilation\<close>) that stretches sleeps while the program runs slower than it would alone.

  \<^bold>\<open>Which theory models what\<close> (paths below \<open>src/\<close> of the repository)

  \<^item> \<open>Prelude\<close>, \<open>Cpp_String\<close>, \<open>Float64\<close>: machine integers as words, failures as a sum type, checked
    vector accesses, runs of a step relation with the contract \<open>preserved\<close>; \<open>std::to_string\<close>,
    \<open>stoi\<close>, \<open>stoul\<close>, \<open>find_last_of\<close>; IEEE binary64 with rounding to nearest, infinities and NaN.
  \<^item> \<open>Consumer_Header\<close>: the sizes in \<open>include/consumer.h\<close>.
  \<^item> \<open>Instrumentation\<close>: \<open>Trace\<close> and \<open>ImageLoad\<close> (\<open>bullettime.cpp\<close>) as functions from the code that
    Pin presents to the calls they insert, and the inserted callbacks (\<open>bullettime.h\<close>).
  \<^item> \<open>Buffer_Transfer\<close>: \<open>BufferFull_PC\<close>, \<open>CheckSkip\<close>, \<open>ProcessBuffer\<close>, \<open>CopyToSharedMemory\<close>.
  \<^item> \<open>Thread_Start\<close>, \<open>Tool_Main\<close>: \<open>ThreadStart\<close>, \<open>ThreadFini\<close>; \<open>main\<close>, \<open>PrepareForFini\<close>, \<open>EndTrace\<close>,
    \<open>Fini\<close> with the report of instruction frequencies.
  \<^item> \<open>Buffer_Manager\<close>, \<open>App_Representative\<close>: the lists of free buffers (\<open>buffer_manager.cpp\<close>), for one
    thread and as the steps of several, and a thread's buffers (\<open>app_representative.cpp\<close>,
    \<open>buffers.h\<close>).
  \<^item> \<open>Statistics\<close>, \<open>Pretty_Table\<close>: \<open>statistics.cpp\<close> and \<open>statistics.h\<close>, \<open>pretty_table.h\<close>.
  \<^item> \<open>Trace_Format\<close>: \<open>struct MEMREF\<close> (\<open>common.h\<close>) as bytes, and a reader of traces.
  \<^item> \<open>Consumer_State\<close>, \<open>Control\<close>, \<open>Balance\<close>, \<open>Listen\<close>, \<open>Receiver\<close>, \<open>Consumer_Main\<close>: the functions of
    \<open>consumer.cpp\<close> from its globals and \<open>InitThreadData\<close> through \<open>ControlThread\<close>, \<open>WriteDummy\<close>,
    \<open>Listen\<close> and \<open>ReceiverThread\<close> to \<open>main\<close>.
  \<^item> \<open>Cpu_Monitor\<close>, \<open>Kernel_Monitor\<close>: \<open>cpu_monitor.cpp\<close>, \<open>kernel_monitor.cpp\<close>.
  \<^item> \<open>Sleep_Dilation\<close>: the kernel module \<open>sleep_dilation.c\<close>.
  \<^item> \<open>Listen_Trace\<close> (what the trace file holds), \<open>Globals\<close> (the globals under all threads of the
    consumer), \<open>Handshake\<close> (how the sockets get connected), \<open>Ipc_Names\<close> (the names by which the two
    processes find each other), \<open>End_To_End\<close> (the channel) and this theory put the parts together.

  \<^bold>\<open>How the code is modelled.\<close> A struct, class or group of globals is a record with the fields of the
  source; a function takes the state and returns it changed. \<open>size_t\<close>, \<open>UINT64\<close>, \<open>int\<close> and the kernel's
  \<open>long\<close> are words and wrap; a conversion of a \<open>double\<close> outside the range of the integer type, a
  vector index out of range, a failing \<open>ASSERTX\<close> and \<open>exit\<close> are values of \<open>fault\<close>. Early returns are
  \<open>None\<close> or constructors of an outcome type. What the program does not decide is an argument:
  results of system calls, clock readings and perf counters (the records named \<open>_env\<close>), the contents
  of memory that another process writes, and what other threads do to shared variables between two
  critical sections. Operations under a lock are one step; where the order of steps of several
  threads matters they are an inductive step relation: \<open>bm_step\<close> (putters, getters and the exit
  notification of a buffer list), \<open>pid_step\<close> (the directory of thread files), \<open>hs_step\<close> (connecting),
  \<open>globals_step\<close> (the consumer's globals).

  \<^bold>\<open>Parameters.\<close> zstd is the record \<open>zstd_api\<close> with the documented behaviour \<open>zstd_ok\<close>: a call never
  emits more than the room it is given, it consumes all its input where the room is at least the bound
  for that input, and what it has emitted once a frame is ended expands to what it was fed. Pin's semaphores (\<open>sem_ok\<close>), buffers and number formatting, \<open>std::sort\<close>, and the
  kernel's \<open>kstrtouint\<close> and \<open>mult_frac\<close> (\<open>kstrtouint_ok\<close>, \<open>mult_frac_ok\<close>) are parameters likewise. Each
  hypothesis is met by a concrete instance in a witness.

  \<^bold>\<open>What is proved.\<close>

  \<^item> The trace: the records that the inserted code produces are the accesses in program order
    (\<open>every_access_recorded\<close>), a finished trace file expands to the bytes received
    (\<open>trace_complete\<close>, \<open>compressed_writes_aligned\<close>, \<open>raw_trace_contents\<close>), and both together with the
    channel give \<open>every_access_reaches_the_trace_file\<close>.
  \<^item> Control: the election of the slowest thread and the windows of a control period, how long and for
    which threads a delay is injected and that it ends, and, down to the kernel module,
    \<open>control_only_slows_sleeps\<close> and \<open>sleeps_dilated_exactly\<close>.
  \<^item> Resources: descriptors, mappings and paths of monitors and receivers, the buffers of a thread, the
    probes of the kernel module are released exactly once.
  \<^item> Concurrency: the buffer list refines a queue and loses no wake-up before the exit, thread files are
    served once, the connection completes outside one window, the vectors are indexed in range.
  \<^item> Bounds and counts: \<open>full_buffer_fits_mapping\<close>, \<open>profile_limit_lower_bound\<close>, the counts of monitors
    and transfers add up, the overall statistics do not depend on the order of the threads.
  \<^item> Behaviour that is as it is in the code though hardly meant: \<open>end_of_stream_repeats_last_buffer\<close>,
    \<open>wrap_overwrites_start_appends_tail\<close>, \<open>NaN_work_is_permanent\<close>, \<open>exit_wakeup_can_be_lost\<close>,
    \<open>handshake_can_hang\<close>, \<open>file_before_watch_unnoticed\<close>, and the lemmas
    \<open>empty_trace_holds_shared_memory\<close>, \<open>shadow_log_races_with_InitThreadData\<close>, \<open>bbl_ratio_always_one\<close>,
    \<open>directory_streams_leak\<close>.

  The locales state what providers promise and clients rely on: \<open>delta_counter\<close> (counters read as
  differences: both monitors and the transfer), \<open>trace_sink\<close> (compressed and raw processing of a
  buffer), \<open>buffer_queue\<close> (the free lists), \<open>sleep_hook\<close> (both probes), \<open>preserved\<close> (the step relations).

  \<^bold>\<open>Bounds.\<close> A session of fewer than \<open>2 ^ 15\<close> iterations stays below the \<open>2 ^ 36\<close> bytes at which the
  listener starts its file over, since an iteration writes at most 2 MB; the start-over itself is
  \<open>wrap_overwrites_start_appends_tail\<close>. The sleep loop of \<open>WriteDummy\<close> runs over a list of clock readings:
  \<open>dummy_loop_enough\<close> shows that one reading per 10 ms is enough. The loops over environments
  (\<open>listen_loop\<close>, \<open>serve\<close>, \<open>ControlThread\<close>) run for as many rounds as are given, and the loop that
  connects the sockets is a partial function, \<open>None\<close> where it never ends.

  \<^bold>\<open>Not modelled.\<close> Lines written to the standard streams and the kernel log (but the values of
  \<open>LogThreadStats\<close>, \<open>Dump\<close> and the report are); \<open>Usage\<close> and the singleton access of the buffer manager,
  which keep no state; registering callbacks with Pin; the busy wait for the directory of thread
  files and a failing \<open>inotify_init\<close>; memory orderings weaker than the locks and fences give; scripts,
  makefiles and documentation, which are no code of the two programs.
\<close>

section \<open>From the traced instructions to the trace file\<close>

text \<open>C1. Every access reaches the trace file: the records that a traced thread's instrumented blocks
  produce, cut into buffers of any sizes up to 1 MB and handed over through the shared memory, are
  read back from the expanded trace file as exactly the thread's memory accesses, in program
  order, for every output chunking of the compressor and every session that ends when the consumer
  is stopped or its send fails.\<close>

theorem every_access_reaches_the_trace_file:
  assumes "fold_fault run_block (map snd blocks) ([], Some th) = Inr (concat recss, th')"
    and "\<And>b bc ds. (b, bc, ds) \<in> set blocks \<Longrightarrow> instrumented k b bc \<and> length ds = length b"
    and "list_all2 holds_records rs recss" and "rs \<noteq> []"
    and "delivered track a rs es"
    and "zstd_ok zs fed emitted bound expand"
    and "\<And>n. n \<le> CONSUMER_BUFFER_SIZE \<Longrightarrow> bound n \<le> ZSTD_BUFFER_SIZE - 4096"
    and "use_compression (conf c)" and "contents f = []" and "at_end f"
    and "length mem = ALLOCATION_SIZE" and "length es < 2 ^ 15"
    and "\<And>e. e \<in> set es \<Longrightarrow> length (le_shm e) = ALLOCATION_SIZE \<and> keeps_conf e"
    and "listen_loop zs i es (listener_start zs True mon mem f) c = Break l c'"
    and "length (loop_received zs i es (listener_start zs True mon mem f) c) = length rs"
    and "listen_post zs True pe l = Some (lf, named)"
    and "pe_written2 pe = int (length (z_pending lf))"
  shows "read_trace (expand (contents (out_f lf)))
    = Some (concat (map (\<lambda>(b, bc, ds). concat (map2 accesses b ds)) blocks))"
proof -
  let ?l = "listener_start zs True mon mem f"
  have seven: "length (recv_data ?l) = 7" by (simp add: listener_start_def)
  note buffers = session_buffers [OF assms(3,5) seven assms(15)]
  have some: "loop_received zs i es ?l c \<noteq> []" using assms(4,15) by auto
  have "expand (contents (out_f lf)) = concat (loop_received zs i es ?l c)"
    by (rule session_expands [OF assms(6-13) buffers(2) some assms(14,16,17)])
  then have "read_trace (expand (contents (out_f lf))) = Some (concat recss)"
    by (simp add: buffers(1) read_trace_buffers)
  moreover have "concat recss = concat (map (\<lambda>(b, bc, ds). concat (map2 accesses b ds)) blocks)"
    using run_blocks [OF assms(1,2)] by simp
  ultimately show ?thesis by simp
qed

text \<open>An example: one instruction that reads, executed once, in one buffer.\<close>

definition example_record :: memref where
  "example_record = \<lparr>mr_pc = 1, mr_ea = 64, mr_sz = 8, mr_is_read = 1\<rparr>"

definition example_bytes :: "byte list" where
  "example_bytes = buffer_of [example_record]"

definition example_sent :: reading where
  "example_sent = \<lparr>rd_stats = app_stats_init\<lparr>st_ins := 4, st_mem_ins := 2\<rparr>, rd_fcalls = 1,
     rd_env = \<lparr>ce_gen = 100, ce_wait_start = 100, ce_rdy_bytes = 8, ce_wait_end = 100,
       ce_mcpy_start = 100, ce_mcpy_end = 100, ce_send = 56\<rparr>,
     rd_buf = example_bytes, rd_bytes = 24\<rparr>"

definition example_ready_thread :: "bool app_thread" where
  "example_ready_thread = example_thread\<lparr>shared_mem := Some (replicate ALLOCATION_SIZE 0),
     shared_mem_size := 2097152, sock_rdy := 5, sock_size := 6, buf_gen_time := [100]\<rparr>"

definition example_full_mem :: "byte list" where
  "example_full_mem = example_bytes @ replicate (ALLOCATION_SIZE - 24) 0"

definition example_trace_iter :: listen_env where
  "example_trace_iter = (example_iter 24 7)\<lparr>le_recv := Recv_words [24, 0, 1, 4, 2, 1, 0],
     le_shm := example_full_mem\<rparr>"

definition example_trace_session :: "listen_env list" where
  "example_trace_session = [example_trace_iter, example_trace_iter\<lparr>le_stop := True\<rparr>]"

definition example_trace_after :: "byte list listener" where
  "example_trace_after = example_after\<lparr>cctx := example_bytes, z_pending := example_bytes,
     recv_data := [24, 0, 1, 4, 2, 1, 0], shm := example_full_mem\<rparr>"

lemma example_bytes_simps [simp]:
  "length example_bytes = 24" "take 24 example_full_mem = example_bytes" "length example_full_mem = 2097152"
  by (simp_all add: example_bytes_def example_full_mem_def length_buffer_of)

lemma example_trace_first:
  "\<exists>c'. listen_iter id_zstd 0 example_trace_iter example_listener example_one = Next example_trace_after c'"
  by (simp add: listen_eval example_trace_iter_def session_defs example_trace_after_def example_after_def
      example_defs)

lemma example_trace_loop:
  "\<exists>c'. listen_loop id_zstd 0 example_trace_session example_listener example_one = Break example_trace_after c'"
  "length (loop_received id_zstd 0 example_trace_session example_listener example_one) = 1"
  using example_trace_first
  by (auto simp: example_trace_session_def example_trace_iter_def example_iter_def)

definition example_trace_final :: "byte list listener" where
  "example_trace_final = example_trace_after\<lparr>out_f := \<lparr>contents = example_bytes, offset = 24,
     append_mode = True, is_open = False\<rparr>, out_data := 24, z_pending := []\<rparr>"

lemma example_trace_finish:
  "listen_post id_zstd True \<lparr>pe_reopened = True, pe_written1 = 24, pe_written2 = 0, pe_renamed = True\<rparr>
     example_trace_after = Some (example_trace_final, True)"
  by (simp add: listen_post_def example_trace_after_def example_after_def example_trace_final_def
      example_listener_def listener_start_def example_file_def reopen_def close_file_def
      file_write_def file_put_def id_zstd_def Let_def)

lemma example_sent_delivered: "delivered True example_ready_thread [example_sent] example_trace_session"
  by (simp add: example_trace_session_def example_trace_iter_def example_iter_def send_buffer_def
      CopyToSharedMemory_def example_ready_thread_def example_thread_def example_sent_def
      app_stats_init_def example_full_mem_def Let_def)

lemma every_access_reaches_the_trace_file_witness:
  "read_trace (contents (out_f example_trace_final)) = Some [example_record]"
proof -
  let ?b = "[example_ins 1 True False]"
  obtain tb' where t: "Trace example_knobs None [?b] no_tables = Inr (map (bbl_calls_of example_knobs) [?b], tb')"
    using Trace_total [of "[?b]" example_knobs None no_tables] by auto
  have i: "instrumented example_knobs ?b (bbl_calls_of example_knobs ?b)"
    unfolding instrumented_def by (rule exI, rule exI, rule exI, rule exI, rule exI, rule exI [of _ 0], rule conjI [OF t]) simp
  let ?blocks = "[(?b, bbl_calls_of example_knobs ?b, [example_access])]"
  have acc: "accesses (example_ins 1 True False) example_access = [example_record]"
    by (simp add: accesses_def example_ins_def example_access_def example_record_def)
  obtain th' where run: "fold_fault run_block (map snd ?blocks) ([], Some example_thread)
      = Inr (concat [[example_record]], th')"
    by (simp add: run_block_def run_bbl_def RecordInsExecuted_def instrumented_ins [OF i] run_ins_calls
        acc run_calls_ins)
  obtain c' where loop: "listen_loop id_zstd 0 example_trace_session
      (listener_start id_zstd True example_monitor (example_mem 0 0) example_file) example_one
      = Break example_trace_after c'"
    using example_trace_loop(1) unfolding example_listener_def by blast
  have "read_trace (id (contents (out_f example_trace_final)))
      = Some (concat (map (\<lambda>(b, bc, ds). concat (map2 accesses b ds)) ?blocks))"
  proof (rule every_access_reaches_the_trace_file [OF run _ _ _ example_sent_delivered id_zstd_ok
        _ _ _ _ _ _ _ loop _ example_trace_finish])
    show "list_all2 holds_records [example_sent] [[example_record]]"
      by (simp add: holds_records_def example_sent_def example_bytes_def [symmetric])
    show "instrumented example_knobs b bc \<and> length ds = length b" if "(b, bc, ds) \<in> set ?blocks" for b bc ds
      using that i by simp
    show "use_compression (conf example_one)"
      by (simp add: example_one_def InitThreadData_def consumer_init_def example_settings_z_def Let_def)
    show "length (le_shm e) = ALLOCATION_SIZE \<and> keeps_conf e" if "e \<in> set example_trace_session" for e
      using that by (auto simp: example_trace_session_def example_trace_iter_def example_iter_def keeps_conf_def)
    show "length (loop_received id_zstd 0 example_trace_session
        (listener_start id_zstd True example_monitor (example_mem 0 0) example_file) example_one)
        = length [example_sent]"
      using example_trace_loop(2) by (simp add: example_listener_def)
  qed (simp_all add: example_file_def at_end_def example_trace_session_def example_trace_final_def)
  then show ?thesis by (simp add: acc)
qed

section \<open>How the two processes meet\<close>

text \<open>C2. Tool and consumer meet: for an output prefix in the consumer's target directory, the tool
  writes its thread file into the directory that it created and that the consumer watches; from
  the file's name the consumer reads back the native and the Pin thread number, and the sockets and
  the shared memory it then sets up are the ones the tool connects to and maps, unless a file of
  that name is left in \<open>/dev/hugepages\<close> while the consumer works without huge pages.\<close>

theorem tool_and_consumer_meet:
  assumes "KnobOutPrefix k = dir @ ''/'' @ base" and "CHR ''/'' \<notin> set base" and "CHR 0x5C \<notin> set base"
    and "\<And>n. ts_decstr e n = dec_nat (unat n)"
    and "unat (ts_native_tid e) < 2 ^ 31" and "unat tid < 2 ^ 31"
    and "ThreadStart api k g e this tid = Some (Inr (es, a))"
  defines "name \<equiv> thread_file (ts_decstr e) base (ts_native_tid e) tid"
  shows "Wrote_file (pids_dir (KnobOutPrefix k) @ ''/'' @ name) name \<in> set es
    \<and> pids_dir (KnobOutPrefix k) = dir @ ''/pids''
    \<and> parse_thread_name name = Parsed (uint (ts_native_tid e)) (uint tid)
    \<and> (\<forall>cf re evs r. receiver_setup cf re dir name = Setup_ready evs r \<longrightarrow>
         Connected (r_rdy_path r) (r_size_path r) \<in> set es
         \<and> (use_hugepages cf \<and> ts_open e (r_shm_file r) \<noteq> None
            \<or> \<not> use_hugepages cf \<and> ts_open e (''/dev/hugepages/shared_mem_'' @ dec_nat (unat tid)) = None \<longrightarrow>
              Mapped_file (r_shm_file r) (of_nat ALLOCATION_SIZE) \<in> set es))"
proof -
  have dir: "pids_dir (KnobOutPrefix k) = dir @ ''/pids''"
    using pids_dir_append [OF assms(2,3)] assms(1) by simp
  note ev = ThreadStart_events [OF assms(7,1,2), folded name_def]
  have parsed: "parse_thread_name name = Parsed (uint (ts_native_tid e)) (uint tid)"
    using parse_printed_name [OF assms(5,6), of base] by (simp add: name_def thread_file_def assms(4))
  have "Connected (r_rdy_path r) (r_size_path r) \<in> set es"
    and "use_hugepages cf \<and> ts_open e (r_shm_file r) \<noteq> None
      \<or> \<not> use_hugepages cf \<and> ts_open e (''/dev/hugepages/shared_mem_'' @ dec_nat (unat tid)) = None \<Longrightarrow>
      Mapped_file (r_shm_file r) (of_nat ALLOCATION_SIZE) \<in> set es"
    if "receiver_setup cf re dir name = Setup_ready evs r" for cf re evs r
  proof -
    have r: "r_rdy_path r = socket_path (dir @ ''/rdy_'' @ dec_nat (unat tid))"
      "r_size_path r = socket_path (dir @ ''/size_'' @ dec_nat (unat tid))"
      "r_shm_file r = (if use_hugepages cf then ''/dev/hugepages/'' else ''/dev/shm/'')
         @ ''shared_mem_'' @ dec_nat (unat tid)"
      using receiver_setup_ready [OF that] parsed by (auto simp: dec_int_def)
    show "Connected (r_rdy_path r) (r_size_path r) \<in> set es"
      using ev(2) by (simp add: r assms(4) sun_path_def socket_path_def)
    show "Mapped_file (r_shm_file r) (of_nat ALLOCATION_SIZE) \<in> set es"
      if "use_hugepages cf \<and> ts_open e (r_shm_file r) \<noteq> None
      \<or> \<not> use_hugepages cf \<and> ts_open e (''/dev/hugepages/shared_mem_'' @ dec_nat (unat tid)) = None"
      using ev(3) that by (auto simp: r open_shared_mem_def assms(4) Let_def split: option.splits if_splits)
  qed
  with ev(1) dir parsed show ?thesis by simp
qed

lemma tool_and_consumer_meet_witness:
  "\<exists>es a. ThreadStart flag_sem example_knobs example_tool example_start 3 1 = Some (Inr (es, a))
    \<and> Wrote_file ''/t/pids/run-321.1'' ''run-321.1'' \<in> set es
    \<and> parse_thread_name ''run-321.1'' = Parsed 321 1 \<and> Connected ''/t/rdy_1'' ''/t/size_1'' \<in> set es"
proof -
  obtain es a where t: "ThreadStart flag_sem example_knobs example_tool example_start 3 1 = Some (Inr (es, a))"
    using example_start_run by blast
  have dec: "dec_nat (Suc 0) = ''1''" "dec_nat 321 = ''321''" by (code_simp, code_simp)
  have name: "thread_file (ts_decstr example_start) ''run'' (ts_native_tid example_start) 1 = ''run-321.1''"
    by (simp add: thread_file_def example_start_def dec)
  have k: "KnobOutPrefix example_knobs = ''/t'' @ ''/'' @ ''run''" by (simp add: example_knobs_def)
  note m = tool_and_consumer_meet [OF k _ _ _ _ _ t, unfolded name]
  obtain evs where "receiver_setup settings_init example_receiver ''/t'' ''run-321.1'' = Setup_ready evs example_ready"
    using example_setup by blast
  moreover have "\<forall>cf re evs r. receiver_setup cf re ''/t'' ''run-321.1'' = Setup_ready evs r \<longrightarrow>
      Connected (r_rdy_path r) (r_size_path r) \<in> set es"
    using m by (simp add: example_start_def)
  ultimately have "Connected (r_rdy_path example_ready) (r_size_path example_ready) \<in> set es" by blast
  moreover have "Wrote_file (pids_dir (KnobOutPrefix example_knobs) @ ''/run-321.1'') ''run-321.1'' \<in> set es
      \<and> pids_dir (KnobOutPrefix example_knobs) = ''/t/pids'' \<and> parse_thread_name ''run-321.1'' = Parsed 321 1"
    using m by (auto simp: example_start_def)
  ultimately show ?thesis using t by (auto simp: example_ready_def)
qed

section \<open>From the control thread to the kernel's sleeps\<close>



end
